(* ===== verification/P2P_Prelude.thy ===== *)
theory P2P_Prelude
  imports Main "HOL-Library.Word" "HOL-Library.Sublist"
begin

text \<open>
  Shared vocabulary of the development: the machine integers of the Rust sources as
  words, results of fallible code as values of \<open>err + 'a\<close> (a Rust panic is one of the
  error values), the collections the component theories fill for the simplifier, and the
  one locale that states the contract two components share: a gate that lets a key pass
  at most once per time window (the nonce check of the UDP protocol and the cooldown
  table of the route manager are its two interpretations).
\<close>

section \<open>Machine integers and results\<close>

type_synonym u8 = "8 word"
type_synonym u16 = "16 word"
type_synonym u32 = "32 word"
type_synonym u64 = "64 word"
type_synonym i64 = "64 word"
type_synonym bytes = "u8 list"

text \<open>
  \<open>Error m\<close> is the \<open>Err\<close> of a Rust \<open>Result\<close> (an \<open>anyhow\<close> error, an I/O error or an
  \<open>errno\<close>); \<open>Panic m\<close> is a Rust panic, which no \<open>?\<close> or \<open>match\<close> of the caller sees.
\<close>

datatype err = Error string | Panic string

type_synonym 'a res = "err + 'a"

text \<open>How an error is shown in a message.\<close>

definition err_text :: "err \<Rightarrow> string" where
  "err_text e = (case e of Error m \<Rightarrow> m | Panic m \<Rightarrow> m)"

text \<open>The \<open>?\<close> operator: go on with the value, or return the error.\<close>

definition and_then :: "'a res \<Rightarrow> ('a \<Rightarrow> 'b res) \<Rightarrow> 'b res" where
  "and_then r f = (case r of Inl e \<Rightarrow> Inl e | Inr x \<Rightarrow> f x)"

lemma and_then_simps [simp]:
  "and_then (Inl e) f = Inl e"
  "and_then (Inr x) f = f x"
  by (simp_all add: and_then_def)

lemma and_then_cong [fundef_cong]:
  "r = r' \<Longrightarrow> (\<And>x. r' = Inr x \<Longrightarrow> f x = g x) \<Longrightarrow> and_then r f = and_then r' g"
  by (cases r') simp_all

lemma and_then_Inr_iff:
  "and_then r f = Inr y \<longleftrightarrow> (\<exists>x. r = Inr x \<and> f x = Inr y)"
  by (cases r) simp_all

text \<open>\<open>Result::ok\<close> and \<open>Result::is_ok\<close>.\<close>

definition ok :: "'a res \<Rightarrow> 'a option" where
  "ok r = (case r of Inl _ \<Rightarrow> None | Inr x \<Rightarrow> Some x)"

lemma ok_simps [simp]: "ok (Inl e) = None" "ok (Inr x) = Some x"
  by (simp_all add: ok_def)

lemma ok_eq_Some [simp]: "ok r = Some x \<longleftrightarrow> r = Inr x"
  by (cases r) simp_all

lemma ok_eq_None [simp]: "ok r = None \<longleftrightarrow> (\<exists>e. r = Inl e)"
  by (cases r) simp_all

section \<open>Fallible code with state\<close>

text \<open>Go on with the value in the new state, or stop with the error.\<close>

definition seq :: "'s \<times> 'a res \<Rightarrow> ('a \<Rightarrow> 's \<Rightarrow> 's \<times> 'b res) \<Rightarrow> 's \<times> 'b res" where
  "seq r f = (case snd r of Inl e \<Rightarrow> (fst r, Inl e) | Inr x \<Rightarrow> f x (fst r))"

lemma seq_simps [simp]: "seq (s, Inl e) f = (s, Inl e)" "seq (s, Inr x) f = f x s"
  by (simp_all add: seq_def)

lemma seq_Inr_iff: "seq r f = (s', Inr y) \<longleftrightarrow> (\<exists>s x. r = (s, Inr x) \<and> f x s = (s', Inr y))"
  by (cases r) (auto simp: seq_def split: sum.splits)

section \<open>Collections of facts\<close>

named_theorems struct_defs \<open>defaults and constructors of the shared structures\<close>

section \<open>Generic facts\<close>

lemma unat_sub_or_zero:
  "unat (if b \<le> a then a - b else (0 :: 'a :: len word)) = unat a - unat b"
  by (auto simp: unat_sub word_le_nat_alt)

text \<open>Reading a bit of a one-byte value.\<close>

lemma unat_u8_less [simp]: "unat (b :: u8) < 256"
  using unsigned_less [of b, where 'a = nat] by simp

section \<open>A gate that admits a key at most once per window\<close>

text \<open>
  \<open>admit t r s\<close> asks at clock reading \<open>t\<close> whether request \<open>r\<close> may pass and returns the
  answer and the new state; \<open>last_at s k\<close> is the time (in the units of \<open>at\<close>) of the
  admission for key \<open>k\<close> that the state still remembers, and \<open>clock\<close> holds of the readings
  the provider works for. The provider promises that a remembered admission younger than
  the window blocks the key, that an admission is remembered, and that it is not
  forgotten while it is younger than the window. The client learns that two admissions
  for one key are a window apart.
\<close>

primrec gate_run ::
    "('t \<Rightarrow> 'r \<Rightarrow> 's \<Rightarrow> bool \<times> 's) \<Rightarrow> ('t \<times> 'r) list \<Rightarrow> 's \<Rightarrow> bool list \<times> 's" where
  "gate_run admit [] s = ([], s)"
| "gate_run admit (e # es) s =
     (let (b, s') = admit (fst e) (snd e) s; (bs, s'') = gate_run admit es s' in (b # bs, s''))"

lemma gate_run_Cons:
  "fst (gate_run admit (e # es) s) =
     fst (admit (fst e) (snd e) s) # fst (gate_run admit es (snd (admit (fst e) (snd e) s)))"
  by (simp add: case_prod_beta Let_def)

lemma snd_gate_run_Cons:
  "snd (gate_run admit (e # es) s) = snd (gate_run admit es (snd (admit (fst e) (snd e) s)))"
  by (simp add: case_prod_beta Let_def)

lemma length_gate_run [simp]: "length (fst (gate_run admit es s)) = length es"
  by (induction es arbitrary: s) (simp_all add: case_prod_beta Let_def)

definition admitted ::
    "('t \<Rightarrow> 'r \<Rightarrow> 's \<Rightarrow> bool \<times> 's) \<Rightarrow> ('t \<times> 'r) list \<Rightarrow> 's \<Rightarrow> ('t \<times> 'r) list" where
  "admitted admit es s = map fst (filter snd (zip es (fst (gate_run admit es s))))"

lemma admitted_Nil [simp]: "admitted admit [] s = []"
  by (simp add: admitted_def)

lemma admitted_Cons [simp]:
  "admitted admit (e # es) s =
     (if fst (admit (fst e) (snd e) s) then [e] else []) @ admitted admit es (snd (admit (fst e) (snd e) s))"
  by (simp add: admitted_def gate_run_Cons del: gate_run.simps(2))

lemma snd_gate_run_append:
  "snd (gate_run admit (xs @ ys) s) = snd (gate_run admit ys (snd (gate_run admit xs s)))"
  by (induction xs arbitrary: s) (simp_all add: snd_gate_run_Cons del: gate_run.simps(2))

lemma admitted_append:
  "admitted admit (xs @ ys) s = admitted admit xs s @ admitted admit ys (snd (gate_run admit xs s))"
  by (induction xs arbitrary: s) (simp_all add: snd_gate_run_Cons del: gate_run.simps(2))

locale window_gate =
  fixes admit :: "'t \<Rightarrow> 'r \<Rightarrow> 's \<Rightarrow> bool \<times> 's"
    and key :: "'r \<Rightarrow> 'k"
    and last_at :: "'s \<Rightarrow> 'k \<Rightarrow> nat option"
    and at :: "'t \<Rightarrow> nat"
    and clock :: "'t \<Rightarrow> bool"
    and window :: nat
    and inv :: "'s \<Rightarrow> bool"
  assumes blocks: "inv s \<Longrightarrow> last_at s (key r) = Some t0 \<Longrightarrow> at t < t0 + window \<Longrightarrow>
        \<not> fst (admit t r s)"
    and records: "inv s \<Longrightarrow> clock t \<Longrightarrow> fst (admit t r s) \<Longrightarrow>
        last_at (snd (admit t r s)) (key r) = Some (at t)"
    and remembers: "inv s \<Longrightarrow> last_at s k = Some t0 \<Longrightarrow> at t < t0 + window \<Longrightarrow>
        last_at (snd (admit t r s)) k = Some t0"
    and keeps: "inv s \<Longrightarrow> inv (snd (admit t r s))"
begin

lemma remembered_blocks:
  assumes "inv s" and "last_at s k = Some t0" and "j < length es" and "key (snd (es ! j)) = k"
    and "\<forall>i \<le> j. at (fst (es ! i)) < t0 + window"
  shows "\<not> fst (gate_run admit es s) ! j"
  using assms
proof (induction es arbitrary: s j)
  case (Cons e es)
  show ?case
  proof (cases j)
    case 0
    with Cons.prems show ?thesis by (auto simp: gate_run_Cons blocks simp del: gate_run.simps)
  next
    case (Suc i)
    let ?s = "snd (admit (fst e) (snd e) s)"
    have early: "at (fst ((e # es) ! l)) < t0 + window" if "l \<le> j" for l
      using Cons.prems(5) that by blast
    have "last_at ?s k = Some t0"
      using Cons.prems(1,2) early [of 0] by (intro remembers) simp_all
    moreover have "\<forall>l \<le> i. at (fst (es ! l)) < t0 + window"
      using early [of "Suc _"] Suc by auto
    ultimately have "\<not> fst (gate_run admit es ?s) ! i"
      using Cons.prems Suc by (intro Cons.IH) (auto intro: keeps)
    then show ?thesis using Suc by (simp add: gate_run_Cons del: gate_run.simps)
  qed
qed simp

lemma admissions_apart:
  assumes "inv s" and "clock (fst (es ! i))" and "sorted (map (\<lambda>e. at (fst e)) es)"
    and "i < j" and "j < length es" and "key (snd (es ! i)) = key (snd (es ! j))"
    and "fst (gate_run admit es s) ! i" and "fst (gate_run admit es s) ! j"
  shows "at (fst (es ! i)) + window \<le> at (fst (es ! j))"
  using assms
proof (induction es arbitrary: s i j)
  case (Cons e es)
  let ?s = "snd (admit (fst e) (snd e) s)"
  obtain j' where j: "j = Suc j'" using Cons.prems(4) by (cases j) auto
  show ?case
  proof (cases i)
    case 0
    show ?thesis
    proof (rule ccontr)
      assume late: "\<not> ?thesis"
      have "last_at ?s (key (snd e)) = Some (at (fst e))"
        using Cons.prems 0 by (intro records) (simp_all add: gate_run_Cons del: gate_run.simps)
      moreover have "at (fst (es ! l)) < at (fst e) + window" if "l \<le> j'" for l
      proof -
        have "at (fst (es ! l)) \<le> at (fst (es ! j'))"
          using Cons.prems(3,5) that j sorted_nth_mono [of "map (\<lambda>e. at (fst e)) es" l j'] by simp
        then show ?thesis using late 0 j by simp
      qed
      ultimately have "\<not> fst (gate_run admit es ?s) ! j'"
        using Cons.prems 0 j
        by (intro remembered_blocks [where k = "key (snd e)"]) (auto intro: keeps)
      then show False using Cons.prems(8) j by (simp add: gate_run_Cons del: gate_run.simps)
    qed
  next
    case (Suc i')
    then show ?thesis
      using Cons.prems j Cons.IH [of ?s i' j'] by (simp add: gate_run_Cons keeps del: gate_run.simps)
  qed
qed simp

text \<open>The admitted requests of a run, in order: equal keys are a window apart, unless the
  clock of the earlier one was unusable.\<close>

lemma admitted_apart:
  assumes "inv s" and "sorted (map (\<lambda>e. at (fst e)) es)"
  shows "sorted_wrt (\<lambda>x y. clock (fst x) \<longrightarrow> key (snd x) = key (snd y) \<longrightarrow> at (fst x) + window \<le> at (fst y))
    (admitted admit es s)"
proof -
  let ?zs = "zip es (fst (gate_run admit es s))"
  let ?apart = "\<lambda>x y. clock (fst x) \<longrightarrow> key (snd x) = key (snd y) \<longrightarrow> at (fst x) + window \<le> at (fst y)"
  have "sorted_wrt (\<lambda>u v. snd u \<longrightarrow> snd v \<longrightarrow> ?apart (fst u) (fst v)) ?zs"
    using admissions_apart [OF assms(1) _ assms(2)] by (simp add: sorted_wrt_iff_nth_less)
  then have "sorted_wrt (\<lambda>u v. snd u \<longrightarrow> snd v \<longrightarrow> ?apart (fst u) (fst v)) (filter snd ?zs)"
    by (rule sorted_wrt_filter)
  then have "sorted_wrt (\<lambda>u v. ?apart (fst u) (fst v)) (filter snd ?zs)"
    by (rule sorted_wrt_mono_rel [rotated]) auto
  then show ?thesis by (simp add: admitted_def sorted_wrt_map)
qed

end

end
