(* ===== verification/Rust_Std.thy ===== *)
theory Rust_Std
  imports P2P_Prelude
begin

text \<open>
  The parts of the Rust standard library that the sources use: big- and little-endian
  byte arrays of integers, decimal and hexadecimal formatting, \<open>parse\<close> for unsigned
  integers, \<open>Ipv4Addr\<close> and \<open>SocketAddr\<close> (the parser of \<open>core::net\<close>, with its optional
  IPv6 form), and the string operations \<open>split\<close>, \<open>lines\<close>, \<open>split_whitespace\<close>, \<open>trim\<close>.
  A Rust \<open>str\<close> is a list of UTF-8 bytes, here a \<open>string\<close>; white space and case are the
  ASCII ones, so text outside ASCII is compared and cut byte by byte.
\<close>

section \<open>Integers and their bytes\<close>

text \<open>\<open>be_val\<close> reads bytes most significant first; \<open>be_enc k v\<close> writes \<open>k\<close> of them.\<close>

definition be_val :: "bytes \<Rightarrow> nat" where
  "be_val bs = foldl (\<lambda>acc b. acc * 256 + unat b) 0 bs"

primrec be_enc :: "nat \<Rightarrow> nat \<Rightarrow> bytes" where
  "be_enc 0 v = []"
| "be_enc (Suc k) v = be_enc k (v div 256) @ [word_of_nat v]"

definition u16_from_be_bytes :: "u8 \<Rightarrow> u8 \<Rightarrow> u16" where
  "u16_from_be_bytes a b = word_of_nat (be_val [a, b])"

definition u16_to_be_bytes :: "u16 \<Rightarrow> bytes" where
  "u16_to_be_bytes w = be_enc 2 (unat w)"

definition u32_from_be_bytes :: "bytes \<Rightarrow> u32" where
  "u32_from_be_bytes bs = word_of_nat (be_val bs)"

definition u32_to_be_bytes :: "u32 \<Rightarrow> bytes" where
  "u32_to_be_bytes w = be_enc 4 (unat w)"

definition u64_from_be_bytes :: "bytes \<Rightarrow> u64" where
  "u64_from_be_bytes bs = word_of_nat (be_val bs)"

definition u64_to_be_bytes :: "u64 \<Rightarrow> bytes" where
  "u64_to_be_bytes w = be_enc 8 (unat w)"

text \<open>
  Native order is little-endian on the build targets of the repository (the eBPF programs
  are built for \<open>bpfel-unknown-none\<close>, the agent for x86-64).
\<close>

definition u16_from_le_bytes :: "bytes \<Rightarrow> u16" where
  "u16_from_le_bytes bs = word_of_nat (be_val (rev bs))"

definition u32_from_le_bytes :: "bytes \<Rightarrow> u32" where
  "u32_from_le_bytes bs = word_of_nat (be_val (rev bs))"

definition u32_to_le_bytes :: "u32 \<Rightarrow> bytes" where
  "u32_to_le_bytes w = rev (be_enc 4 (unat w))"

text \<open>\<open>u16::swap_bytes\<close>, which is \<open>to_be\<close> and \<open>from_be\<close> on a little-endian target.\<close>

definition u16_swap_bytes :: "u16 \<Rightarrow> u16" where
  "u16_swap_bytes w = u16_from_le_bytes (u16_to_be_bytes w)"

text \<open>\<open>u64::abs_diff\<close> and \<open>u64::saturating_sub\<close>.\<close>

definition abs_diff :: "u64 \<Rightarrow> u64 \<Rightarrow> u64" where
  "abs_diff a b = (if a < b then b - a else a - b)"

definition saturating_sub :: "u64 \<Rightarrow> u64 \<Rightarrow> u64" where
  "saturating_sub a b = (if b \<le> a then a - b else 0)"

section \<open>Formatting\<close>

fun dec :: "nat \<Rightarrow> string" where
  "dec n = (if n < 10 then [char_of (48 + n)] else dec (n div 10) @ [char_of (48 + n mod 10)])"

declare dec.simps [simp del]

definition hex_digit :: "nat \<Rightarrow> char" where
  "hex_digit d = (if d < 10 then char_of (48 + d) else char_of (87 + d))"

text \<open>\<open>hex_pad k v\<close> is \<open>format!("{:0kx}", v)\<close> for a value of at most \<open>k\<close> digits.\<close>

primrec hex_pad :: "nat \<Rightarrow> nat \<Rightarrow> string" where
  "hex_pad 0 v = []"
| "hex_pad (Suc k) v = hex_pad k (v div 16) @ [hex_digit (v mod 16)]"

text \<open>\<open>format!("{:x}", v)\<close>, without padding.\<close>

fun hexn :: "nat \<Rightarrow> string" where
  "hexn n = (if n < 16 then [hex_digit n] else hexn (n div 16) @ [hex_digit (n mod 16)])"

declare hexn.simps [simp del]

definition hex02 :: "u8 \<Rightarrow> string" where
  "hex02 b = hex_pad 2 (unat b)"

definition hex08 :: "u32 \<Rightarrow> string" where
  "hex08 w = hex_pad 8 (unat w)"

section \<open>String operations\<close>

definition is_ws :: "char \<Rightarrow> bool" where
  "is_ws c \<longleftrightarrow> (let n = of_char c :: nat in n = 32 \<or> 9 \<le> n \<and> n \<le> 13)"

definition trim_start :: "string \<Rightarrow> string" where
  "trim_start s = dropWhile is_ws s"

definition trim :: "string \<Rightarrow> string" where
  "trim s = rev (dropWhile is_ws (rev (trim_start s)))"

fun split_on :: "char \<Rightarrow> string \<Rightarrow> string list" where
  "split_on c [] = [[]]"
| "split_on c (x # xs) =
     (if x = c then [] # split_on c xs
      else case split_on c xs of [] \<Rightarrow> [[x]] | p # ps \<Rightarrow> (x # p) # ps)"

definition split_whitespace :: "string \<Rightarrow> string list" where
  "split_whitespace s =
     filter (\<lambda>p. p \<noteq> []) (split_on CHR '' '' (map (\<lambda>c. if is_ws c then CHR '' '' else c) s))"

text \<open>\<open>str::lines\<close>: the pieces between newlines, a final empty piece dropped, one
  trailing carriage return removed from each.\<close>

definition strip_cr :: "string \<Rightarrow> string" where
  "strip_cr l = (if l \<noteq> [] \<and> last l = CHR 0x0D then butlast l else l)"

definition str_lines :: "string \<Rightarrow> string list" where
  "str_lines s =
     (let ps = split_on CHR 0x0A s
      in map strip_cr (if last ps = [] then butlast ps else ps))"

function trim_start_matches :: "string \<Rightarrow> string \<Rightarrow> string" where
  "trim_start_matches p s =
     (if p \<noteq> [] \<and> prefix p s then trim_start_matches p (drop (length p) s) else s)"
  by pat_completeness auto
termination
  by (relation "measure (length \<circ> snd)") (auto simp: prefix_def)

declare trim_start_matches.simps [simp del]

lemma trim_start_matches_other: "\<not> prefix p s \<Longrightarrow> trim_start_matches p s = s"
  by (subst trim_start_matches.simps) simp

lemma trim_start_matches_prefix: "p \<noteq> [] \<Longrightarrow> trim_start_matches p (p @ s) = trim_start_matches p s"
  by (subst trim_start_matches.simps) simp

definition trim_end_matches :: "string \<Rightarrow> string \<Rightarrow> string" where
  "trim_end_matches p s = rev (trim_start_matches (rev p) (rev s))"

definition to_lowercase :: "string \<Rightarrow> string" where
  "to_lowercase s =
     map (\<lambda>c. let n = of_char c :: nat in if 65 \<le> n \<and> n \<le> 90 then char_of (n + 32) else c) s"

definition str_contains :: "string \<Rightarrow> string \<Rightarrow> bool" where
  "str_contains s p \<longleftrightarrow> list_ex (prefix p) (suffixes s)"

text \<open>
  \<open>&s[..n]\<close> panics unless \<open>n\<close> is a character boundary: the end of the string or a byte
  that does not continue a UTF-8 sequence (\<open>10xxxxxx\<close>).
\<close>

definition is_char_boundary :: "string \<Rightarrow> nat \<Rightarrow> bool" where
  "is_char_boundary s n \<longleftrightarrow>
     n = length s \<or> n < length s \<and> (let b = of_char (s ! n) :: nat in b < 128 \<or> 192 \<le> b)"

definition slice_to :: "string \<Rightarrow> nat \<Rightarrow> string res" where
  "slice_to s n =
     (if is_char_boundary s n then Inr (take n s) else Inl (Panic ''byte index is not a char boundary''))"

text \<open>The bytes of a text, and which byte sequences are valid UTF-8 (the table of
  well-formed sequences of the Unicode standard, as \<open>core::str\<close> checks it).\<close>

definition as_bytes :: "string \<Rightarrow> bytes" where
  "as_bytes s = map (\<lambda>c. word_of_nat (of_char c)) s"

definition utf8_cont :: "nat \<Rightarrow> bool" where
  "utf8_cont b \<longleftrightarrow> 128 \<le> b \<and> b < 192"

fun valid_utf8 :: "nat list \<Rightarrow> bool" where
  "valid_utf8 [] \<longleftrightarrow> True"
| "valid_utf8 (b # r) \<longleftrightarrow>
     (if b < 128 then valid_utf8 r
      else if 194 \<le> b \<and> b < 224 then
        (case r of c # r' \<Rightarrow> utf8_cont c \<and> valid_utf8 r' | _ \<Rightarrow> False)
      else if 224 \<le> b \<and> b < 240 then
        (case r of c # d # r' \<Rightarrow>
           utf8_cont c \<and> (b = 224 \<longrightarrow> 160 \<le> c) \<and> (b = 237 \<longrightarrow> c < 160) \<and> utf8_cont d \<and> valid_utf8 r'
         | _ \<Rightarrow> False)
      else if 240 \<le> b \<and> b < 245 then
        (case r of c # d # e # r' \<Rightarrow>
           utf8_cont c \<and> (b = 240 \<longrightarrow> 144 \<le> c) \<and> (b = 244 \<longrightarrow> c < 144) \<and> utf8_cont d \<and> utf8_cont e \<and>
           valid_utf8 r'
         | _ \<Rightarrow> False)
      else False)"

section \<open>Parsing unsigned integers\<close>

definition digit_val :: "nat \<Rightarrow> char \<Rightarrow> nat option" where
  "digit_val radix c =
     (let n = of_char c :: nat;
          d = (if 48 \<le> n \<and> n \<le> 57 then Some (n - 48)
               else if 97 \<le> n \<and> n \<le> 122 then Some (n - 87)
               else if 65 \<le> n \<and> n \<le> 90 then Some (n - 55) else None)
      in case d of Some v \<Rightarrow> if v < radix then Some v else None | None \<Rightarrow> None)"

fun read_digits :: "nat \<Rightarrow> string \<Rightarrow> nat list \<times> string" where
  "read_digits radix [] = ([], [])"
| "read_digits radix (c # cs) =
     (case digit_val radix c of
        None \<Rightarrow> ([], c # cs)
      | Some d \<Rightarrow> (let (ds, rest) = read_digits radix cs in (d # ds, rest)))"

definition digits_val :: "nat \<Rightarrow> nat list \<Rightarrow> nat" where
  "digits_val radix ds = foldl (\<lambda>acc d. acc * radix + d) 0 ds"

text \<open>\<open>from_str\<close> of \<open>u16\<close>, \<open>u32\<close> and \<open>usize\<close>: an optional plus sign, at least one decimal
  digit, nothing else, and a value that fits (\<open>limit\<close> is the largest one).\<close>

definition parse_uint :: "nat \<Rightarrow> string \<Rightarrow> nat option" where
  "parse_uint limit s =
     (let body = (if s \<noteq> [] \<and> hd s = CHR ''+'' then tl s else s);
          (ds, rest) = read_digits 10 body
      in if ds = [] \<or> rest \<noteq> [] \<or> digits_val 10 ds > limit then None else Some (digits_val 10 ds))"

definition parse_u16 :: "string \<Rightarrow> u16 option" where
  "parse_u16 s = map_option word_of_nat (parse_uint 65535 s)"

definition parse_u32 :: "string \<Rightarrow> u32 option" where
  "parse_u32 s = map_option word_of_nat (parse_uint 4294967295 s)"

definition parse_usize :: "string \<Rightarrow> nat option" where
  "parse_usize s = parse_uint 18446744073709551615 s"

section \<open>Internet addresses\<close>

datatype ipv4 = Ipv4 u8 u8 u8 u8

primrec octets :: "ipv4 \<Rightarrow> bytes" where
  "octets (Ipv4 a b c d) = [a, b, c, d]"

definition u32_of_ipv4 :: "ipv4 \<Rightarrow> u32" where
  "u32_of_ipv4 ip = u32_from_be_bytes (octets ip)"

definition ipv4_of_u32 :: "u32 \<Rightarrow> ipv4" where
  "ipv4_of_u32 w =
     (case u32_to_be_bytes w of [a, b, c, d] \<Rightarrow> Ipv4 a b c d | _ \<Rightarrow> Ipv4 0 0 0 0)"

definition show_ipv4 :: "ipv4 \<Rightarrow> string" where
  "show_ipv4 ip =
     (case ip of Ipv4 a b c d \<Rightarrow>
        dec (unat a) @ ''.'' @ dec (unat b) @ ''.'' @ dec (unat c) @ ''.'' @ dec (unat d))"

text \<open>A reader of \<open>core::net::parser\<close>: the value read and the rest of the input.\<close>

type_synonym 'a reader = "string \<Rightarrow> ('a \<times> string) option"

definition read_char :: "char \<Rightarrow> unit reader" where
  "read_char c s = (case s of x # xs \<Rightarrow> if x = c then Some ((), xs) else None | [] \<Rightarrow> None)"

definition read_number :: "nat \<Rightarrow> nat option \<Rightarrow> bool \<Rightarrow> nat \<Rightarrow> nat reader" where
  "read_number radix max_digits allow_zero_prefix limit s =
     (let (ds, rest) = read_digits radix s
      in if (case max_digits of None \<Rightarrow> False | Some m \<Rightarrow> m < length ds) \<or> ds = []
            \<or> (\<not> allow_zero_prefix \<and> hd s = CHR ''0'' \<and> 1 < length ds)
            \<or> limit < digits_val radix ds
         then None else Some (digits_val radix ds, rest))"

definition read_separator :: "char \<Rightarrow> nat \<Rightarrow> 'a reader \<Rightarrow> 'a reader" where
  "read_separator c i p s =
     (if i > 0 then (case read_char c s of None \<Rightarrow> None | Some (_, s') \<Rightarrow> p s') else p s)"

fun read_octets :: "nat \<Rightarrow> nat \<Rightarrow> bytes reader" where
  "read_octets i 0 s = Some ([], s)"
| "read_octets i (Suc k) s =
     (case read_separator CHR ''.'' i (read_number 10 (Some 3) False 255) s of
        None \<Rightarrow> None
      | Some (v, s') \<Rightarrow>
          (case read_octets (Suc i) k s' of
             None \<Rightarrow> None
           | Some (vs, s'') \<Rightarrow> Some (word_of_nat v # vs, s'')))"

definition read_ipv4_addr :: "ipv4 reader" where
  "read_ipv4_addr s =
     (case read_octets 0 4 s of Some ([a, b, c, d], s') \<Rightarrow> Some (Ipv4 a b c d, s') | _ \<Rightarrow> None)"

text \<open>\<open>Ipv4Addr::from_str\<close>: at most fifteen bytes, read to the end.\<close>

definition parse_ipv4 :: "string \<Rightarrow> ipv4 option" where
  "parse_ipv4 s =
     (if 15 < length s then None
      else case read_ipv4_addr s of Some (ip, []) \<Rightarrow> Some ip | _ \<Rightarrow> None)"

text \<open>
  \<open>SocketAddr\<close>: an IPv4 address with a port, or an IPv6 address in brackets with an
  optional scope and a port. Host names are not socket addresses.
\<close>

datatype socket_addr = SocketV4 ipv4 u16 | SocketV6 "u16 list" u32 u16

text \<open>\<open>Display\<close> of addresses: an IPv6 address abbreviates its first longest run of at least
  two zero groups, and shows an IPv4-mapped one with its octets.\<close>

fun zero_span :: "nat \<Rightarrow> nat \<times> nat \<Rightarrow> nat \<times> nat \<Rightarrow> u16 list \<Rightarrow> nat \<times> nat" where
  "zero_span i cur best [] = best"
| "zero_span i cur best (g # gs) =
     (if g = 0
      then let cur' = (if snd cur = 0 then i else fst cur, snd cur + 1)
           in zero_span (i + 1) cur' (if snd best < snd cur' then cur' else best) gs
      else zero_span (i + 1) (0, 0) best gs)"

fun show_groups :: "u16 list \<Rightarrow> string" where
  "show_groups [] = ''''"
| "show_groups [g] = hexn (unat g)"
| "show_groups (g # gs) = hexn (unat g) @ '':'' @ show_groups gs"

definition show_ipv6 :: "u16 list \<Rightarrow> string" where
  "show_ipv6 gs =
     (if take 6 gs = [0, 0, 0, 0, 0, 0xFFFF]
      then ''::ffff:'' @ show_ipv4 (ipv4_of_u32 (u32_from_be_bytes (concat (map u16_to_be_bytes (drop 6 gs)))))
      else let (start, len) = zero_span 0 (0, 0) (0, 0) gs
           in if 1 < len then show_groups (take start gs) @ ''::'' @ show_groups (drop (start + len) gs)
              else show_groups gs)"

primrec show_socket_addr :: "socket_addr \<Rightarrow> string" where
  "show_socket_addr (SocketV4 ip port) = show_ipv4 ip @ '':'' @ dec (unat port)"
| "show_socket_addr (SocketV6 gs scope port) =
     ''['' @ show_ipv6 gs @ (if scope = 0 then '''' else ''%'' @ dec (unat scope)) @ '']:'' @ dec (unat port)"

definition read_port :: "u16 reader" where
  "read_port s =
     (case read_char CHR '':'' s of
        None \<Rightarrow> None
      | Some (_, s') \<Rightarrow> map_option (\<lambda>(v, r). (word_of_nat v, r)) (read_number 10 None True 65535 s'))"

text \<open>\<open>read_groups k i\<close> reads up to \<open>k\<close> more groups, the first of them number \<open>i\<close>; the
  flag tells that the last two came from an embedded IPv4 address.\<close>

fun read_groups :: "nat \<Rightarrow> nat \<Rightarrow> string \<Rightarrow> u16 list \<times> bool \<times> string" where
  "read_groups 0 i s = ([], False, s)"
| "read_groups (Suc k) i s =
     (case (if 0 < k then read_separator CHR '':'' i read_ipv4_addr s else None) of
        Some (Ipv4 a b c d, s') \<Rightarrow> ([u16_from_be_bytes a b, u16_from_be_bytes c d], True, s')
      | None \<Rightarrow>
          (case read_separator CHR '':'' i (read_number 16 (Some 4) True 65535) s of
             None \<Rightarrow> ([], False, s)
           | Some (v, s') \<Rightarrow>
               (let (gs, f, s'') = read_groups k (Suc i) s' in (word_of_nat v # gs, f, s''))))"

definition read_ipv6_addr :: "u16 list reader" where
  "read_ipv6_addr s =
     (let (hd8, v4, s1) = read_groups 8 0 s
      in if length hd8 = 8 then Some (hd8, s1)
         else if v4 then None
         else case Option.bind (read_char CHR '':'' s1) (\<lambda>(_, s'). read_char CHR '':'' s') of
                None \<Rightarrow> None
              | Some (_, s2) \<Rightarrow>
                  (let (tl7, _, s3) = read_groups (8 - (length hd8 + 1)) 0 s2
                   in Some (hd8 @ replicate (8 - length hd8 - length tl7) 0 @ tl7, s3)))"

definition read_scope_id :: "u32 reader" where
  "read_scope_id s =
     (case read_char CHR ''%'' s of
        None \<Rightarrow> None
      | Some (_, s') \<Rightarrow>
          map_option (\<lambda>(v, r). (word_of_nat v, r)) (read_number 10 None True 4294967295 s'))"

definition read_socket_addr_v4 :: "socket_addr reader" where
  "read_socket_addr_v4 s =
     (case read_ipv4_addr s of
        None \<Rightarrow> None
      | Some (ip, s') \<Rightarrow> map_option (\<lambda>(p, r). (SocketV4 ip p, r)) (read_port s'))"

definition read_socket_addr_v6 :: "socket_addr reader" where
  "read_socket_addr_v6 s =
     (case Option.bind (read_char CHR ''['' s) (\<lambda>(_, s'). read_ipv6_addr s') of
        None \<Rightarrow> None
      | Some (ip, s1) \<Rightarrow>
          (let (scope, s2) = (case read_scope_id s1 of None \<Rightarrow> (0, s1) | Some (v, r) \<Rightarrow> (v, r))
           in map_option (\<lambda>(p, r). (SocketV6 ip scope p, r))
                (Option.bind (read_char CHR '']'' s2) (\<lambda>(_, s'). read_port s'))))"

definition parse_socket_addr :: "string \<Rightarrow> socket_addr option" where
  "parse_socket_addr s =
     (case (case read_socket_addr_v4 s of Some r \<Rightarrow> Some r | None \<Rightarrow> read_socket_addr_v6 s) of
        Some (a, []) \<Rightarrow> Some a
      | _ \<Rightarrow> None)"

section \<open>Round trips\<close>

lemma length_be_enc [simp]: "length (be_enc k v) = k"
  by (induction k arbitrary: v) simp_all

lemma be_val_Nil [simp]: "be_val [] = 0"
  by (simp add: be_val_def)

lemma be_val_snoc [simp]: "be_val (bs @ [b]) = be_val bs * 256 + unat b"
  by (simp add: be_val_def)

lemma be_val_be_enc: "be_val (be_enc k v) = v mod 256 ^ k"
proof (induction k arbitrary: v)
  case (Suc k)
  have "v mod (256 ^ k * 256) = v div 256 mod 256 ^ k * 256 + v mod 256"
    by (metis mod_mult2_eq add.commute mult.commute)
  then show ?case by (simp add: Suc unat_of_nat mult.commute)
qed simp

lemma word_of_nat_last_byte: "word_of_nat (v * 256 + unat b) = (b :: u8)"
proof -
  have "(256 :: u8) = 0" by simp
  then show ?thesis by (simp only: of_nat_add of_nat_mult of_nat_numeral) simp
qed

lemma be_enc_be_val: "length bs = k \<Longrightarrow> be_enc k (be_val bs) = bs"
proof (induction k arbitrary: bs)
  case (Suc k)
  then obtain cs c where bs: "bs = cs @ [c]" and "length cs = k"
    by (metis length_Suc_conv_rev)
  then show ?case using Suc.IH [of cs]
    by (simp add: word_of_nat_last_byte del: of_nat_add of_nat_mult)
qed simp

lemma be_val_less: "be_val bs < 256 ^ length bs"
proof (induction bs rule: rev_induct)
  case (snoc b bs)
  show ?case using snoc unat_u8_less [of b] by (simp del: unat_u8_less)
qed simp

lemma be_val_two [simp]: "be_val [a, b] = unat a * 256 + unat b"
  by (simp add: be_val_def)

lemma be_enc_two: "be_enc 2 v = [word_of_nat (v div 256), word_of_nat v]"
  by (simp add: numeral_2_eq_2)

lemma u64_be_roundtrip [simp]: "u64_from_be_bytes (u64_to_be_bytes w) = w"
  using unsigned_less [of w, where 'a = nat]
  by (simp add: u64_from_be_bytes_def u64_to_be_bytes_def be_val_be_enc)

lemma length_u64_to_be_bytes [simp]: "length (u64_to_be_bytes w) = 8"
  by (simp add: u64_to_be_bytes_def)

lemma u32_be_roundtrip [simp]: "u32_from_be_bytes (u32_to_be_bytes w) = w"
  using unsigned_less [of w, where 'a = nat]
  by (simp add: u32_from_be_bytes_def u32_to_be_bytes_def be_val_be_enc)

lemma u32_from_be_bytes_inject:
  assumes "length as = 4" and "length bs = 4"
  shows "u32_from_be_bytes as = u32_from_be_bytes bs \<longleftrightarrow> as = bs"
proof
  assume "u32_from_be_bytes as = u32_from_be_bytes bs"
  then have "be_val as = be_val bs"
    using assms be_val_less [of as] be_val_less [of bs]
    by (simp add: u32_from_be_bytes_def word_unat_eq_iff unat_of_nat)
  then show "as = bs" using assms be_enc_be_val by metis
qed simp

lemma unat_u32_from_be_bytes: "length bs = 4 \<Longrightarrow> unat (u32_from_be_bytes bs) = be_val bs"
  using be_val_less [of bs] by (simp add: u32_from_be_bytes_def unat_of_nat)

lemma u32_of_ipv4_roundtrip [simp]: "ipv4_of_u32 (u32_of_ipv4 ip) = ip"
  by (cases ip) (simp add: ipv4_of_u32_def u32_of_ipv4_def u32_to_be_bytes_def
      unat_u32_from_be_bytes be_enc_be_val del: be_enc.simps)

lemma u32_of_ipv4_inject [simp]: "u32_of_ipv4 a = u32_of_ipv4 b \<longleftrightarrow> a = b"
  by (metis u32_of_ipv4_roundtrip)

lemma u16_from_be_bytes_inject:
  "u16_from_be_bytes a b = u16_from_be_bytes c d \<longleftrightarrow> a = c \<and> b = d"
proof -
  have bound: "be_val [x, y] < 65536" for x y :: u8
    using be_val_less [of "[x, y]"] by simp
  have "u16_from_be_bytes a b = u16_from_be_bytes c d \<longleftrightarrow> be_val [a, b] = be_val [c, d]"
    using bound [of a b] bound [of c d]
    by (simp add: u16_from_be_bytes_def word_of_nat_eq_iff take_bit_nat_eq_self
        del: of_nat_add of_nat_mult)
  also have "\<dots> \<longleftrightarrow> be_enc 2 (be_val [a, b]) = be_enc 2 (be_val [c, d])"
    by (metis be_enc_be_val length_Cons list.size(3) numeral_2_eq_2 One_nat_def)
  also have "\<dots> \<longleftrightarrow> a = c \<and> b = d"
    by (simp add: be_enc_be_val del: be_enc.simps be_val_two)
  finally show ?thesis .
qed

section \<open>Printing and parsing agree\<close>

lemma digit_val_char: "d < 10 \<Longrightarrow> digit_val 10 (char_of (48 + d)) = Some d"
  by (simp add: digit_val_def Let_def)

lemma read_digits_append:
  assumes "list_all (\<lambda>d. d < 10) ds"
  shows "read_digits 10 (map (\<lambda>d. char_of (48 + d)) ds @ r) =
    (ds @ fst (read_digits 10 r), snd (read_digits 10 r))"
  using assms by (induction ds) (simp_all add: digit_val_char)

fun decimals :: "nat \<Rightarrow> nat list" where
  "decimals n = (if 10 \<le> n then decimals (n div 10) @ [n mod 10] else [n])"

declare decimals.simps [simp del]

lemma dec_digits: "dec n = map (\<lambda>d. char_of (48 + d)) (decimals n)"
proof (induction n rule: decimals.induct)
  case (1 n)
  then show ?case by (cases "n < 10") (simp_all add: dec.simps [of n] decimals.simps [of n])
qed

lemma digits_bounded: "list_all (\<lambda>d. d < 10) (decimals n)"
proof (induction n rule: decimals.induct)
  case (1 n)
  then show ?case by (cases "n < 10") (simp_all add: decimals.simps [of n])
qed

lemma digits_val_snoc [simp]: "digits_val r (ds @ [d]) = digits_val r ds * r + d"
  by (simp add: digits_val_def)

lemma digits_val_digits: "digits_val 10 (decimals n) = n"
proof (induction n rule: decimals.induct)
  case (1 n)
  then show ?case by (cases "n < 10") (simp_all add: decimals.simps [of n], simp add: digits_val_def)
qed

lemma digits_nonempty [simp]: "decimals n \<noteq> []"
  by (subst decimals.simps) simp

lemma hd_digits: "10 \<le> n \<Longrightarrow> hd (decimals n) \<noteq> 0"
proof (induction n rule: decimals.induct)
  case (1 n)
  show ?case
  proof (cases "n div 10 < 10")
    case True
    then show ?thesis using 1(2) by (simp add: decimals.simps [of n] decimals.simps [of "n div 10"])
  next
    case False
    then show ?thesis using 1 by (simp add: decimals.simps [of n])
  qed
qed

lemma length_digits_u8: "n < 256 \<Longrightarrow> length (decimals n) \<le> 3"
  by (simp add: decimals.simps [of n] decimals.simps [of "n div 10"] decimals.simps [of "n div 10 div 10"])

lemma length_dec_u8: "length (dec (unat (b :: u8))) \<le> 3"
  by (simp add: dec_digits length_digits_u8)

text \<open>Reading back a printed octet, whatever follows it, if that is not a digit.\<close>

lemma read_number_octet:
  assumes "fst (read_digits 10 r) = []" and "n < 256"
  shows "read_number 10 (Some 3) False 255 (dec n @ r) = Some (n, r)"
proof -
  have rest: "snd (read_digits 10 r) = r"
    using assms(1) by (cases r) (simp_all split: option.splits prod.splits)
  have zero: "\<not> (hd (dec n @ r) = CHR ''0'' \<and> 1 < length (decimals n))"
  proof (cases "n < 10")
    case True
    then show ?thesis by (simp add: decimals.simps [of n])
  next
    case False
    have "hd (decimals n) < 10" using digits_bounded [of n] by (cases "decimals n") simp_all
    moreover have "hd (decimals n) \<noteq> 0" using False by (simp add: hd_digits)
    moreover have "hd (dec n @ r) = char_of (48 + hd (decimals n))"
      by (simp add: dec_digits hd_append hd_map)
    ultimately have "of_char (hd (dec n @ r)) \<noteq> (48 :: nat)" by simp
    then show ?thesis by auto
  qed
  show ?thesis
    using assms zero rest length_digits_u8 [of n]
    by (simp add: read_number_def dec_digits read_digits_append digits_bounded digits_val_digits)
qed

lemma digit_val_dot [simp]: "digit_val 10 CHR ''.'' = None"
  by (simp add: digit_val_def Let_def)

lemma read_octets_four: "read_octets 0 4 = read_octets 0 (Suc (Suc (Suc (Suc 0))))"
  by (simp add: numeral_eq_Suc)

lemma read_show_ipv4:
  assumes "fst (read_digits 10 r) = []"
  shows "read_ipv4_addr (show_ipv4 ip @ r) = Some (ip, r)"
proof (cases ip)
  case (Ipv4 a b c d)
  show ?thesis
    by (simp add: Ipv4 show_ipv4_def read_ipv4_addr_def read_octets_four read_separator_def
        read_char_def read_number_octet [OF assms] read_number_octet)
qed

lemma parse_show_ipv4 [simp]: "parse_ipv4 (show_ipv4 ip) = Some ip"
proof (cases ip)
  case (Ipv4 a b c d)
  note short = length_dec_u8 [of a] length_dec_u8 [of b] length_dec_u8 [of c] length_dec_u8 [of d]
  have "length (show_ipv4 ip) \<le> 15"
    using short by (simp add: Ipv4 show_ipv4_def)
  then show ?thesis using read_show_ipv4 [of "[]" ip] by (simp add: parse_ipv4_def)
qed

lemma read_number_dec: "n \<le> limit \<Longrightarrow> read_number 10 None True limit (dec n) = Some (n, [])"
  using read_digits_append [OF digits_bounded, of n "[]"]
  by (simp add: read_number_def dec_digits digits_val_digits)

text \<open>A printed endpoint parses back; a text that starts like a host name does not parse.\<close>

lemma parse_show_socket_addr:
  "parse_socket_addr (show_ipv4 ip @ '':'' @ dec (unat p)) = Some (SocketV4 ip p)"
proof -
  have "unat p \<le> 65535" using unsigned_less [of p, where 'a = nat] by simp
  then have "read_port ('':'' @ dec (unat p)) = Some (p, [])"
    by (simp add: read_port_def read_char_def read_number_dec)
  moreover have "read_ipv4_addr (show_ipv4 ip @ '':'' @ dec (unat p)) = Some (ip, '':'' @ dec (unat p))"
    by (rule read_show_ipv4) (simp add: digit_val_def)
  ultimately show ?thesis by (simp add: parse_socket_addr_def read_socket_addr_v4_def)
qed

lemma parse_socket_addr_host:
  assumes "digit_val 10 c = None" and "c \<noteq> CHR ''[''"
  shows "parse_socket_addr (c # cs) = None"
proof -
  have "read_octets 0 4 (c # cs) = None"
    using assms(1) by (simp add: read_octets_four read_separator_def read_number_def)
  then have "read_socket_addr_v4 (c # cs) = None"
    by (simp add: read_socket_addr_v4_def read_ipv4_addr_def)
  moreover have "read_socket_addr_v6 (c # cs) = None"
    using assms(2) by (simp add: read_socket_addr_v6_def read_char_def)
  ultimately show ?thesis by (simp add: parse_socket_addr_def)
qed

lemma hex_digit_inject: "a < 16 \<Longrightarrow> b < 16 \<Longrightarrow> hex_digit a = hex_digit b \<longleftrightarrow> a = b"
proof -
  assume "a < 16" "b < 16"
  moreover have "inj_on hex_digit {..<16}"
    by (rule inj_on_inverseI [where g = "\<lambda>c. the (digit_val 16 c)"])
      (auto simp: hex_digit_def digit_val_def Let_def)
  ultimately show ?thesis by (auto dest: inj_onD)
qed

lemma length_hex_pad [simp]: "length (hex_pad k v) = k"
  by (induction k arbitrary: v) simp_all

lemma digit_pair_eq_iff:
  "r < 16 \<Longrightarrow> s < 16 \<Longrightarrow> a * 16 + r = b * 16 + s \<longleftrightarrow> a = b \<and> r = (s :: nat)"
  by presburger

lemma hex_pad_inject: "hex_pad k v = hex_pad k w \<longleftrightarrow> v mod 16 ^ k = w mod 16 ^ k"
proof (induction k arbitrary: v w)
  case (Suc k)
  have split: "u mod 16 ^ Suc k = u div 16 mod 16 ^ k * 16 + u mod 16" for u :: nat
    by (metis add.commute mod_mult2_eq mult.commute power_Suc)
  have "hex_pad (Suc k) v = hex_pad (Suc k) w \<longleftrightarrow>
      v div 16 mod 16 ^ k = w div 16 mod 16 ^ k \<and> v mod 16 = w mod 16"
    by (simp add: Suc hex_digit_inject)
  also have "\<dots> \<longleftrightarrow> v mod 16 ^ Suc k = w mod 16 ^ Suc k"
    unfolding split by (rule digit_pair_eq_iff [symmetric]) simp_all
  finally show ?case .
qed simp

lemma hex02_inject [simp]: "hex02 a = hex02 b \<longleftrightarrow> a = b"
  by (simp add: hex02_def hex_pad_inject word_unat_eq_iff del: hex_pad.simps)

lemma length_hex02 [simp]: "length (hex02 a) = 2"
  by (simp add: hex02_def)

section \<open>The length of address texts\<close>

lemma read_digits_length: "length (fst (read_digits r s)) + length (snd (read_digits r s)) = length s"
  by (induction r s rule: read_digits.induct) (auto split: option.splits prod.splits)

lemma read_number_shorter: "read_number r m z limit s = Some (v, s') \<Longrightarrow> length s' < length s"
  using read_digits_length [of r s]
  by (cases "fst (read_digits r s)") (auto simp: read_number_def Let_def case_prod_beta split: if_splits)

lemma read_octets_length:
  "read_octets i k s = Some (vs, s') \<Longrightarrow> length s' + (if i = 0 then 2 * k - 1 else 2 * k) \<le> length s"
proof (induction k arbitrary: i s vs)
  case (Suc k)
  then obtain v t ws where
      num: "read_separator CHR ''.'' i (read_number 10 (Some 3) False 255) s = Some (v, t)"
      and rest: "read_octets (Suc i) k t = Some (ws, s')"
    by (auto split: option.splits prod.splits)
  have "length t + (if i = 0 then 1 else 2) \<le> length s"
    using num read_number_shorter by (cases s) (fastforce simp: read_separator_def read_char_def split: if_splits)+
  with Suc.IH [OF rest] show ?case by (auto split: if_splits)
qed simp

text \<open>The shortest text of an address is \<open>0.0.0.0\<close>.\<close>

lemma parse_ipv4_length: "parse_ipv4 s = Some ip \<Longrightarrow> 7 \<le> length s"
  by (auto simp: parse_ipv4_def read_ipv4_addr_def split: if_splits option.splits list.splits dest!: read_octets_length)

section \<open>Lines of a text\<close>

lemma split_on_append: "c \<notin> set x \<Longrightarrow> split_on c (x @ c # y) = x # split_on c y"
  by (induction x) auto

lemma split_on_nonempty [simp]: "split_on c s \<noteq> []"
  by (induction s) (auto split: list.split)

lemma split_on_concat:
  "list_all (\<lambda>l. c \<notin> set l) ls \<Longrightarrow> split_on c (concat (map (\<lambda>l. l @ [c]) ls)) = ls @ [[]]"
  by (induction ls) (simp_all add: split_on_append)

lemma str_lines_concat:
  "list_all (\<lambda>l. CHR 0x0A \<notin> set l) ls \<Longrightarrow> str_lines (concat (map (\<lambda>l. l @ [CHR 0x0A]) ls)) = map strip_cr ls"
  by (simp add: str_lines_def Let_def split_on_concat)

section \<open>The order of addresses\<close>

text \<open>\<open>Ipv4Addr\<close> is ordered by its octets, most significant first.\<close>

instantiation ipv4 :: linorder
begin

definition less_eq_ipv4 :: "ipv4 \<Rightarrow> ipv4 \<Rightarrow> bool" where
  "less_eq_ipv4 a b \<longleftrightarrow> u32_of_ipv4 a \<le> u32_of_ipv4 b"

definition less_ipv4 :: "ipv4 \<Rightarrow> ipv4 \<Rightarrow> bool" where
  "less_ipv4 a b \<longleftrightarrow> u32_of_ipv4 a < u32_of_ipv4 b"

instance
proof
  fix a b c :: ipv4
  show "a < b \<longleftrightarrow> a \<le> b \<and> \<not> b \<le> a" unfolding less_eq_ipv4_def less_ipv4_def by (rule less_le_not_le)
  show "a \<le> a" by (simp add: less_eq_ipv4_def)
  show "a \<le> b \<Longrightarrow> b \<le> c \<Longrightarrow> a \<le> c" by (simp add: less_eq_ipv4_def)
  show "a \<le> b \<Longrightarrow> b \<le> a \<Longrightarrow> a = b" unfolding less_eq_ipv4_def by (metis order_antisym u32_of_ipv4_inject)
  show "a \<le> b \<or> b \<le> a" by (auto simp: less_eq_ipv4_def)
qed

end

lemma ipv4_le_last [simp]: "Ipv4 a b c d \<le> Ipv4 a b c e \<longleftrightarrow> d \<le> e"
proof -
  have "unat (u32_of_ipv4 (Ipv4 a b c x)) = be_val [a, b, c] * 256 + unat x" for x
    using unat_u32_from_be_bytes [of "[a, b, c, x]"] be_val_snoc [of "[a, b, c]" x] by (simp add: u32_of_ipv4_def)
  then show ?thesis by (simp add: less_eq_ipv4_def word_le_nat_alt)
qed

end
