(* ===== verification/Common.thy ===== *)
theory Common
  imports Rust_Std
begin

text \<open>
  \<open>common/src/lib.rs\<close>: the constants of the wire protocol and of the route-miss pipeline,
  and the structures the agent and the eBPF programs exchange through BPF maps. A fixed
  array is a list with its length stated by the well-formedness predicate; the numeric
  codes of the two enumerations are what the maps and the metrics carry.
\<close>

definition HMAC_SIZE :: nat where
  [struct_defs]: "HMAC_SIZE = 32"

definition HEADER_SIZE :: nat where
  [struct_defs]: "HEADER_SIZE = 16"

definition MIN_MESSAGE_SIZE :: nat where
  [struct_defs]: "MIN_MESSAGE_SIZE = HEADER_SIZE + HMAC_SIZE"

definition REPLAY_WINDOW_SECS :: u64 where
  [struct_defs]: "REPLAY_WINDOW_SECS = 300"

record peer_endpoint =
  pe_public_ip :: u32
  pe_port :: u16
  pe_nat_type :: u8
  pe_pad :: u8

record vip_backend =
  vb_ip :: u32
  vb_port :: u16
  vb_weight :: u8
  vb_pad :: u8

record vip_info =
  vi_backends :: "vip_backend list"
  vi_count :: u8
  vi_next_idx :: u8
  vi_pad :: "u8 list"

record tunnel_cfg =
  tunnel_id :: u32

record acl_rule =
  ar_src_ip :: u32
  ar_dst_port :: u16
  ar_protocol :: u8
  ar_action :: u8

datatype nat_type = Unknown | Easy | Symmetric

primrec nat_type_code :: "nat_type \<Rightarrow> u8" where
  "nat_type_code Unknown = 0"
| "nat_type_code Easy = 1"
| "nat_type_code Symmetric = 2"

definition nat_type_default :: nat_type where
  [struct_defs]: "nat_type_default = Unknown"

datatype acl_action = Allow | Deny

primrec acl_action_code :: "acl_action \<Rightarrow> u8" where
  "acl_action_code Allow = 1"
| "acl_action_code Deny = 2"

definition vip_backend_default :: vip_backend where
  [struct_defs]: "vip_backend_default = \<lparr>vb_ip = 0, vb_port = 0, vb_weight = 0, vb_pad = 0\<rparr>"

definition vip_info_default :: vip_info where
  [struct_defs]: "vip_info_default =
     \<lparr>vi_backends = replicate 16 vip_backend_default, vi_count = 0, vi_next_idx = 0, vi_pad = [0, 0]\<rparr>"

text \<open>The array has its sixteen slots, and the counters stay inside it.\<close>

definition wf_vip_info :: "vip_info \<Rightarrow> bool" where
  "wf_vip_info v \<longleftrightarrow>
     length (vi_backends v) = 16 \<and> unat (vi_count v) \<le> 16 \<and>
     (0 < vi_count v \<longrightarrow> vi_next_idx v < vi_count v)"

lemma wf_vip_info_default [simp]: "wf_vip_info vip_info_default"
  by (simp add: wf_vip_info_def vip_info_default_def)

lemma nat_type_code_inject [simp]: "nat_type_code a = nat_type_code b \<longleftrightarrow> a = b"
  by (cases a; cases b) simp_all

end
