(* ===== verification/Config.thy ===== *)
theory Config
  imports Common
begin

text \<open>
  \<open>agent/src/lib.rs\<close> (configuration, shared state, the tasks the agent spawns) and
  \<open>agent/src/reload.rs\<close> (hot reload of the configuration file). Reading the file and
  parsing it with \<open>serde_json\<close> are parameters, as are the events of the file watcher.
\<close>

section \<open>Configuration and state\<close>

record seed_addr =
  sa_addr :: string

record vip_backend_cfg =
  vbc_vip :: string
  vbc_backends :: "string list"

record port_rule =
  pr_source_ip :: string
  pr_port :: u16
  pr_protocol :: string
  pr_allow :: bool

record agent_config =
  node_overlay_ip :: string
  node_subnet :: string
  seeds :: "seed_addr list"
  tunnel_vni :: u32
  tunnel_device :: string
  cfg_psk :: string
  stun_servers :: "string list"
  listen_port :: u16
  p2p_port :: u16
  stun_refresh_interval :: u64
  lazy_discovery :: bool
  route_miss_max_pending :: nat
  ipsec_enabled :: bool
  ipsec_spi :: u32
  ipsec_key :: string
  cni_bin_path :: string
  mtu :: u16
  vip_enabled :: bool
  vip_watch_list :: "string list"
  vip_backends :: "vip_backend_cfg list"
  firewall_enabled :: bool
  default_policy :: string
  allowed_sources :: "string list"
  allowed_ports :: "port_rule list"
  metrics_port :: u16

definition default_config :: agent_config where
  "default_config =
     \<lparr>node_overlay_ip = ''10.244.0.1'', node_subnet = ''10.244.1.0/24'', seeds = [],
      tunnel_vni = 100, tunnel_device = ''gnv0'', cfg_psk = '''',
      stun_servers = [''stun.l.google.com:19302''], listen_port = 9527, p2p_port = 0,
      stun_refresh_interval = 120, lazy_discovery = True, route_miss_max_pending = 256,
      ipsec_enabled = False, ipsec_spi = 4096, ipsec_key = '''',
      cni_bin_path = ''/opt/cni/bin/nomad-p2p-cni'', mtu = 1420, vip_enabled = False,
      vip_watch_list = [], vip_backends = [], firewall_enabled = False,
      default_policy = ''allow'', allowed_sources = [], allowed_ports = [], metrics_port = 9090\<rparr>"

text \<open>\<open>start_time\<close> is the reading of the monotonic clock, in seconds.\<close>

record agent_state =
  cfg :: agent_config
  start_time :: nat
  st_nat_type :: nat_type
  st_public_ip :: ipv4
  st_public_port :: u16

definition new_agent_state :: "nat \<Rightarrow> agent_config \<Rightarrow> agent_state" where
  "new_agent_state now c =
     \<lparr>cfg = c, start_time = now, st_nat_type = Unknown, st_public_ip = Ipv4 0 0 0 0,
      st_public_port = listen_port c\<rparr>"

section \<open>The tasks of the agent\<close>

datatype task =
  MetricsServe u16 | ApiServer u16 | RecvLoop | HealthLoop | StunRefresh u64
  | RingbufConsumer | DiscoveryLoop | IpsecLoop | VipProbeLoop

definition spawn_all :: "agent_config \<Rightarrow> bool \<Rightarrow> task list" where
  "spawn_all c has_ipsec_mgr =
     (if metrics_port c > 0 then [MetricsServe (metrics_port c)] else []) @
     [ApiServer 9091, RecvLoop, HealthLoop, StunRefresh (stun_refresh_interval c),
      RingbufConsumer, DiscoveryLoop] @
     (if has_ipsec_mgr then [IpsecLoop] else []) @
     (if vip_enabled c then [VipProbeLoop] else [])"

section \<open>Hot reload\<close>

definition apply_reload :: "agent_config \<Rightarrow> agent_config \<Rightarrow> agent_config" where
  "apply_reload new_cfg c =
     (let c = (if stun_servers c \<noteq> stun_servers new_cfg then c\<lparr>stun_servers := stun_servers new_cfg\<rparr> else c);
          c = (if vip_enabled c \<noteq> vip_enabled new_cfg then c\<lparr>vip_enabled := vip_enabled new_cfg\<rparr> else c);
          c = (if ipsec_enabled c \<noteq> ipsec_enabled new_cfg then c\<lparr>ipsec_enabled := ipsec_enabled new_cfg\<rparr> else c);
          c = (if firewall_enabled c \<noteq> firewall_enabled new_cfg
               then c\<lparr>firewall_enabled := firewall_enabled new_cfg\<rparr> else c);
          c = (if metrics_port c \<noteq> metrics_port new_cfg then c\<lparr>metrics_port := metrics_port new_cfg\<rparr> else c)
      in c)"

text \<open>\<open>read_file\<close> is the content of \<open>/etc/nomad-p2p/config.json\<close> or the error of reading it.\<close>

definition reload_config ::
    "string res \<Rightarrow> (string \<Rightarrow> agent_config res) \<Rightarrow> agent_state \<Rightarrow> agent_state \<times> unit res" where
  "reload_config read_file from_str st =
     (case read_file of
        Inl e \<Rightarrow> (st, Inl (Error (''read config: '' @ err_text e)))
      | Inr data \<Rightarrow>
          (case from_str data of
             Inl e \<Rightarrow> (st, Inl (Error (''parse config: '' @ err_text e)))
           | Inr new_cfg \<Rightarrow> (st\<lparr>cfg := apply_reload new_cfg (cfg st)\<rparr>, Inr ())))"

datatype watch_event = Modified | Created | Removed | OtherKind | WatchTimeout | Disconnected

text \<open>One round of \<open>watch_loop\<close>: whether the loop goes on, and the state. The stop flag is read
  at the top of the round and again after a timeout.\<close>

definition watch_step ::
    "bool \<Rightarrow> bool \<Rightarrow> watch_event \<Rightarrow> string res \<Rightarrow> (string \<Rightarrow> agent_config res) \<Rightarrow> agent_state \<Rightarrow>
     bool \<times> agent_state" where
  "watch_step stop stop_later ev read_file from_str st =
     (if stop then (False, st)
      else case ev of
             Modified \<Rightarrow> (True, fst (reload_config read_file from_str st))
           | Created \<Rightarrow> (True, fst (reload_config read_file from_str st))
           | Removed \<Rightarrow> (True, st)
           | OtherKind \<Rightarrow> (True, st)
           | WatchTimeout \<Rightarrow> (\<not> stop_later, st)
           | Disconnected \<Rightarrow> (False, st))"

text \<open>The whole of \<open>watch_loop\<close>: a watcher that cannot be made or that cannot watch the file ends it at
  once, with a warning; otherwise it runs its rounds, each with the two readings of the stop flag,
  the event, and what reading the file gives then.\<close>

type_synonym watch_round = "bool \<times> bool \<times> watch_event \<times> string res"

primrec watch_rounds :: "(string \<Rightarrow> agent_config res) \<Rightarrow> watch_round list \<Rightarrow> agent_state \<Rightarrow> agent_state" where
  "watch_rounds from_str [] st = st"
| "watch_rounds from_str (r # rounds) st =
     (let (stop, stop_later, ev, read_file) = r; (goes_on, st') = watch_step stop stop_later ev read_file from_str st
      in if goes_on then watch_rounds from_str rounds st' else st')"

definition watch_loop ::
    "unit res \<Rightarrow> (string \<Rightarrow> unit res) \<Rightarrow> (string \<Rightarrow> agent_config res) \<Rightarrow> watch_round list \<Rightarrow> agent_state \<Rightarrow> agent_state" where
  "watch_loop recommended_watcher watch from_str rounds st =
     (case recommended_watcher of
        Inl _ \<Rightarrow> st
      | Inr _ \<Rightarrow>
          (case watch ''/etc/nomad-p2p/config.json'' of Inl _ \<Rightarrow> st | Inr _ \<Rightarrow> watch_rounds from_str rounds st))"

section \<open>What reloads change\<close>

text \<open>The five settings a reload takes over.\<close>

definition take_settings :: "agent_config \<Rightarrow> agent_config \<Rightarrow> agent_config" where
  "take_settings new_cfg c =
     c\<lparr>stun_servers := stun_servers new_cfg, vip_enabled := vip_enabled new_cfg,
       ipsec_enabled := ipsec_enabled new_cfg, firewall_enabled := firewall_enabled new_cfg,
       metrics_port := metrics_port new_cfg\<rparr>"

lemma apply_reload_eq: "apply_reload new_cfg c = take_settings new_cfg c"
  by (simp add: apply_reload_def take_settings_def Let_def)

lemma take_settings_twice [simp]: "take_settings a (take_settings b c) = take_settings a c"
  by (simp add: take_settings_def)

lemma reload_config_eq:
  "fst (reload_config read_file from_str st) =
     (case and_then read_file from_str of Inl e \<Rightarrow> st | Inr new_cfg \<Rightarrow> st\<lparr>cfg := take_settings new_cfg (cfg st)\<rparr>)"
  by (cases read_file) (simp_all add: reload_config_def apply_reload_eq split: sum.split)

text \<open>The rounds before the loop ends, and the files they load.\<close>

definition live_round :: "watch_round \<Rightarrow> bool" where
  "live_round r =
     (let (stop, stop_later, ev, read_file) = r
      in \<not> stop \<and> ev \<noteq> Disconnected \<and> (ev = WatchTimeout \<longrightarrow> \<not> stop_later))"

definition loaded :: "(string \<Rightarrow> agent_config res) \<Rightarrow> watch_round list \<Rightarrow> agent_config list" where
  "loaded from_str rounds =
     List.map_filter (\<lambda>(_, _, ev, read_file). if ev = Modified \<or> ev = Created then ok (and_then read_file from_str) else None)
       (takeWhile live_round rounds)"

definition with_latest :: "agent_config list \<Rightarrow> agent_state \<Rightarrow> agent_state" where
  "with_latest cs st = (if cs = [] then st else st\<lparr>cfg := take_settings (last cs) (cfg st)\<rparr>)"

lemma with_latest_Cons:
  "with_latest cs (st\<lparr>cfg := take_settings c (cfg st)\<rparr>) = with_latest (c # cs) st"
  by (simp add: with_latest_def)

lemma watch_rounds_latest: "watch_rounds from_str rounds st = with_latest (loaded from_str rounds) st"
proof (induction rounds arbitrary: st)
  case (Cons r rounds)
  obtain stop later ev data where r: "r = (stop, later, ev, data)" by (cases r) auto
  show ?case
  proof (cases "live_round r")
    case False
    then show ?thesis
      by (auto simp: r live_round_def loaded_def with_latest_def watch_step_def map_filter_simps split: watch_event.splits)
  next
    case True
    then show ?thesis
      using Cons.IH
      by (cases ev; cases "and_then data from_str")
         (simp_all add: r live_round_def loaded_def watch_step_def map_filter_simps reload_config_eq with_latest_Cons)
  qed
qed (simp add: loaded_def with_latest_def map_filter_simps)

text \<open>
  C24. After any run of the watch loop, through any sequence of events and unreadable or broken
  files, the STUN servers, the VIP, IPsec and firewall switches and the metrics port are those of the
  last file that was read and parsed before the loop ended, or the old ones if there was none;
  every other setting (the VIP backends, the allowed sources and ports and the default policy
  among them) and the rest of the state keep their old values.
\<close>

theorem watch_loop_takes_latest_settings:
  "watch_loop recommended_watcher watch from_str rounds st =
     (if (\<exists>e. recommended_watcher = Inl e) \<or> (\<exists>e. watch ''/etc/nomad-p2p/config.json'' = Inl e) \<or> loaded from_str rounds = []
      then st
      else let new_cfg = last (loaded from_str rounds)
           in st\<lparr>cfg := (cfg st)\<lparr>stun_servers := stun_servers new_cfg, vip_enabled := vip_enabled new_cfg,
                ipsec_enabled := ipsec_enabled new_cfg, firewall_enabled := firewall_enabled new_cfg,
                metrics_port := metrics_port new_cfg\<rparr>\<rparr>)"
  by (auto simp: watch_loop_def watch_rounds_latest with_latest_def take_settings_def Let_def split: sum.split)

end
