(* ===== verification/Bpf.thy ===== *)
theory Bpf
  imports Common
begin

text \<open>
  \<open>agent/src/bpf.rs\<close>: the agent's handle on the BPF maps and programs. The maps the loader
  could take are \<open>Some\<close> content, the others \<open>None\<close>; an operation on a missing map
  succeeds and does nothing, as in the source. The kernel's update and delete calls
  (\<open>aya\<close>) are parameters that return the new content or an error; the laws the code
  relies on are \<open>insert_ok\<close> and \<open>remove_ok\<close>. The object files of the loader, the program
  attach calls and the output of the \<open>ip\<close> command are parameters too.
\<close>

section \<open>Maps and manager\<close>

type_synonym 'v bpf_map = "u32 \<rightharpoonup> 'v"
type_synonym 'v insert_fn = "'v bpf_map \<Rightarrow> u32 \<Rightarrow> 'v \<Rightarrow> 'v bpf_map res"
type_synonym 'v remove_fn = "'v bpf_map \<Rightarrow> u32 \<Rightarrow> 'v bpf_map res"

definition insert_ok :: "'v insert_fn \<Rightarrow> bool" where
  "insert_ok ins \<longleftrightarrow> (\<forall>m k v m'. ins m k v = Inr m' \<longrightarrow> m' = m(k \<mapsto> v))"

definition remove_ok :: "'v remove_fn \<Rightarrow> bool" where
  "remove_ok rem \<longleftrightarrow> (\<forall>m k m'. rem m k = Inr m' \<longrightarrow> m' = m(k := None))"

record bpf_maps =
  container_route :: "u32 bpf_map option"
  node_dynamic :: "peer_endpoint bpf_map option"
  geneve_ifindex :: "u32 bpf_map option"
  tunnel_cfg_map :: "tunnel_cfg bpf_map option"
  vip_map :: "vip_info bpf_map option"
  acl_map :: "acl_rule bpf_map option"
  default_policy_map :: "u8 bpf_map option"

text \<open>An object file as the loader sees it: the maps it can take by name and convert, the
  ring buffer, and the names of its programs.\<close>

record bpf_object =
  obj_container_route :: "u32 bpf_map option"
  obj_node_dynamic :: "peer_endpoint bpf_map option"
  obj_geneve_ifindex :: "u32 bpf_map option"
  obj_tunnel_cfg :: "tunnel_cfg bpf_map option"
  obj_ringbuf :: "bytes list option"
  obj_programs :: "string list"

record bpf_manager =
  mesh :: bpf_object
  fw :: "bpf_object option"
  vip_obj :: "bpf_object option"
  maps :: bpf_maps
  pinned :: bool
  ringbuf :: "bytes list option"

definition load :: "(string \<Rightarrow> bpf_object res) \<Rightarrow> bpf_manager res" where
  "load load_file =
     (case load_file ''bin/mesh.bpf.o'' of
        Inl _ \<Rightarrow> Inl (Error ''load mesh BPF'')
      | Inr obj \<Rightarrow>
          Inr \<lparr>mesh = obj,
               fw = ok (load_file ''bin/firewall.bpf.o''),
               vip_obj = ok (load_file ''bin/vip_balancer.bpf.o''),
               maps = \<lparr>container_route = obj_container_route obj,
                       node_dynamic = obj_node_dynamic obj,
                       geneve_ifindex = obj_geneve_ifindex obj,
                       tunnel_cfg_map = obj_tunnel_cfg obj,
                       vip_map = None, acl_map = None, default_policy_map = None\<rparr>,
               pinned = False,
               ringbuf = obj_ringbuf obj\<rparr>)"

definition set_tunnel_cfg :: "tunnel_cfg insert_fn \<Rightarrow> u32 \<Rightarrow> bpf_manager \<Rightarrow> bpf_manager res" where
  "set_tunnel_cfg ins tid b =
     (case tunnel_cfg_map (maps b) of
        None \<Rightarrow> Inr b
      | Some m \<Rightarrow> and_then (ins m 0 \<lparr>tunnel_id = tid\<rparr>)
                   (\<lambda>m'. Inr (b\<lparr>maps := (maps b)\<lparr>tunnel_cfg_map := Some m'\<rparr>\<rparr>)))"

definition update_peer :: "peer_endpoint insert_fn \<Rightarrow> u32 \<Rightarrow> peer_endpoint \<Rightarrow> bpf_manager \<Rightarrow> bpf_manager res" where
  "update_peer ins overlay_ip ep b =
     (case node_dynamic (maps b) of
        None \<Rightarrow> Inr b
      | Some m \<Rightarrow> and_then (ins m overlay_ip ep)
                   (\<lambda>m'. Inr (b\<lparr>maps := (maps b)\<lparr>node_dynamic := Some m'\<rparr>\<rparr>)))"

definition update_container_route :: "u32 insert_fn \<Rightarrow> u32 \<Rightarrow> u32 \<Rightarrow> bpf_manager \<Rightarrow> bpf_manager res" where
  "update_container_route ins container_ip route_vni b =
     (case container_route (maps b) of
        None \<Rightarrow> Inr b
      | Some m \<Rightarrow> and_then (ins m container_ip route_vni)
                   (\<lambda>m'. Inr (b\<lparr>maps := (maps b)\<lparr>container_route := Some m'\<rparr>\<rparr>)))"

definition remove_container_route :: "u32 remove_fn \<Rightarrow> u32 \<Rightarrow> bpf_manager \<Rightarrow> bpf_manager res" where
  "remove_container_route rem container_ip b =
     (case container_route (maps b) of
        None \<Rightarrow> Inr b
      | Some m \<Rightarrow> and_then (rem m container_ip)
                   (\<lambda>m'. Inr (b\<lparr>maps := (maps b)\<lparr>container_route := Some m'\<rparr>\<rparr>)))"

definition list_container_ips :: "bpf_manager \<Rightarrow> u32 list" where
  "list_container_ips b = []"

definition is_ip_allocated :: "bpf_manager \<Rightarrow> u32 \<Rightarrow> bool" where
  "is_ip_allocated b ip = False"

datatype attach_kind = XdpDefault | TcEgress

text \<open>\<open>attach_one\<close> is one \<open>if let\<close> of \<open>attach_all\<close>: nothing if the object has no such
  program, else the conversion and the attach call (the parameter \<open>attach\<close>).\<close>

definition attach_one ::
    "(string \<Rightarrow> attach_kind \<Rightarrow> u32 \<Rightarrow> unit res) \<Rightarrow> bpf_manager \<Rightarrow> u32 \<Rightarrow> string \<Rightarrow> attach_kind \<Rightarrow>
     (string \<times> attach_kind) list \<Rightarrow> (string \<times> attach_kind) list res" where
  "attach_one attach b ifindex name kind done_so_far =
     (if name \<in> set (obj_programs (mesh b))
      then and_then (attach name kind ifindex) (\<lambda>_. Inr (done_so_far @ [(name, kind)]))
      else Inr done_so_far)"

definition attach_all ::
    "(string \<Rightarrow> attach_kind \<Rightarrow> u32 \<Rightarrow> unit res) \<Rightarrow> bpf_manager \<Rightarrow> u32 \<Rightarrow> (string \<times> attach_kind) list res" where
  "attach_all attach b ifindex =
     and_then (attach_one attach b ifindex ''xdp_pass'' XdpDefault [])
       (attach_one attach b ifindex ''egress_p2p_mesh'' TcEgress)"

section \<open>The default interface\<close>

fun position :: "string \<Rightarrow> string list \<Rightarrow> nat option" where
  "position x [] = None"
| "position x (y # ys) = (if y = x then Some 0 else map_option Suc (position x ys))"

text \<open>\<open>run args\<close> is the standard output of \<open>ip\<close> with these arguments, or the failure to
  start it; the exit status is not looked at.\<close>

fun scan_routes :: "(string list \<Rightarrow> string res) \<Rightarrow> string list \<Rightarrow> u32 res" where
  "scan_routes run [] = Inr 1"
| "scan_routes run (line # rest) =
     (let p = split_whitespace line
      in case position ''dev'' p of
           None \<Rightarrow> scan_routes run rest
         | Some pos \<Rightarrow>
             if length p \<le> pos + 1 then scan_routes run rest
             else (case run [''link'', ''show'', p ! (pos + 1)] of
                     Inl e \<Rightarrow> Inl e
                   | Inr out \<Rightarrow>
                       (case str_lines out of
                          [] \<Rightarrow> scan_routes run rest
                        | l # _ \<Rightarrow>
                            (case parse_u32 (trim (hd (split_on CHR '':'' l))) of
                               Some idx \<Rightarrow> Inr idx
                             | None \<Rightarrow> scan_routes run rest))))"

definition find_default_ifindex :: "(string list \<Rightarrow> string res) \<Rightarrow> u32 res" where
  "find_default_ifindex run =
     (case run [''route'', ''show'', ''default''] of
        Inl _ \<Rightarrow> Inl (Error ''ip route'')
      | Inr out \<Rightarrow> scan_routes run (str_lines out))"

section \<open>Laws of the map operations\<close>

lemmas bpf_update_defs =
  set_tunnel_cfg_def update_peer_def update_container_route_def remove_container_route_def

text \<open>What a container-route update and a removal leave in the map.\<close>

definition route_of :: "bpf_manager \<Rightarrow> u32 \<Rightarrow> u32 option" where
  "route_of b ip = (case container_route (maps b) of None \<Rightarrow> None | Some m \<Rightarrow> m ip)"

lemma route_of_Some [simp]: "container_route (maps b) = Some m \<Longrightarrow> route_of b = m"
  by (simp add: route_of_def fun_eq_iff)

lemma route_of_None [simp]: "container_route (maps b) = None \<Longrightarrow> route_of b = Map.empty"
  by (simp add: route_of_def fun_eq_iff)

text \<open>
  The contract of a route table for its clients: a successful insertion is seen by the next
  lookup, a successful deletion hides the key, and neither changes another key. \<open>present\<close>
  holds of the states that have the table; \<open>ins_ok\<close> and \<open>del_ok\<close> are the laws of the calls
  below.
\<close>

locale route_table =
  fixes ins_op :: "'p \<Rightarrow> 'k \<Rightarrow> 'v \<Rightarrow> 's \<Rightarrow> 's res"
    and del_op :: "'q \<Rightarrow> 'k \<Rightarrow> 's \<Rightarrow> 's res"
    and look :: "'s \<Rightarrow> 'k \<Rightarrow> 'v option"
    and present :: "'s \<Rightarrow> bool"
    and ins_ok :: "'p \<Rightarrow> bool"
    and del_ok :: "'q \<Rightarrow> bool"
  assumes ins_look: "ins_ok p \<Longrightarrow> present s \<Longrightarrow> ins_op p k v s = Inr s' \<Longrightarrow> look s' = (look s)(k \<mapsto> v) \<and> present s'"
    and del_look: "del_ok q \<Longrightarrow> present s \<Longrightarrow> del_op q k s = Inr s' \<Longrightarrow> look s' = (look s)(k := None) \<and> present s'"
begin

text \<open>A client that goes on with the old state when a call fails: a deletion that fails only on
  absent keys has its effect either way.\<close>

lemma del_or_absent:
  assumes "del_ok q" and "present s" and "\<And>e. del_op q k s = Inl e \<Longrightarrow> look s k = None"
  shows "case del_op q k s of
      Inl _ \<Rightarrow> look s = (look s)(k := None)
    | Inr s' \<Rightarrow> look s' = (look s)(k := None) \<and> present s'"
proof (cases "del_op q k s")
  case (Inl e)
  with assms(3) show ?thesis by (simp add: fun_upd_idem)
next
  case (Inr s')
  with del_look [OF assms(1,2) Inr] show ?thesis by simp
qed

end

interpretation container_routes:
  route_table update_container_route remove_container_route route_of
    "\<lambda>b. container_route (maps b) \<noteq> None" insert_ok remove_ok
proof
  fix ins :: "u32 insert_fn" and b b' k v
  assume "insert_ok ins" "container_route (maps b) \<noteq> None" "update_container_route ins k v b = Inr b'"
  then show "route_of b' = (route_of b)(k \<mapsto> v) \<and> container_route (maps b') \<noteq> None"
    by (auto simp: update_container_route_def insert_ok_def and_then_Inr_iff)
next
  fix rem :: "u32 remove_fn" and b b' k
  assume "remove_ok rem" "container_route (maps b) \<noteq> None" "remove_container_route rem k b = Inr b'"
  then show "route_of b' = (route_of b)(k := None) \<and> container_route (maps b') \<noteq> None"
    by (auto simp: remove_container_route_def remove_ok_def and_then_Inr_iff)
qed

lemma load_vip_map [simp]: "load f = Inr b \<Longrightarrow> vip_map (maps b) = None"
  by (auto simp: load_def split: sum.splits)

lemma load_firewall_maps [simp]:
  "load f = Inr b \<Longrightarrow> acl_map (maps b) = None" "load f = Inr b \<Longrightarrow> default_policy_map (maps b) = None"
  by (auto simp: load_def split: sum.splits)

end
