(* ===== verification/Dataplane.thy ===== *)
theory Dataplane
  imports Bpf
begin

text \<open>
  \<open>ebpf/src/main.rs\<close>: the four eBPF programs. A packet is its list of bytes; the maps are
  the contents the programs see. Parameters are the kernel calls: loading bytes from the
  packet (\<open>skb_load\<close>), reserving a ring-buffer record, \<open>bpf_redirect\<close> and the map update.
  A load of a \<open>u16\<close> or \<open>u32\<close> reinterprets the bytes in native order, which is
  little-endian for the \<open>bpfel-unknown-none\<close> target the programs are built for.
\<close>

section \<open>Maps, packets and verdicts\<close>

record kernel_maps =
  NODE_DYNAMIC_MAP :: "peer_endpoint bpf_map"
  GENEVE_IFINDEX_MAP :: "u32 bpf_map"
  VIP_MAP :: "vip_info bpf_map"
  ACL_MAP :: "acl_rule bpf_map"
  DEFAULT_POLICY :: "u8 bpf_map"

record tc_ctx =
  skb :: bytes
  skb_len :: "u32 res"
  skb_linear :: nat

record tc_api =
  skb_load :: "bytes \<Rightarrow> nat \<Rightarrow> nat \<Rightarrow> bytes res"
  ringbuf_reserve :: "bytes list \<Rightarrow> bool"
  bpf_redirect :: "u32 \<Rightarrow> int"

text \<open>\<open>bpf_skb_load_bytes\<close> as documented: the bytes, or an error when they are not all there.\<close>

definition skb_load_ok :: "(bytes \<Rightarrow> nat \<Rightarrow> nat \<Rightarrow> bytes res) \<Rightarrow> bool" where
  "skb_load_ok ld \<longleftrightarrow>
     (\<forall>p off n. (off + n \<le> length p \<longrightarrow> ld p off n = Inr (take n (drop off p))) \<and>
                (length p < off + n \<longrightarrow> (\<exists>e. ld p off n = Inl (Error e))))"

definition load_u16 :: "tc_api \<Rightarrow> tc_ctx \<Rightarrow> nat \<Rightarrow> u16 res" where
  "load_u16 api ctx off = and_then (skb_load api (skb ctx) off 2) (\<lambda>bs. Inr (u16_from_le_bytes bs))"

definition load_u32 :: "tc_api \<Rightarrow> tc_ctx \<Rightarrow> nat \<Rightarrow> u32 res" where
  "load_u32 api ctx off = and_then (skb_load api (skb ctx) off 4) (\<lambda>bs. Inr (u32_from_le_bytes bs))"

definition TC_ACT_PIPE :: int where
  [struct_defs]: "TC_ACT_PIPE = 2"

definition TC_ACT_SHOT :: int where
  [struct_defs]: "TC_ACT_SHOT = 3"

section \<open>Egress: redirect mesh traffic to the Geneve device\<close>

text \<open>The verdict, the packet as it leaves the program, and the ring buffer.\<close>

record egress_result =
  eg_verdict :: "int res"
  eg_packet :: bytes
  eg_ring :: "bytes list"

definition write_u32 :: "bytes \<Rightarrow> nat \<Rightarrow> u32 \<Rightarrow> bytes" where
  "write_u32 p off v = take off p @ u32_to_le_bytes v @ drop (off + 4) p"

definition try_egress :: "tc_api \<Rightarrow> kernel_maps \<Rightarrow> bytes list \<Rightarrow> tc_ctx \<Rightarrow> egress_result" where
  "try_egress api km ring ctx =
     (let leave = (\<lambda>v. \<lparr>eg_verdict = v, eg_packet = skb ctx, eg_ring = ring\<rparr>)
      in case load_u16 api ctx 12 of
        Inl e \<Rightarrow> leave (Inl e)
      | Inr proto \<Rightarrow>
          if proto \<noteq> 0x0800 then leave (Inr TC_ACT_PIPE)
          else case skb_len ctx of
            Inl e \<Rightarrow> leave (Inl e)
          | Inr len \<Rightarrow>
              if len < 42 then leave (Inr TC_ACT_PIPE)
              else case load_u32 api ctx 16 of
                Inl e \<Rightarrow> leave (Inl e)
              | Inr dest_ip \<Rightarrow>
                  (case GENEVE_IFINDEX_MAP km 0 of
                     None \<Rightarrow> leave (Inl (Error ''0''))
                   | Some geneve_if \<Rightarrow>
                       if geneve_if = 0 then leave (Inr TC_ACT_PIPE)
                       else case NODE_DYNAMIC_MAP km dest_ip of
                         None \<Rightarrow>
                           \<lparr>eg_verdict = Inr TC_ACT_PIPE, eg_packet = skb ctx,
                            eg_ring = (if ringbuf_reserve api ring
                                       then ring @ [u32_to_le_bytes dest_ip] else ring)\<rparr>
                       | Some node_endpoint \<Rightarrow>
                           if skb_linear ctx < 42 then leave (Inr TC_ACT_PIPE)
                           else
                             let packet = write_u32 (skb ctx) 16 (pe_public_ip node_endpoint);
                                 ret = bpf_redirect api geneve_if
                             in \<lparr>eg_verdict = Inr (if ret \<ge> 0 then ret else TC_ACT_PIPE),
                                 eg_packet = packet, eg_ring = ring\<rparr>))"

definition egress_p2p_mesh :: "tc_api \<Rightarrow> kernel_maps \<Rightarrow> bytes list \<Rightarrow> tc_ctx \<Rightarrow> int \<times> bytes \<times> bytes list" where
  "egress_p2p_mesh api km ring ctx =
     (let r = try_egress api km ring ctx
      in (case eg_verdict r of Inr v \<Rightarrow> v | Inl _ \<Rightarrow> TC_ACT_PIPE, eg_packet r, eg_ring r))"

section \<open>Ingress: the firewall\<close>

definition try_firewall :: "tc_api \<Rightarrow> kernel_maps \<Rightarrow> tc_ctx \<Rightarrow> int res" where
  "try_firewall api km ctx =
     and_then (load_u16 api ctx 12) (\<lambda>proto.
       if proto \<noteq> 0x0800 then Inr TC_ACT_PIPE
       else and_then (skb_len ctx) (\<lambda>len.
         if len < 42 then Inr TC_ACT_PIPE
         else and_then (load_u32 api ctx 26) (\<lambda>src_ip.
           and_then (load_u16 api ctx 23) (\<lambda>_.
             let default = (case DEFAULT_POLICY km 0 of None \<Rightarrow> 1 | Some d \<Rightarrow> d)
             in case ACL_MAP km src_ip of
                  Some rule \<Rightarrow> if ar_action rule = 2 then Inr TC_ACT_SHOT else Inr TC_ACT_PIPE
                | None \<Rightarrow> if default = 2 then Inr TC_ACT_SHOT else Inr TC_ACT_PIPE))))"

definition tc_ingress_firewall :: "tc_api \<Rightarrow> kernel_maps \<Rightarrow> tc_ctx \<Rightarrow> int" where
  "tc_ingress_firewall api km ctx =
     (case try_firewall api km ctx of Inr v \<Rightarrow> v | Inl _ \<Rightarrow> TC_ACT_PIPE)"

section \<open>Connect: the VIP balancer\<close>

record sock_ctx =
  user_ip :: u32
  user_port :: u16

text \<open>The index of the chosen backend panics outside the sixteen slots; \<open>u16::from_be\<close>
  swaps the bytes on this target; a failed map update is ignored.\<close>

definition try_vip ::
    "vip_info insert_fn \<Rightarrow> vip_info bpf_map \<Rightarrow> sock_ctx \<Rightarrow> (int \<times> sock_ctx \<times> vip_info bpf_map) res" where
  "try_vip ins vips ctx =
     (case vips (user_ip ctx) of
        None \<Rightarrow> Inr (0, ctx, vips)
      | Some info \<Rightarrow>
          if \<not> vi_count info > 0 then Inr (0, ctx, vips)
          else
            let idx = unat (vi_next_idx info) mod unat (vi_count info)
            in if length (vi_backends info) \<le> idx then Inl (Panic ''index out of bounds'')
               else
                 let backend = vi_backends info ! idx;
                     ctx' = \<lparr>user_ip = vb_ip backend, user_port = u16_swap_bytes (vb_port backend)\<rparr>;
                     next = (word_of_nat ((idx + 1) mod unat (vi_count info)) :: u8)
                 in if next = vi_next_idx info then Inr (0, ctx', vips)
                    else case ins vips (user_ip ctx) (info\<lparr>vi_next_idx := next\<rparr>) of
                           Inl _ \<Rightarrow> Inr (0, ctx', vips)
                         | Inr vips' \<Rightarrow> Inr (0, ctx', vips'))"

definition vip_load_balance ::
    "vip_info insert_fn \<Rightarrow> vip_info bpf_map \<Rightarrow> sock_ctx \<Rightarrow> (int \<times> sock_ctx \<times> vip_info bpf_map) res" where
  "vip_load_balance ins vips ctx =
     (case try_vip ins vips ctx of
        Inr r \<Rightarrow> Inr r
      | Inl (Error _) \<Rightarrow> Inr (0, ctx, vips)
      | Inl (Panic m) \<Rightarrow> Inl (Panic m))"

section \<open>XDP\<close>

text \<open>\<open>XDP_PASS\<close> is 2 in the kernel's \<open>xdp_action\<close> enumeration.\<close>

definition try_xdp_pass :: "int res" where
  "try_xdp_pass = Inr 2"

definition xdp_pass :: int where
  "xdp_pass = (case try_xdp_pass of Inr r \<Rightarrow> r | Inl _ \<Rightarrow> 2)"

section \<open>Which frames the classifiers look at\<close>

lemma load_u16_in_range:
  assumes "skb_load_ok (skb_load api)" and "off + 2 \<le> length (skb ctx)"
  shows "load_u16 api ctx off = Inr (u16_from_le_bytes [skb ctx ! off, skb ctx ! (off + 1)])"
proof -
  have "take 2 (drop off (skb ctx)) = [skb ctx ! off, skb ctx ! (off + 1)]"
    using assms(2) by (simp add: numeral_2_eq_2 take_Suc_conv_app_nth)
  then show ?thesis using assms by (simp add: load_u16_def skb_load_ok_def)
qed

lemma load_u32_in_range:
  assumes "skb_load_ok (skb_load api)" and "off + 4 \<le> length (skb ctx)"
  shows "load_u32 api ctx off = Inr (u32_from_le_bytes (take 4 (drop off (skb ctx))))"
  using assms by (simp add: load_u32_def skb_load_ok_def)

lemma u16_from_le_bytes_two: "u16_from_le_bytes [a, b] = u16_from_be_bytes b a"
  by (simp add: u16_from_le_bytes_def u16_from_be_bytes_def)

lemma ethertype_0800: "u16_from_le_bytes [a, b] = 0x0800 \<longleftrightarrow> a = 0 \<and> b = 8"
proof -
  have "(0x0800 :: u16) = u16_from_be_bytes 8 0" by (simp add: u16_from_be_bytes_def)
  then show ?thesis unfolding u16_from_le_bytes_two by (metis u16_from_be_bytes_inject)
qed

text \<open>
  C36. The classifiers compare the EtherType in host order: on the little-endian target a
  frame whose EtherType bytes are \<open>08 00\<close> (IPv4) is taken for something else. Whatever the
  maps hold, the firewall passes it, and the egress program neither rewrites nor
  redirects it nor reports a route miss.
\<close>

theorem ipv4_frames_bypass_classifiers:
  assumes "skb_load_ok (skb_load api)" and "14 \<le> length (skb ctx)"
    and "skb ctx ! 12 = 0x08" and "skb ctx ! 13 = 0x00"
  shows "tc_ingress_firewall api km ctx = TC_ACT_PIPE \<and>
    egress_p2p_mesh api km ring ctx = (TC_ACT_PIPE, skb ctx, ring)"
proof -
  have "load_u16 api ctx 12 = Inr (u16_from_le_bytes [0x08, 0x00])"
    using load_u16_in_range [OF assms(1), where ctx = ctx and off = 12] assms(2-4) by simp
  moreover have "u16_from_le_bytes [0x08, 0x00] \<noteq> 0x0800"
    unfolding ethertype_0800 by simp
  ultimately show ?thesis
    by (simp add: tc_ingress_firewall_def try_firewall_def egress_p2p_mesh_def try_egress_def Let_def)
qed

text \<open>A kernel with the documented load, for the witnesses.\<close>

definition sample_api :: tc_api where
  "sample_api =
     \<lparr>skb_load = (\<lambda>p off n. if off + n \<le> length p then Inr (take n (drop off p)) else Inl (Error ''EFAULT'')),
      ringbuf_reserve = (\<lambda>_. True), bpf_redirect = (\<lambda>_. 7)\<rparr>"

lemma sample_api_ok [simp]: "skb_load_ok (skb_load sample_api)"
  by (simp add: skb_load_ok_def sample_api_def)

text \<open>A frame of 60 bytes with the given EtherType bytes and zeros elsewhere.\<close>

definition sample_ctx :: "u8 \<Rightarrow> u8 \<Rightarrow> tc_ctx" where
  "sample_ctx a b = \<lparr>skb = replicate 12 0 @ [a, b] @ replicate 46 0, skb_len = Inr 60, skb_linear = 60\<rparr>"

definition deny_all :: kernel_maps where
  "deny_all = \<lparr>NODE_DYNAMIC_MAP = Map.empty, GENEVE_IFINDEX_MAP = [0 \<mapsto> 5], VIP_MAP = Map.empty,
     ACL_MAP = Map.empty, DEFAULT_POLICY = [0 \<mapsto> 2]\<rparr>"

lemma nth_sample_ctx: "skb (sample_ctx a b) ! 12 = a" "skb (sample_ctx a b) ! 13 = b"
  by (simp_all add: sample_ctx_def nth_append)

lemma ipv4_frames_bypass_classifiers_witness:
  "tc_ingress_firewall sample_api deny_all (sample_ctx 0x08 0x00) = TC_ACT_PIPE"
  using ipv4_frames_bypass_classifiers [OF sample_api_ok _ nth_sample_ctx, of deny_all "[]"]
  by (simp add: sample_ctx_def)

text \<open>
  C15. Policy of the firewall on the frames it does inspect (EtherType bytes \<open>00 08\<close>, at
  least 42 bytes): a frame is dropped exactly when the rule for its source word says
  \<open>Deny\<close>, or there is no rule and the default policy is \<open>Deny\<close>; otherwise it is passed. The
  protocol and the port, for which the README describes rules of their own, play no part.
\<close>

theorem firewall_policy:
  assumes "skb_load_ok (skb_load api)" and "42 \<le> length (skb ctx)" and "skb_len ctx = Inr n" and "42 \<le> n"
    and "skb ctx ! 12 = 0x00" and "skb ctx ! 13 = 0x08"
    and "src = u32_from_le_bytes (take 4 (drop 26 (skb ctx)))"
  shows "tc_ingress_firewall api km ctx =
     (if (case ACL_MAP km src of
            Some rule \<Rightarrow> ar_action rule = acl_action_code Deny
          | None \<Rightarrow> DEFAULT_POLICY km 0 = Some (acl_action_code Deny))
      then TC_ACT_SHOT else TC_ACT_PIPE)"
proof -
  have "load_u16 api ctx 12 = Inr 0x0800"
    using load_u16_in_range [OF assms(1), where ctx = ctx and off = 12] assms(2,5,6) ethertype_0800 [of 0 8] by simp
  moreover have "load_u32 api ctx 26 = Inr src"
    using load_u32_in_range [OF assms(1), where ctx = ctx and off = 26] assms(2,7) by simp
  moreover have "\<exists>v. load_u16 api ctx 23 = Inr v"
    using load_u16_in_range [OF assms(1), where ctx = ctx and off = 23] assms(2) by simp
  ultimately show ?thesis
    using assms(3,4)
    by (auto simp: tc_ingress_firewall_def try_firewall_def Let_def not_less split: option.splits)
qed

lemma firewall_policy_witness:
  "tc_ingress_firewall sample_api deny_all (sample_ctx 0x00 0x08) = TC_ACT_SHOT"
  using firewall_policy [OF sample_api_ok _ _ _ nth_sample_ctx refl, of 60 deny_all]
  by (simp add: sample_ctx_def deny_all_def)

text \<open>
  C37. What the egress program does to a frame it redirects: it replaces the four bytes at
  offsets 16 to 19 by the public address of the node (in host order) and leaves every
  other byte alone. In an Ethernet frame these are the total length and the identification
  of the IPv4 header; the destination address, at offsets 30 to 33, is not changed.
\<close>

theorem egress_rewrites_offset_16:
  assumes "skb_load_ok (skb_load api)" and "42 \<le> length (skb ctx)" and "skb_len ctx = Inr n" and "42 \<le> n"
    and "42 \<le> skb_linear ctx" and "skb ctx ! 12 = 0x00" and "skb ctx ! 13 = 0x08"
    and "GENEVE_IFINDEX_MAP km 0 = Some ifindex" and "ifindex \<noteq> 0"
    and "NODE_DYNAMIC_MAP km (u32_from_le_bytes (take 4 (drop 16 (skb ctx)))) = Some ep"
  shows "\<exists>packet. egress_p2p_mesh api km ring ctx =
      (if bpf_redirect api ifindex \<ge> 0 then bpf_redirect api ifindex else TC_ACT_PIPE, packet, ring) \<and>
    length packet = length (skb ctx) \<and>
    take 4 (drop 16 packet) = u32_to_le_bytes (pe_public_ip ep) \<and>
    take 16 packet = take 16 (skb ctx) \<and> drop 20 packet = drop 20 (skb ctx) \<and>
    take 4 (drop 30 packet) = take 4 (drop 30 (skb ctx))"
proof -
  let ?packet = "write_u32 (skb ctx) 16 (pe_public_ip ep)"
  have "load_u16 api ctx 12 = Inr 0x0800"
    using load_u16_in_range [OF assms(1), where ctx = ctx and off = 12] assms(2,6,7) ethertype_0800 [of 0 8] by simp
  moreover have "load_u32 api ctx 16 = Inr (u32_from_le_bytes (take 4 (drop 16 (skb ctx))))"
    using load_u32_in_range [OF assms(1), where ctx = ctx and off = 16] assms(2) by simp
  moreover have "\<not> n < 42" using assms(4) by simp
  ultimately have "egress_p2p_mesh api km ring ctx =
      (if bpf_redirect api ifindex \<ge> 0 then bpf_redirect api ifindex else TC_ACT_PIPE, ?packet, ring)"
    using assms(3-5,8-10) by (simp add: egress_p2p_mesh_def try_egress_def Let_def)
  moreover have "drop 20 ?packet = drop 20 (skb ctx)"
    using assms(2) by (simp add: write_u32_def u32_to_le_bytes_def)
  then have "take 4 (drop 10 (drop 20 ?packet)) = take 4 (drop 10 (drop 20 (skb ctx)))" by simp
  ultimately show ?thesis
    using assms(2) by (intro exI [of _ ?packet]) (simp add: write_u32_def u32_to_le_bytes_def)
qed

definition one_node :: kernel_maps where
  "one_node = deny_all\<lparr>NODE_DYNAMIC_MAP :=
     [0 \<mapsto> \<lparr>pe_public_ip = 0x01020304, pe_port = 9527, pe_nat_type = 1, pe_pad = 0\<rparr>]\<rparr>"

lemma egress_rewrites_offset_16_witness:
  "\<exists>packet. egress_p2p_mesh sample_api one_node [] (sample_ctx 0x00 0x08) = (7, packet, []) \<and>
     take 4 (drop 16 packet) = u32_to_le_bytes 0x01020304"
proof -
  have "u32_from_le_bytes (take 4 (drop 16 (skb (sample_ctx 0x00 0x08)))) = 0"
    by (simp add: sample_ctx_def u32_from_le_bytes_def be_val_def numeral_eq_Suc)
  then show ?thesis
    using egress_rewrites_offset_16 [OF sample_api_ok _ _ _ _ nth_sample_ctx, of 60 one_node 5
        "\<lparr>pe_public_ip = 0x01020304, pe_port = 9527, pe_nat_type = 1, pe_pad = 0\<rparr>" "[]"]
    by (auto simp: sample_ctx_def one_node_def deny_all_def sample_api_def)
qed

section \<open>Round robin over the backends of a VIP\<close>

text \<open>\<open>vip_run ins n ip port vips\<close>: \<open>n\<close> sockets connect to \<open>ip\<close> one after the other; the
  return code of the program and the context after it, for each, and the map.\<close>

primrec vip_run ::
    "vip_info insert_fn \<Rightarrow> nat \<Rightarrow> u32 \<Rightarrow> u16 \<Rightarrow> vip_info bpf_map \<Rightarrow>
     ((int \<times> sock_ctx) list \<times> vip_info bpf_map) res" where
  "vip_run ins 0 ip port vips = Inr ([], vips)"
| "vip_run ins (Suc n) ip port vips =
     and_then (vip_load_balance ins vips \<lparr>user_ip = ip, user_port = port\<rparr>) (\<lambda>(ret, ctx, vips').
       and_then (vip_run ins n ip port vips') (\<lambda>(outs, vips''). Inr ((ret, ctx) # outs, vips'')))"

text \<open>The kernel's update always succeeds on an existing key.\<close>

definition update_ok :: "'v insert_fn \<Rightarrow> bool" where
  "update_ok ins \<longleftrightarrow> (\<forall>m k v. m k \<noteq> None \<longrightarrow> ins m k v = Inr (m(k \<mapsto> v)))"

definition target :: "vip_backend \<Rightarrow> sock_ctx" where
  "target b = \<lparr>user_ip = vb_ip b, user_port = u16_swap_bytes (vb_port b)\<rparr>"

lemma unat_mod_count: "0 < c \<Longrightarrow> c \<le> 16 \<Longrightarrow> unat (word_of_nat (k mod c) :: u8) = k mod c"
  using mod_less_divisor [of c k] by (simp add: unat_of_nat del: mod_less_divisor)

lemma vip_load_balance_step:
  assumes "update_ok ins" and "vips ip = Some info" and "wf_vip_info info" and "0 < vi_count info"
  defines "idx \<equiv> unat (vi_next_idx info)"
  shows "vip_load_balance ins vips \<lparr>user_ip = ip, user_port = port\<rparr> =
    Inr (0, target (vi_backends info ! idx),
         vips(ip \<mapsto> info\<lparr>vi_next_idx := word_of_nat ((idx + 1) mod unat (vi_count info))\<rparr>))"
proof -
  have c: "0 < unat (vi_count info)" "idx < unat (vi_count info)" "unat (vi_count info) \<le> 16"
      "length (vi_backends info) = 16"
    using assms(3,4) by (auto simp: wf_vip_info_def idx_def word_less_nat_alt)
  have same: "vips = vips(ip \<mapsto> info)" using assms(2) by auto
  show ?thesis
  proof (cases "word_of_nat ((idx + 1) mod unat (vi_count info)) = vi_next_idx info")
    case True
    then have "info\<lparr>vi_next_idx := word_of_nat ((idx + 1) mod unat (vi_count info))\<rparr> = info" by simp
    then show ?thesis
      using c assms(2,4) True same
      by (simp add: vip_load_balance_def try_vip_def target_def Let_def idx_def [symmetric])
  next
    case False
    then show ?thesis
      using c assms(1,2,4)
      by (simp add: vip_load_balance_def try_vip_def target_def Let_def idx_def [symmetric] update_ok_def)
  qed
qed

lemma wf_vip_info_next:
  assumes "wf_vip_info info" and "0 < vi_count info"
  shows "wf_vip_info (info\<lparr>vi_next_idx := word_of_nat (k mod unat (vi_count info))\<rparr>)"
proof -
  have "0 < unat (vi_count info)" "unat (vi_count info) \<le> 16"
    using assms by (simp_all add: wf_vip_info_def word_less_nat_alt)
  then show ?thesis using assms by (simp add: wf_vip_info_def word_less_nat_alt unat_mod_count)
qed

lemma vip_round_robin_eq:
  assumes "update_ok ins" and "vips ip = Some info" and "wf_vip_info info" and "0 < vi_count info"
  shows "vip_run ins n ip port vips =
    Inr (map (\<lambda>i. (0, target (vi_backends info ! ((unat (vi_next_idx info) + i) mod unat (vi_count info))))) [0..<n],
         vips(ip \<mapsto> info\<lparr>vi_next_idx :=
           word_of_nat ((unat (vi_next_idx info) + n) mod unat (vi_count info))\<rparr>))"
  using assms(2-4)
proof (induction n arbitrary: vips info)
  case 0
  then have "unat (vi_next_idx info) < unat (vi_count info)"
    by (simp add: wf_vip_info_def word_less_nat_alt)
  with 0 show ?case by (simp add: fun_upd_idem)
next
  case (Suc n)
  let ?c = "unat (vi_count info)" and ?i = "unat (vi_next_idx info)"
  let ?info = "info\<lparr>vi_next_idx := word_of_nat ((?i + 1) mod ?c)\<rparr>"
  have c: "?i < ?c" "?c \<le> 16"
    using Suc.prems by (auto simp: wf_vip_info_def word_less_nat_alt)
  have pos: "unat (vi_next_idx ?info) = (?i + 1) mod ?c"
    using c by (simp add: unat_mod_count)
  have step: "vip_load_balance ins vips \<lparr>user_ip = ip, user_port = port\<rparr> =
      Inr (0, target (vi_backends info ! ?i), vips(ip \<mapsto> ?info))"
    using vip_load_balance_step [of ins vips ip info port] assms(1) Suc.prems by blast
  define vips' where vips': "vips' = vips(ip \<mapsto> ?info)"
  have "vips' ip = Some ?info" by (simp add: vips')
  then have rest: "vip_run ins n ip port vips' =
      Inr (map (\<lambda>j. (0, target (vi_backends info ! (((?i + 1) mod ?c + j) mod ?c)))) [0..<n],
           vips'(ip \<mapsto> ?info\<lparr>vi_next_idx := word_of_nat (((?i + 1) mod ?c + n) mod ?c)\<rparr>))"
    using Suc.IH [of vips' ?info, unfolded pos] Suc.prems(3) wf_vip_info_next [OF Suc.prems(2,3), of "?i + 1"]
    by (simp add: fun_upd_def)
  have "[0..<Suc n] = 0 # map Suc [0..<n]" by (simp add: map_Suc_upt upt_conv_Cons del: upt_Suc)
  then show ?case
    using step rest c by (simp add: vips' [symmetric] mod_add_left_eq comp_def del: upt_Suc fun_upd_apply)
      (simp add: vips' del: fun_upd_apply)
qed

text \<open>
  C12. Round robin: for \<open>n\<close> connections in a row to a VIP with a well-formed entry the program
  never panics; it sets the destination of the \<open>i\<close>-th one to the backend \<open>i\<close> places after the
  stored position (cyclically among the live entries of the table), and the stored position
  moves on by \<open>n\<close>. It returns 0 every time: to the kernel, the verdict of a program of this type
  that the connection is refused.
\<close>

theorem vip_round_robin:
  assumes "update_ok ins" and "vips ip = Some info" and "wf_vip_info info" and "0 < vi_count info"
  shows "vip_run ins n ip port vips =
    Inr (map (\<lambda>i. (0, target (vi_backends info ! ((unat (vi_next_idx info) + i) mod unat (vi_count info))))) [0..<n],
         vips(ip \<mapsto> info\<lparr>vi_next_idx :=
           word_of_nat ((unat (vi_next_idx info) + n) mod unat (vi_count info))\<rparr>))"
  using assms by (rule vip_round_robin_eq)

text \<open>Two backends, the second is next.\<close>

definition sample_vip_info :: vip_info where
  "sample_vip_info = vip_info_default\<lparr>vi_backends :=
     [\<lparr>vb_ip = 11, vb_port = 0x5000, vb_weight = 1, vb_pad = 0\<rparr>,
      \<lparr>vb_ip = 12, vb_port = 0x5000, vb_weight = 1, vb_pad = 0\<rparr>] @ replicate 14 vip_backend_default,
     vi_count := 2, vi_next_idx := 1\<rparr>"

lemma vip_round_robin_witness:
  "\<exists>vips. vip_run (\<lambda>m k v. Inr (m(k \<mapsto> v))) 3 99 80 [99 \<mapsto> sample_vip_info] =
     Inr ([(0, \<lparr>user_ip = 12, user_port = 80\<rparr>), (0, \<lparr>user_ip = 11, user_port = 80\<rparr>), (0, \<lparr>user_ip = 12, user_port = 80\<rparr>)], vips)"
proof -
  have "wf_vip_info sample_vip_info" "0 < vi_count sample_vip_info"
    by (simp_all add: wf_vip_info_def sample_vip_info_def)
  moreover have "u16_swap_bytes 0x5000 = 80"
    by (simp add: u16_swap_bytes_def u16_from_le_bytes_def u16_to_be_bytes_def be_enc_two)
  moreover have "[0..<3] = [0, 1, 2 :: nat]" by code_simp
  ultimately show ?thesis
    using vip_round_robin [of "\<lambda>m k v. Inr (m(k \<mapsto> v))" "[99 \<mapsto> sample_vip_info]" 99 sample_vip_info 3 80]
    by (simp add: update_ok_def target_def sample_vip_info_def del: fun_upd_apply) simp
qed

text \<open>
  The contract between the agent, which fills the VIP table from a list of backends, and
  this program, which trusts its entries: a made entry is well formed, starts at the
  first backend and lists as many backends as it was made from, at most sixteen.
\<close>

locale vip_source =
  fixes make :: "'cfg \<Rightarrow> vip_info" and size_of :: "'cfg \<Rightarrow> nat"
  assumes make_wf: "wf_vip_info (make c)"
    and make_start: "vi_next_idx (make c) = 0"
    and make_count: "unat (vi_count (make c)) = min (size_of c) 16"
begin

lemma connect_no_panic: "vips ip = Some (make c) \<Longrightarrow>
    \<exists>ctx vips'. vip_load_balance ins vips \<lparr>user_ip = ip, user_port = port\<rparr> = Inr (0, ctx, vips')"
  using make_wf [of c] make_start [of c]
  by (auto simp: vip_load_balance_def try_vip_def wf_vip_info_def word_less_nat_alt Let_def
      split: sum.splits err.splits if_splits)

text \<open>For as many connections as there are backends the program picks each of them once, in order.\<close>

lemma round_serves_all:
  assumes "update_ok ins" and "vips ip = Some (make c)" and "0 < size_of c"
  shows "\<exists>vips'. vip_run ins (min (size_of c) 16) ip port vips =
    Inr (map (\<lambda>b. (0, target b)) (take (min (size_of c) 16) (vi_backends (make c))), vips')"
proof -
  let ?n = "min (size_of c) 16"
  have count: "0 < vi_count (make c)" "unat (vi_count (make c)) = ?n" "length (vi_backends (make c)) = 16"
    using assms(3) make_count [of c] make_wf [of c] by (auto simp: word_less_nat_alt wf_vip_info_def)
  have "map (\<lambda>i. (0 :: int, target (vi_backends (make c) ! (i mod ?n)))) [0..<?n] =
      map (\<lambda>b. (0, target b)) (take ?n (vi_backends (make c)))"
    by (rule nth_equalityI) (simp_all add: count)
  then show ?thesis
    using vip_round_robin_eq [of ins vips ip "make c" ?n port] assms(1,2) make_wf [of c] count(1)
    by (simp add: make_start count del: fun_upd_apply)
qed

end

end
