(* ===== verification/Vip.thy ===== *)
theory Vip
  imports Config Dataplane
begin

text \<open>
  \<open>agent/src/vip.rs\<close>: the table of VIP backends, the probe loop, and the entry it writes to
  the VIP map for the connect program. The hash map of the monitor is a map from VIP
  strings; the order in which its keys are visited is an argument of a round. The outcome
  of a TCP connection attempt is the parameter \<open>connect\<close>, which may differ from attempt to
  attempt: it is given the VIP, the position of the backend in its list, and the address.
\<close>

section \<open>The monitor\<close>

record backend_health =
  bh_ip :: ipv4
  bh_port :: u16
  alive :: bool

type_synonym vip_monitor = "string \<rightharpoonup> backend_health list"

definition new_monitor :: vip_monitor where
  "new_monitor = Map.empty"

definition set_backends :: "string \<Rightarrow> (ipv4 \<times> u16) list \<Rightarrow> vip_monitor \<Rightarrow> vip_monitor" where
  "set_backends vip bs m = m(vip \<mapsto> map (\<lambda>(ip, port). \<lparr>bh_ip = ip, bh_port = port, alive = True\<rparr>) bs)"

definition get_alive :: "string \<Rightarrow> vip_monitor \<Rightarrow> ipv4 list" where
  "get_alive vip m = (case m vip of None \<Rightarrow> [] | Some bs \<Rightarrow> map bh_ip (filter alive bs))"

definition probe_backend :: "(string \<Rightarrow> bool) \<Rightarrow> ipv4 \<Rightarrow> u16 \<Rightarrow> bool" where
  "probe_backend connect ip port = connect (show_ipv4 ip @ '':'' @ dec (unat port))"

section \<open>The entry of the VIP map\<close>

definition vip_entry :: "ipv4 list \<Rightarrow> vip_info" where
  "vip_entry ips =
     (let slots = map (\<lambda>ip. \<lparr>vb_ip = u32_of_ipv4 ip, vb_port = u16_swap_bytes 0, vb_weight = 1, vb_pad = 0\<rparr>)
                    (take 16 ips)
      in vip_info_default\<lparr>vi_backends := slots @ drop (length slots) (vi_backends vip_info_default),
           vi_count := word_of_nat (min (length ips) 16), vi_next_idx := 0\<rparr>)"

definition update_bpf_vip :: "vip_info insert_fn \<Rightarrow> ipv4 \<Rightarrow> ipv4 list \<Rightarrow> bpf_manager \<Rightarrow> bpf_manager res" where
  "update_bpf_vip ins vip_ip ips b =
     (case vip_map (maps b) of
        None \<Rightarrow> Inr b
      | Some m \<Rightarrow> and_then (ins m (u32_of_ipv4 vip_ip) (vip_entry ips))
                   (\<lambda>m'. Inr (b\<lparr>maps := (maps b)\<lparr>vip_map := Some m'\<rparr>\<rparr>)))"

section \<open>The probe loop\<close>

definition parse_backend :: "string \<Rightarrow> (ipv4 \<times> u16) option" where
  "parse_backend s =
     (let parts = split_on CHR '':'' s
      in case parse_ipv4 (hd parts) of
           None \<Rightarrow> None
         | Some ip \<Rightarrow>
             Some (ip, case (if 1 < length parts then parse_u16 (parts ! 1) else None) of
                         None \<Rightarrow> 80 | Some port \<Rightarrow> port))"

definition init_backends :: "agent_config \<Rightarrow> vip_monitor \<Rightarrow> vip_monitor" where
  "init_backends c m =
     foldl (\<lambda>m vc. set_backends (vbc_vip vc) (List.map_filter parse_backend (vbc_backends vc)) m)
       m (vip_backends c)"

text \<open>The probe of one VIP: every backend is tried, and one whose answer differs from its
  recorded state marks the VIP as changed. The table itself is only read.\<close>

definition probe_changed :: "(string \<Rightarrow> nat \<Rightarrow> string \<Rightarrow> bool) \<Rightarrow> string \<Rightarrow> vip_monitor \<Rightarrow> bool" where
  "probe_changed connect vip m =
     (case m vip of
        None \<Rightarrow> False
      | Some bs \<Rightarrow>
          list_ex (\<lambda>(i, b). probe_backend (connect vip i) (bh_ip b) (bh_port b) \<noteq> alive b)
            (zip [0..<length bs] bs))"

definition probe_vip ::
    "vip_info insert_fn \<Rightarrow> (string \<Rightarrow> nat \<Rightarrow> string \<Rightarrow> bool) \<Rightarrow> string \<Rightarrow> vip_monitor \<times> bpf_manager \<Rightarrow>
     vip_monitor \<times> bpf_manager" where
  "probe_vip ins connect vip = (\<lambda>(m, b).
     if probe_changed connect vip m \<and> get_alive vip m \<noteq> []
     then (case parse_ipv4 vip of
             None \<Rightarrow> (m, b)
           | Some vip_ip \<Rightarrow>
               (case update_bpf_vip ins vip_ip (get_alive vip m) b of Inl _ \<Rightarrow> (m, b) | Inr b' \<Rightarrow> (m, b')))
     else (m, b))"

definition probe_round ::
    "vip_info insert_fn \<Rightarrow> (string \<Rightarrow> nat \<Rightarrow> string \<Rightarrow> bool) \<Rightarrow> string list \<Rightarrow> vip_monitor \<times> bpf_manager \<Rightarrow>
     vip_monitor \<times> bpf_manager" where
  "probe_round ins connect vips s = fold (probe_vip ins connect) vips s"

text \<open>The loop from its start: the initialisation and one round per element of \<open>rounds\<close>,
  each with the outcomes of its probes and the order of the keys.\<close>

definition probe_loop ::
    "vip_info insert_fn \<Rightarrow> agent_config \<Rightarrow> ((string \<Rightarrow> nat \<Rightarrow> string \<Rightarrow> bool) \<times> string list) list \<Rightarrow>
     vip_monitor \<times> bpf_manager \<Rightarrow> vip_monitor \<times> bpf_manager" where
  "probe_loop ins c rounds = (\<lambda>(m, b).
     fold (\<lambda>(connect, vips). probe_round ins connect vips) rounds (init_backends c m, b))"

section \<open>The entries are what the connect program expects\<close>

lemma length_vip_entry [simp]: "length (vi_backends (vip_entry ips)) = 16"
  by (simp add: vip_entry_def vip_info_default_def Let_def)

lemma vip_entry_count [simp]: "unat (vi_count (vip_entry ips)) = min (length ips) 16"
  by (simp add: vip_entry_def Let_def unat_of_nat min_def)

lemma vip_entry_next [simp]: "vi_next_idx (vip_entry ips) = 0"
  by (simp add: vip_entry_def Let_def)

lemma wf_vip_entry [simp]: "wf_vip_info (vip_entry ips)"
  by (simp add: wf_vip_info_def)

interpretation vip_table: vip_source vip_entry length
  by unfold_locales simp_all

lemma u16_swap_bytes_0 [simp]: "u16_swap_bytes 0 = 0"
  by (simp add: u16_swap_bytes_def u16_from_le_bytes_def u16_to_be_bytes_def be_enc_two be_val_def)

text \<open>The connect program looks the destination up as the kernel gives it, in network byte
  order; read as a native word on the little-endian target.\<close>

definition net_u32 :: "ipv4 \<Rightarrow> u32" where
  "net_u32 ip = u32_from_le_bytes (octets ip)"

lemma net_u32_eq_iff: "net_u32 ip = u32_of_ipv4 ip \<longleftrightarrow> octets ip = rev (octets ip)"
proof -
  have "length (octets ip) = 4" by (cases ip) simp
  then show ?thesis
    using u32_from_be_bytes_inject [of "rev (octets ip)" "octets ip"]
    by (auto simp: net_u32_def u32_of_ipv4_def u32_from_le_bytes_def u32_from_be_bytes_def)
qed

text \<open>Written in host order, an address is read by the kernel with its bytes reversed.\<close>

fun rev_ipv4 :: "ipv4 \<Rightarrow> ipv4" where
  "rev_ipv4 (Ipv4 a b c d) = Ipv4 d c b a"

lemma u32_of_ipv4_net: "u32_of_ipv4 ip = net_u32 (rev_ipv4 ip)"
  by (cases ip) (simp add: net_u32_def u32_of_ipv4_def u32_from_le_bytes_def u32_from_be_bytes_def)

lemma vip_entry_targets:
  "map (\<lambda>b. (0, target b)) (take (min (length ips) 16) (vi_backends (vip_entry ips))) =
     map (\<lambda>ip. (0, \<lparr>user_ip = net_u32 (rev_ipv4 ip), user_port = 0\<rparr>)) (take 16 ips)"
  by (simp add: vip_entry_def Let_def target_def min.commute u32_of_ipv4_net)

text \<open>
  C34. What the agent's VIP entry does to connections, with addresses as the kernel reads them
  (\<open>net_u32\<close>): the entry of \<open>vip_ip\<close> catches the connections to the byte-reversed address, and
  as many of them as there are backends (at most sixteen) are pointed at each backend exactly
  once, in the order of the list, but at the backend's address with its bytes reversed and at
  port 0, since neither the byte order nor the port of the configuration is carried to the table;
  and the program returns 0, the kernel's verdict for a refused connection. A connection never
  panics, even when the kernel refuses to store the next position.
\<close>

theorem vip_entry_reverses_backends:
  assumes "update_ok kernel_ins" and "insert_ok ins" and "vip_map (maps b) = Some m"
    and "update_bpf_vip ins vip_ip ips b = Inr b'" and "ips \<noteq> []"
  shows "\<exists>vips vips'. vip_map (maps b') = Some vips \<and>
    vip_run kernel_ins (min (length ips) 16) (net_u32 (rev_ipv4 vip_ip)) port vips =
      Inr (map (\<lambda>ip. (0, \<lparr>user_ip = net_u32 (rev_ipv4 ip), user_port = 0\<rparr>)) (take 16 ips), vips') \<and>
    (\<exists>ctx vips''. vip_load_balance any_ins vips \<lparr>user_ip = net_u32 (rev_ipv4 vip_ip), user_port = port\<rparr> = Inr (0, ctx, vips''))"
proof -
  let ?k = "net_u32 (rev_ipv4 vip_ip)"
  let ?vips = "m(?k \<mapsto> vip_entry ips)"
  have "vip_map (maps b') = Some ?vips"
    using assms(2-4) by (auto simp: update_bpf_vip_def and_then_Inr_iff insert_ok_def u32_of_ipv4_net)
  moreover have "\<exists>vips'. vip_run kernel_ins (min (length ips) 16) ?k port ?vips =
      Inr (map (\<lambda>b. (0, target b)) (take (min (length ips) 16) (vi_backends (vip_entry ips))), vips')"
    using assms(1,5) by (intro vip_table.round_serves_all) simp_all
  moreover have "\<exists>ctx vips''. vip_load_balance any_ins ?vips \<lparr>user_ip = ?k, user_port = port\<rparr> = Inr (0, ctx, vips'')"
    by (rule vip_table.connect_no_panic [of _ _ ips]) simp
  ultimately show ?thesis unfolding vip_entry_targets by blast
qed

text \<open>A manager with an empty VIP map and nothing else, for the witnesses.\<close>

definition sample_object :: bpf_object where
  "sample_object = \<lparr>obj_container_route = Some Map.empty, obj_node_dynamic = None, obj_geneve_ifindex = None,
     obj_tunnel_cfg = None, obj_ringbuf = None, obj_programs = []\<rparr>"

definition sample_manager :: bpf_manager where
  "sample_manager = \<lparr>mesh = sample_object, fw = None, vip_obj = None,
     maps = \<lparr>container_route = Some Map.empty, node_dynamic = None, geneve_ifindex = None,
             tunnel_cfg_map = None, vip_map = Some Map.empty, acl_map = None, default_policy_map = None\<rparr>,
     pinned = False, ringbuf = None\<rparr>"

definition put :: "'v insert_fn" where
  "put m k v = Inr (m(k \<mapsto> v))"

lemma put_ok [simp]: "insert_ok put" "update_ok put"
  by (simp_all add: insert_ok_def update_ok_def put_def)

lemma vip_entry_reverses_backends_witness:
  "\<exists>b' vips vips'. update_bpf_vip put (Ipv4 10 100 0 50) [Ipv4 10 244 0 10, Ipv4 10 244 1 10] sample_manager = Inr b' \<and>
     vip_map (maps b') = Some vips \<and>
     vip_run put 2 (net_u32 (Ipv4 50 0 100 10)) 443 vips =
       Inr ([(0, \<lparr>user_ip = net_u32 (Ipv4 10 0 244 10), user_port = 0\<rparr>),
             (0, \<lparr>user_ip = net_u32 (Ipv4 10 1 244 10), user_port = 0\<rparr>)], vips')"
proof -
  let ?ips = "[Ipv4 10 244 0 10, Ipv4 10 244 1 10]"
  obtain b' where b': "update_bpf_vip put (Ipv4 10 100 0 50) ?ips sample_manager = Inr b'"
    by (simp add: update_bpf_vip_def sample_manager_def put_def)
  have "vip_map (maps sample_manager) = Some Map.empty" by (simp add: sample_manager_def)
  from vip_entry_reverses_backends [OF put_ok(2,1) this b', of 443 put] b' show ?thesis
    by (auto simp: numeral_2_eq_2)
qed

section \<open>Probing and health\<close>

lemma fst_probe_vip [simp]: "fst (probe_vip ins connect vip s) = fst s"
  by (cases s) (simp add: probe_vip_def split: option.split sum.split)

lemma fst_probe_round [simp]: "fst (probe_round ins connect vips s) = fst s"
  unfolding probe_round_def by (induction vips arbitrary: s) simp_all

lemma fst_probe_rounds:
  "fst (fold (\<lambda>(connect, vips). probe_round ins connect vips) rounds s) = fst s"
  by (induction rounds arbitrary: s) (simp_all add: case_prod_beta)

text \<open>The backends the configuration lists for a VIP: those of its last entry, without the
  ones that are not an IPv4 address.\<close>

definition configured :: "agent_config \<Rightarrow> string \<Rightarrow> ipv4 list" where
  "configured c vip =
     (case filter (\<lambda>vc. vbc_vip vc = vip) (vip_backends c) of
        [] \<Rightarrow> []
      | es \<Rightarrow> map fst (List.map_filter parse_backend (vbc_backends (last es))))"

lemma get_alive_set_backends:
  "get_alive vip (set_backends vip' bs m) = (if vip = vip' then map fst bs else get_alive vip m)"
  by (simp add: get_alive_def set_backends_def comp_def case_prod_beta filter_map)

lemma get_alive_foldl:
  "get_alive vip (foldl (\<lambda>m vc. set_backends (vbc_vip vc) (List.map_filter parse_backend (vbc_backends vc)) m) m es) =
     (case filter (\<lambda>vc. vbc_vip vc = vip) es of
        [] \<Rightarrow> get_alive vip m
      | es' \<Rightarrow> map fst (List.map_filter parse_backend (vbc_backends (last es'))))"
proof (induction es rule: rev_induct)
  case (snoc e es)
  then show ?case
    by (cases "filter (\<lambda>vc. vbc_vip vc = vip) es") (auto simp: get_alive_set_backends)
qed simp

lemma get_alive_init: "get_alive vip (init_backends c new_monitor) = configured c vip"
  by (simp add: init_backends_def get_alive_foldl configured_def)
    (simp add: get_alive_def new_monitor_def split: list.split)

text \<open>
  C31. The probes never change the recorded health: after any number of rounds, whatever
  the connection attempts returned, the live backends of a VIP are all the backends its
  configuration lists, dead ones included, in the order of the configuration.
\<close>

theorem probing_keeps_all_backends:
  "get_alive vip (fst (probe_loop ins c rounds (new_monitor, b))) = configured c vip"
  by (simp add: probe_loop_def fst_probe_rounds get_alive_init)

lemma snd_probe_vip_no_map: "vip_map (maps (snd s)) = None \<Longrightarrow> snd (probe_vip ins connect vip s) = snd s"
  by (cases s) (simp add: probe_vip_def update_bpf_vip_def split: option.split)

lemma snd_probe_round_no_map: "vip_map (maps (snd s)) = None \<Longrightarrow> snd (probe_round ins connect vips s) = snd s"
  unfolding probe_round_def by (induction vips arbitrary: s) (simp_all add: snd_probe_vip_no_map)

text \<open>
  An agent started by the loader never writes a VIP entry: \<open>load\<close> leaves the handle of
  the VIP map empty, and with it every round of the probe loop leaves the manager as it was.
\<close>

lemma loaded_agent_never_fills_vip_map:
  assumes "load load_file = Inr b"
  shows "snd (probe_loop ins c rounds (m, b)) = b"
proof -
  have "snd (fold (\<lambda>(connect, vips). probe_round ins connect vips) rounds s) = snd s"
    if "vip_map (maps (snd s)) = None" for s
    using that by (induction rounds arbitrary: s) (simp_all add: case_prod_beta snd_probe_round_no_map)
  with assms show ?thesis by (simp add: probe_loop_def)
qed

section \<open>The key of an entry\<close>

text \<open>
  C35. The key the agent writes is the address in host order, and the program looks it up in
  network order: writing the entry of a VIP changes nothing for the connections to that VIP, unless
  the four bytes of its address read the same in both directions. A connection to it finds
  what the table held before under the byte-reversed address; when that is nothing, its
  destination and the table are left as they were.
\<close>

theorem vip_connections_miss_the_entry:
  assumes "insert_ok ins" and "vip_map (maps b) = Some m"
    and "update_bpf_vip ins vip_ip ips b = Inr b'" and "octets vip_ip \<noteq> rev (octets vip_ip)"
  shows "\<exists>vips. vip_map (maps b') = Some vips \<and> vips (net_u32 (rev_ipv4 vip_ip)) = Some (vip_entry ips) \<and>
    vips (net_u32 vip_ip) = m (net_u32 vip_ip) \<and>
    (m (net_u32 vip_ip) = None \<longrightarrow>
       vip_load_balance kernel_ins vips \<lparr>user_ip = net_u32 vip_ip, user_port = port\<rparr> =
         Inr (0, \<lparr>user_ip = net_u32 vip_ip, user_port = port\<rparr>, vips))"
proof -
  let ?vips = "m(u32_of_ipv4 vip_ip \<mapsto> vip_entry ips)"
  have "vip_map (maps b') = Some ?vips"
    using assms(1-3) by (auto simp: update_bpf_vip_def and_then_Inr_iff insert_ok_def)
  moreover have "?vips (net_u32 vip_ip) = m (net_u32 vip_ip)"
    using assms(4) by (simp add: net_u32_eq_iff)
  moreover have "?vips (net_u32 (rev_ipv4 vip_ip)) = Some (vip_entry ips)"
    by (simp add: u32_of_ipv4_net)
  ultimately show ?thesis
    by (intro exI [of _ ?vips]) (simp add: vip_load_balance_def try_vip_def)
qed

lemma vip_connections_miss_the_entry_witness:
  "\<exists>b' vips. update_bpf_vip put (Ipv4 10 100 0 50) [Ipv4 10 244 0 10] sample_manager = Inr b' \<and>
     vip_map (maps b') = Some vips \<and>
     vip_load_balance put vips \<lparr>user_ip = net_u32 (Ipv4 10 100 0 50), user_port = 443\<rparr> =
       Inr (0, \<lparr>user_ip = net_u32 (Ipv4 10 100 0 50), user_port = 443\<rparr>, vips)"
proof -
  obtain b' where b': "update_bpf_vip put (Ipv4 10 100 0 50) [Ipv4 10 244 0 10] sample_manager = Inr b'"
    by (simp add: update_bpf_vip_def sample_manager_def put_def)
  have "vip_map (maps sample_manager) = Some Map.empty" by (simp add: sample_manager_def)
  from vip_connections_miss_the_entry [OF put_ok(1) this b', of put 443] b' show ?thesis by auto
qed

end
