(* ===== verification/Protocol.thy ===== *)
theory Protocol
  imports Common
begin

text \<open>
  \<open>agent/src/protocol.rs\<close>: the authenticated UDP protocol. A datagram is a 16-byte header
  (send time, nonce), a payload and a 32-byte HMAC over both. \<open>marshal\<close> builds one,
  \<open>recv\<close> skips datagrams until one passes the size, HMAC, time-window and nonce checks,
  \<open>recv_loop\<close> dispatches the payload.

  The \<open>hmac\<close>/\<open>sha2\<close> crates and \<open>serde_json\<close> are parameters (\<open>hmac_api\<close>, \<open>json_api\<close>); the
  socket is the list of datagrams it will deliver, each with the clock reading made while
  it is checked; random nonces and the clock of the sender are arguments.
\<close>

section \<open>Parameters\<close>

record hmac_api =
  hmac_finalize :: "bytes \<Rightarrow> bytes \<Rightarrow> bytes"
  hmac_verify_slice :: "bytes \<Rightarrow> bytes \<Rightarrow> bytes \<Rightarrow> bool"

text \<open>HMAC-SHA256 as documented: tags of 32 bytes, and \<open>verify_slice\<close> accepts the tag only.\<close>

definition hmac_ok :: "hmac_api \<Rightarrow> bool" where
  "hmac_ok h \<longleftrightarrow>
     (\<forall>k d. length (hmac_finalize h k d) = HMAC_SIZE) \<and>
     (\<forall>k d s. hmac_verify_slice h k d s \<longleftrightarrow> s = hmac_finalize h k d)"

text \<open>\<open>serde_json\<close>: parse a slice to a value, and read a string member of a value.\<close>

record 'j json_api =
  from_slice :: "bytes \<Rightarrow> 'j res"
  get_str :: "'j \<Rightarrow> string \<Rightarrow> string option"

section \<open>State and operations\<close>

record udp_protocol =
  psk :: bytes
  nonces :: "(string \<times> u64) list"

definition bind :: "bytes \<Rightarrow> udp_protocol" where
  "bind key = \<lparr>psk = key, nonces = []\<rparr>"

text \<open>\<open>UdpProtocol::bind\<close>; \<open>bind_socket\<close> is the bind call of the socket.\<close>

definition bind_udp :: "(string \<Rightarrow> unit res) \<Rightarrow> u16 \<Rightarrow> string \<Rightarrow> udp_protocol res" where
  "bind_udp bind_socket port key =
     and_then (bind_socket (''0.0.0.0:'' @ dec (unat port))) (\<lambda>_. Inr (bind (as_bytes key)))"

definition sign :: "hmac_api \<Rightarrow> udp_protocol \<Rightarrow> bytes \<Rightarrow> bytes" where
  "sign h p data = hmac_finalize h (psk p) data"

definition verify :: "hmac_api \<Rightarrow> udp_protocol \<Rightarrow> bytes \<Rightarrow> bytes \<Rightarrow> bool" where
  "verify h p data sig = hmac_verify_slice h (psk p) data sig"

text \<open>\<open>to_vec\<close> is the serializer; a value it rejects is sent as an empty payload.\<close>

definition marshal ::
    "hmac_api \<Rightarrow> udp_protocol \<Rightarrow> ('m \<Rightarrow> bytes res) \<Rightarrow> u64 \<Rightarrow> bytes \<Rightarrow> 'm \<Rightarrow> bytes" where
  "marshal h p to_vec now nonce_bytes msg =
     (let payload = (case to_vec msg of Inl _ \<Rightarrow> [] | Inr v \<Rightarrow> v);
          header = u64_to_be_bytes now @ nonce_bytes;
          signed = header @ payload
      in signed @ sign h p signed)"

text \<open>\<open>send\<close> is \<open>send_to\<close> of the socket.\<close>

definition send_to ::
    "hmac_api \<Rightarrow> (bytes \<Rightarrow> socket_addr \<Rightarrow> unit res) \<Rightarrow> udp_protocol \<Rightarrow> ('m \<Rightarrow> bytes res) \<Rightarrow> u64 \<Rightarrow> bytes \<Rightarrow>
     'm \<Rightarrow> socket_addr \<Rightarrow> unit res" where
  "send_to h send p to_vec now nonce_bytes msg addr = send (marshal h p to_vec now nonce_bytes msg) addr"

definition nonce_text :: "bytes \<Rightarrow> string" where
  "nonce_text header = concat (map hex02 (take 8 (drop 8 header)))"

definition header_ts :: "bytes \<Rightarrow> u64" where
  "header_ts header = u64_from_be_bytes (take 8 header)"

definition check_nonce :: "u64 \<Rightarrow> bytes \<Rightarrow> udp_protocol \<Rightarrow> bool \<times> udp_protocol" where
  "check_nonce now header p =
     (if abs_diff (header_ts header) now > REPLAY_WINDOW_SECS then (False, p)
      else
        let cutoff = saturating_sub now REPLAY_WINDOW_SECS;
            kept = filter (\<lambda>(_, t). t > cutoff) (nonces p)
        in if list_ex (\<lambda>(n, _). n = nonce_text header) kept
           then (False, p\<lparr>nonces := kept\<rparr>)
           else (True, p\<lparr>nonces := kept @ [(nonce_text header, now)]\<rparr>))"

datatype sock_event = Datagram bytes socket_addr | SockError string

datatype recv_result = Received nat socket_addr | RecvError string | Waiting

text \<open>\<open>recv_from\<close> writes the datagram over the front of the buffer, cut at its end.\<close>

definition write_buf :: "bytes \<Rightarrow> bytes \<Rightarrow> bytes" where
  "write_buf d buf = take (length buf) d @ drop (length d) buf"

definition MAX_RECV_ATTEMPTS :: nat where
  [struct_defs]: "MAX_RECV_ATTEMPTS = 16"

text \<open>The checks of one round of the loop on the \<open>n\<close> bytes at the front of the buffer: too
  short, bad HMAC, replayed or stale, or accepted.\<close>

definition recv_check :: "hmac_api \<Rightarrow> u64 \<Rightarrow> bytes \<Rightarrow> nat \<Rightarrow> udp_protocol \<Rightarrow> bool \<times> udp_protocol" where
  "recv_check h now buf n p =
     (if n < MIN_MESSAGE_SIZE then (False, p)
      else
        let header = take HEADER_SIZE buf;
            payload = drop HEADER_SIZE (take (n - HMAC_SIZE) buf);
            sig = drop (n - HMAC_SIZE) (take n buf)
        in if \<not> verify h p (header @ payload) sig then (False, p)
           else check_nonce now header p)"

text \<open>
  \<open>recv h es attempts buf p\<close> runs the receive loop on the events \<open>es\<close> the socket delivers,
  each paired with the clock reading of its check. The result holds the outcome
  (\<open>Waiting\<close>: the socket has delivered all of \<open>es\<close> and the call still waits), the
  buffer, the protocol state, the events not consumed, and how often the task yielded.
\<close>

fun recv ::
    "hmac_api \<Rightarrow> (u64 \<times> sock_event) list \<Rightarrow> nat \<Rightarrow> bytes \<Rightarrow> udp_protocol \<Rightarrow>
     recv_result \<times> bytes \<times> udp_protocol \<times> (u64 \<times> sock_event) list \<times> nat" where
  "recv h es attempts buf p =
     (let (attempts, yields) =
            (if attempts + 1 > MAX_RECV_ATTEMPTS then (0, 1) else (attempts + 1, 0))
      in case es of
           [] \<Rightarrow> (Waiting, buf, p, [], yields)
         | (now, SockError e) # es \<Rightarrow> (RecvError e, buf, p, es, yields)
         | (now, Datagram d addr) # es \<Rightarrow>
             (let buf = write_buf d buf;
                  n = min (length d) (length buf);
                  (accepted, p) = recv_check h now buf n p
              in if accepted then (Received n addr, buf, p, es, yields)
                 else let (r, b, p', rest, y) = recv h es attempts buf p
                      in (r, b, p', rest, y + yields)))"

declare recv.simps [simp del]

datatype peer_event =
  PeerRegistration socket_addr | PeerQuery socket_addr | PeerAnnouncement socket_addr
  | UnknownType string | NoType | NotJson

text \<open>The payload part of \<open>recv_loop\<close>: what a received datagram makes the loop do. Every
  branch of the source only logs.\<close>

definition dispatch :: "'j json_api \<Rightarrow> bytes \<Rightarrow> nat \<Rightarrow> socket_addr \<Rightarrow> peer_event" where
  "dispatch j buf n addr =
     (case from_slice j (drop HEADER_SIZE (take (n - HMAC_SIZE) buf)) of
        Inl _ \<Rightarrow> NotJson
      | Inr msg \<Rightarrow>
          (case get_str j msg ''type'' of
             None \<Rightarrow> NoType
           | Some t \<Rightarrow>
               if t = ''register'' then PeerRegistration addr
               else if t = ''query'' then PeerQuery addr
               else if t = ''announce'' then PeerAnnouncement addr
               else UnknownType t))"

text \<open>One round of \<open>recv_loop\<close>: stop, or take what \<open>recv\<close> returned within its second
  (\<open>None\<close>: the timeout won the race), and dispatch it.\<close>

datatype loop_step = Stopped | TimedOut | Dispatched peer_event | Slept string

definition recv_loop_step ::
    "hmac_api \<Rightarrow> 'j json_api \<Rightarrow> bool \<Rightarrow> (u64 \<times> sock_event) list \<Rightarrow> bytes \<Rightarrow> udp_protocol \<Rightarrow>
     loop_step \<times> bytes \<times> udp_protocol \<times> (u64 \<times> sock_event) list" where
  "recv_loop_step h j stop es buf p =
     (if stop then (Stopped, buf, p, es)
      else case recv h es 0 buf p of
             (Received n addr, buf', p', rest, _) \<Rightarrow> (Dispatched (dispatch j buf' n addr), buf', p', rest)
           | (RecvError e, buf', p', rest, _) \<Rightarrow> (Slept e, buf', p', rest)
           | (Waiting, buf', p', rest, _) \<Rightarrow> (TimedOut, buf', p', rest))"

section \<open>The nonce table\<close>

text \<open>
  Every nonce is recorded once. \<open>remembered_at\<close> leaves out a record made at clock 0 (what
  \<open>unwrap_or_default\<close> gives for a clock before the epoch): the next check evicts it,
  whatever the clock then reads, because the eviction keeps times greater than a cutoff
  that is at least 0.
\<close>

definition nonces_ok :: "udp_protocol \<Rightarrow> bool" where
  "nonces_ok p \<longleftrightarrow> distinct (map fst (nonces p))"

definition nonce_at :: "udp_protocol \<Rightarrow> string \<Rightarrow> nat option" where
  "nonce_at p n = map_option unat (map_of (nonces p) n)"

definition remembered_at :: "udp_protocol \<Rightarrow> string \<Rightarrow> nat option" where
  "remembered_at p n = (case nonce_at p n of Some t \<Rightarrow> if 0 < t then Some t else None | None \<Rightarrow> None)"

lemma remembered_at_Some: "remembered_at p n = Some t \<longleftrightarrow> nonce_at p n = Some t \<and> 0 < t"
  by (auto simp: remembered_at_def split: option.splits)

lemma unat_saturating_sub: "unat (saturating_sub a b) = unat a - unat b"
  by (simp add: saturating_sub_def unat_sub_or_zero)

lemma unat_abs_diff: "unat (abs_diff a b) = (unat a - unat b) + (unat b - unat a)"
  by (auto simp: abs_diff_def unat_sub word_less_nat_alt word_le_nat_alt)

lemma kept_iff:
  "saturating_sub now REPLAY_WINDOW_SECS < t \<longleftrightarrow> 0 < unat t \<and> unat now < unat t + 300"
  by (auto simp: word_less_nat_alt unat_saturating_sub REPLAY_WINDOW_SECS_def)

text \<open>The three ways \<open>check_nonce\<close> can end.\<close>

definition in_window :: "u64 \<Rightarrow> bytes \<Rightarrow> bool" where
  "in_window now header \<longleftrightarrow>
     unat now \<le> unat (header_ts header) + 300 \<and> unat (header_ts header) \<le> unat now + 300"

definition kept_nonces :: "u64 \<Rightarrow> udp_protocol \<Rightarrow> (string \<times> u64) list" where
  "kept_nonces now p = filter (\<lambda>(_, t). 0 < unat t \<and> unat now < unat t + 300) (nonces p)"

lemma check_nonce_eq:
  "check_nonce now header p =
     (if \<not> in_window now header then (False, p)
      else if nonce_text header \<in> fst ` set (kept_nonces now p)
           then (False, p\<lparr>nonces := kept_nonces now p\<rparr>)
           else (True, p\<lparr>nonces := kept_nonces now p @ [(nonce_text header, now)]\<rparr>))"
proof -
  have window: "REPLAY_WINDOW_SECS < abs_diff (header_ts header) now \<longleftrightarrow> \<not> in_window now header"
    by (auto simp: word_less_nat_alt unat_abs_diff REPLAY_WINDOW_SECS_def in_window_def)
  have seen: "list_ex (\<lambda>(n, _). n = nonce_text header) xs \<longleftrightarrow> nonce_text header \<in> fst ` set xs"
    for xs :: "(string \<times> u64) list"
    by (force simp: list_ex_iff)
  have kept: "filter (\<lambda>(_, t). saturating_sub now REPLAY_WINDOW_SECS < t) (nonces p) = kept_nonces now p"
    by (simp add: kept_nonces_def kept_iff)
  show ?thesis by (simp only: check_nonce_def Let_def window seen kept)
qed

lemma distinct_kept: "distinct (map fst (nonces p)) \<Longrightarrow> distinct (map fst (kept_nonces now p))"
  by (simp add: kept_nonces_def distinct_map_filter)

lemma set_kept [simp]:
  "(n, t) \<in> set (kept_nonces now p) \<longleftrightarrow>
     (n, t) \<in> set (nonces p) \<and> 0 < unat t \<and> unat now < unat t + 300"
  by (auto simp: kept_nonces_def)

lemma nonce_at_kept:
  assumes "nonce_at p k = Some t0" and "0 < t0" and "unat now < t0 + 300"
  shows "\<exists>t. t0 = unat t \<and> (k, t) \<in> set (kept_nonces now p)"
proof -
  obtain t where t: "(k, t) \<in> set (nonces p)" "t0 = unat t"
    using assms(1) by (auto simp: nonce_at_def dest: map_of_SomeD)
  then show ?thesis using assms(2,3) by auto
qed

lemma check_nonce_keeps:
  assumes "nonces_ok p"
  shows "nonces_ok (snd (check_nonce now header p))"
  using assms distinct_kept [of p now]
  by (auto simp: check_nonce_eq nonces_ok_def)

lemma check_nonce_blocks:
  assumes "remembered_at p (nonce_text header) = Some t0" and "unat now < t0 + 300"
  shows "\<not> fst (check_nonce now header p)"
proof -
  have "nonce_text header \<in> fst ` set (kept_nonces now p)"
    using nonce_at_kept assms by (metis fst_conv image_eqI remembered_at_Some)
  then show ?thesis by (simp add: check_nonce_eq)
qed

lemma check_nonce_records:
  assumes "fst (check_nonce now header p)"
  shows "nonce_at (snd (check_nonce now header p)) (nonce_text header) = Some (unat now)"
proof -
  have fresh: "in_window now header" "nonce_text header \<notin> fst ` set (kept_nonces now p)"
    using assms by (auto simp: check_nonce_eq split: if_splits)
  then have "map_of (kept_nonces now p) (nonce_text header) = None"
    by (simp add: map_of_eq_None_iff)
  then show ?thesis using fresh by (simp add: check_nonce_eq nonce_at_def map_add_def)
qed

lemma check_nonce_remembers:
  assumes "nonces_ok p" and "remembered_at p k = Some t0" and "unat now < t0 + 300"
  shows "remembered_at (snd (check_nonce now header p)) k = Some t0"
proof (cases "in_window now header")
  case False
  with assms show ?thesis by (simp add: check_nonce_eq)
next
  case True
  let ?p = "snd (check_nonce now header p)"
  obtain t where t: "t0 = unat t" "(k, t) \<in> set (kept_nonces now p)"
    using nonce_at_kept assms by (metis remembered_at_Some)
  then have "(k, t) \<in> set (nonces ?p)" using True by (simp add: check_nonce_eq)
  moreover have "distinct (map fst (nonces ?p))"
    using check_nonce_keeps [OF assms(1)] by (simp add: nonces_ok_def)
  ultimately show ?thesis using t by (simp add: remembered_at_Some nonce_at_def)
qed

interpretation nonce_gate: window_gate check_nonce nonce_text remembered_at unat "\<lambda>now. 0 < now" 300 nonces_ok
proof unfold_locales
  fix p t and r :: bytes
  assume "0 < t" and "fst (check_nonce t r p)"
  then show "remembered_at (snd (check_nonce t r p)) (nonce_text r) = Some (unat t)"
    by (simp add: remembered_at_Some check_nonce_records word_less_nat_alt)
qed (simp_all add: check_nonce_blocks check_nonce_remembers check_nonce_keeps)

text \<open>
  C2. Replay protection: whatever headers arrive, in whatever order, if the clock never
  goes back then two headers that carry the same nonce and both pass \<open>check_nonce\<close> are
  at least 300 seconds apart on the receiver's clock, or the first of them passed at clock
  reading 0. The exception is real: a clock before the epoch is read as 0, and what passes
  then is not remembered (\<open>replay_accepted_at_clock_0\<close> below).
\<close>

theorem replays_are_window_apart:
  assumes "sorted (map (\<lambda>e. unat (fst e)) es)"
    and "i < j" and "j < length es"
    and "nonce_text (snd (es ! i)) = nonce_text (snd (es ! j))"
    and "fst (gate_run check_nonce es (bind key)) ! i"
    and "fst (gate_run check_nonce es (bind key)) ! j"
  shows "fst (es ! i) = 0 \<or> unat (fst (es ! i)) + 300 \<le> unat (fst (es ! j))"
  using assms nonce_gate.admissions_apart [of "bind key" es i j]
  by (auto simp: nonces_ok_def bind_def word_gt_0)

text \<open>A concrete header: sent at second \<open>ts\<close> with nonce bytes all equal to \<open>b\<close>.\<close>

definition sample_header :: "u64 \<Rightarrow> u8 \<Rightarrow> bytes" where
  "sample_header ts b = u64_to_be_bytes ts @ replicate 8 b"

lemma header_ts_sample [simp]: "header_ts (sample_header ts b) = ts"
  by (simp add: header_ts_def sample_header_def)

lemma nonce_text_sample [simp]: "nonce_text (sample_header ts b) = concat (replicate 8 (hex02 b))"
  by (simp add: nonce_text_def sample_header_def)

lemma replays_are_window_apart_witness:
  "fst (gate_run check_nonce
      [(1000, sample_header 1010 7), (1010, sample_header 1010 7), (1300, sample_header 1010 7)] (bind [])) =
     [True, False, True]"
proof -
  let ?es = "[(1000, sample_header 1010 7), (1010, sample_header 1010 7), (1300, sample_header 1010 7)] ::
    (u64 \<times> bytes) list"
  let ?out = "fst (gate_run check_nonce ?es (bind []))"
  have ends: "?out ! 0" "?out ! 2"
    by (auto simp: check_nonce_eq in_window_def kept_nonces_def bind_def)
  have "\<not> ?out ! 1"
    using replays_are_window_apart [of ?es 0 1 "[]"] ends(1) by auto
  moreover have "length ?out = 3"
    by (simp split: prod.splits)
  ultimately show ?thesis
    using ends by (auto simp: numeral_2_eq_2 numeral_3_eq_3 length_Suc_conv)
qed

text \<open>Before the epoch there is no replay protection: at clock reading 0 a header that passes
  passes again at once.\<close>

lemma replay_accepted_at_clock_0:
  assumes "fst (check_nonce 0 header p)"
  shows "fst (check_nonce 0 header (snd (check_nonce 0 header p)))"
proof -
  let ?q = "snd (check_nonce 0 header p)"
  have fresh: "in_window 0 header" "nonce_text header \<notin> fst ` set (kept_nonces 0 p)"
    and q: "nonces ?q = kept_nonces 0 p @ [(nonce_text header, 0)]"
    using assms by (auto simp: check_nonce_eq split: if_splits)
  then have "nonce_text header \<notin> fst ` set (kept_nonces 0 ?q)"
    by (auto simp: q image_iff)
  with fresh(1) show ?thesis by (simp add: check_nonce_eq)
qed

text \<open>
  The bound on replays is met exactly: a header that passed at second \<open>t\<close> and was not
  stamped in the past of the receiver passes again, unchanged, at second \<open>t + 300\<close>. The
  nonce is evicted by a strict comparison while the timestamp is still inside the
  (closed) window, so the replay window has a hole of its own.
\<close>

lemma replay_accepted_at_window_end:
  assumes "fst (check_nonce t header p)" and "t \<le> header_ts header" and "unat t + 300 < 2 ^ 64"
  shows "fst (check_nonce (t + 300) header (snd (check_nonce t header p)))"
proof -
  let ?q = "snd (check_nonce t header p)"
  have fresh: "in_window t header" "nonce_text header \<notin> fst ` set (kept_nonces t p)"
    and q: "nonces ?q = kept_nonces t p @ [(nonce_text header, t)]"
    using assms(1) by (auto simp: check_nonce_eq split: if_splits)
  have later: "unat (t + 300) = unat t + 300"
    using assms(3) by (simp add: unat_word_ariths)
  have "in_window (t + 300) header"
    using fresh(1) assms(2) by (auto simp: in_window_def later word_le_nat_alt)
  moreover have "nonce_text header \<notin> fst ` set (kept_nonces (t + 300) ?q)"
    using fresh(2) by (auto simp: q later image_iff)
  ultimately show ?thesis by (simp add: check_nonce_eq)
qed

section \<open>Receiving\<close>

text \<open>What the four checks of \<open>recv\<close> say of one datagram, cut at the buffer's length.\<close>

definition authentic :: "hmac_api \<Rightarrow> bytes \<Rightarrow> bytes \<Rightarrow> bool" where
  "authentic h key m \<longleftrightarrow>
     MIN_MESSAGE_SIZE \<le> length m \<and>
     drop (length m - HMAC_SIZE) m = hmac_finalize h key (take (length m - HMAC_SIZE) m)"

lemma length_write_buf [simp]: "length (write_buf d buf) = length buf"
  by (simp add: write_buf_def)

lemma take_write_buf [simp]:
  "k \<le> min (length d) (length buf) \<Longrightarrow> take k (write_buf d buf) = take k d"
  by (auto simp: write_buf_def min_def split: if_splits)

lemma take_write_buf_prefix:
  "take (min (length d) (length buf)) (write_buf d buf) = take (length buf) d"
  by (simp add: min_def)

lemma recv_check_eq:
  assumes "hmac_ok h" and "n \<le> length buf"
  shows "recv_check h now buf n p =
     (if authentic h (psk p) (take n buf) then check_nonce now (take HEADER_SIZE buf) p else (False, p))"
proof -
  have "take HEADER_SIZE buf @ drop HEADER_SIZE (take (n - HMAC_SIZE) buf) = take (n - HMAC_SIZE) buf"
    if "MIN_MESSAGE_SIZE \<le> n"
    using that append_take_drop_id [of HEADER_SIZE "take (n - HMAC_SIZE) buf"]
    by (simp add: struct_defs min_absorb1)
  then show ?thesis
    using assms by (auto simp: recv_check_def authentic_def verify_def hmac_ok_def min_def Let_def)
qed

text \<open>The part of the outcome that does not count yields.\<close>

lemma recv_Nil: "\<exists>y. recv h [] a buf p = (Waiting, buf, p, [], y)"
  by (simp add: recv.simps [of h "[]"] Let_def split: prod.splits)

lemma recv_SockError: "\<exists>y. recv h ((now, SockError e) # es) a buf p = (RecvError e, buf, p, es, y)"
  by (simp add: recv.simps [of h "_ # _"] Let_def split: prod.splits)

lemma recv_accepted:
  assumes "recv_check h now (write_buf d buf) (min (length d) (length buf)) p = (True, q)"
  shows "\<exists>y. recv h ((now, Datagram d addr) # es) a buf p =
    (Received (min (length d) (length buf)) addr, write_buf d buf, q, es, y)"
  using assms by (simp add: recv.simps [of h "_ # _"] Let_def split: prod.splits)

lemma recv_skipped:
  assumes "recv_check h now (write_buf d buf) (min (length d) (length buf)) p = (False, q)"
  shows "\<exists>a' y'. \<forall>r b p' rest y. recv h es a' (write_buf d buf) q = (r, b, p', rest, y) \<longrightarrow>
    recv h ((now, Datagram d addr) # es) a buf p = (r, b, p', rest, y + y')"
  using assms
  by (intro exI [of _ "if a + 1 > MAX_RECV_ATTEMPTS then 0 else a + 1"]
      exI [of _ "if a + 1 > MAX_RECV_ATTEMPTS then 1 else 0"])
    (simp add: recv.simps [of h "_ # _"])

lemma recv_skipped_inv:
  assumes "recv_check h now (write_buf d buf) (min (length d) (length buf)) p = (False, q)"
    and "recv h ((now, Datagram d addr) # es) a buf p = (r, b, p', rest, y)"
  shows "\<exists>a' y'. recv h es a' (write_buf d buf) q = (r, b, p', rest, y')"
proof -
  obtain a' k where step: "\<And>r b p' rest y. recv h es a' (write_buf d buf) q = (r, b, p', rest, y) \<Longrightarrow>
      recv h ((now, Datagram d addr) # es) a buf p = (r, b, p', rest, y + k)"
    using recv_skipped [OF assms(1), of es addr a] by blast
  obtain r1 b1 p1 rest1 y1 where "recv h es a' (write_buf d buf) q = (r1, b1, p1, rest1, y1)"
    by (rule prod_cases5)
  with step [OF this] assms(2) show ?thesis by auto
qed

lemma psk_check_nonce [simp]: "psk (snd (check_nonce now header p)) = psk p"
  by (simp add: check_nonce_eq)

lemma check_nonce_in_window: "fst (check_nonce now header p) \<Longrightarrow> in_window now header"
  by (simp add: check_nonce_eq split: if_splits)

lemma recv_check_datagram:
  assumes "hmac_ok h"
  shows "recv_check h now (write_buf d buf) (min (length d) (length buf)) p =
     (if authentic h (psk p) (take (length buf) d)
      then check_nonce now (take HEADER_SIZE (write_buf d buf)) p else (False, p))"
  by (simp only: recv_check_eq [OF assms] length_write_buf min.cobounded2 take_write_buf_prefix)

text \<open>
  C1. \<open>recv\<close> returns authenticated, timely datagrams only: when it returns \<open>n\<close> bytes from
  \<open>addr\<close>, they are a datagram the socket delivered from \<open>addr\<close> (cut at the buffer), at
  least 48 bytes long, whose last 32 bytes are the HMAC under the shared key of all the
  bytes before them, and whose timestamp is within 300 seconds of the clock.
\<close>

theorem recv_authenticated:
  assumes "hmac_ok h" and "recv h es a buf p = (Received n addr, buf', q, rest, y)"
  shows "\<exists>now d. (now, Datagram d addr) \<in> set es \<and> take n buf' = take (length buf) d \<and>
     n = min (length d) (length buf) \<and> authentic h (psk p) (take n buf') \<and>
     in_window now (take HEADER_SIZE buf')"
  using assms(2)
proof (induction es arbitrary: a buf p y)
  case Nil
  then show ?case using recv_Nil [of h a buf p] by auto
next
  case (Cons e es)
  obtain now ev where e: "e = (now, ev)" by (cases e)
  show ?case
  proof (cases ev)
    case (SockError msg)
    then show ?thesis using Cons.prems recv_SockError [of h now msg es a buf p] by (auto simp: e)
  next
    case (Datagram d from_addr)
    let ?chk = "recv_check h now (write_buf d buf) (min (length d) (length buf)) p"
    show ?thesis
    proof (cases "fst ?chk")
      case True
      then obtain q' where "?chk = (True, q')" by (cases ?chk) simp
      then have got: "n = min (length d) (length buf)" "addr = from_addr" "buf' = write_buf d buf"
        using Cons.prems recv_accepted [of h now d buf p q' from_addr es a] by (auto simp: e Datagram)
      have "authentic h (psk p) (take (length buf) d)" "in_window now (take HEADER_SIZE (write_buf d buf))"
        using True by (auto simp: recv_check_datagram [OF assms(1)] check_nonce_in_window split: if_splits)
      then show ?thesis
        using got by (intro exI [of _ now] exI [of _ d]) (simp add: e Datagram take_write_buf_prefix)
    next
      case False
      then obtain q' where q': "?chk = (False, q')" by (cases ?chk) simp
      then have "psk q' = psk p"
        by (metis recv_check_datagram [OF assms(1)] psk_check_nonce snd_conv)
      moreover obtain a' y' where "recv h es a' (write_buf d buf) q' = (Received n addr, buf', q, rest, y')"
        using recv_skipped_inv [OF q' Cons.prems [unfolded e Datagram]] by blast
      note Cons.IH [OF this]
      ultimately show ?thesis by (auto simp: e)
    qed
  qed
qed

text \<open>A concrete tag function with the documented behaviour, for the witnesses.\<close>

definition sample_hmac :: hmac_api where
  "sample_hmac =
     \<lparr>hmac_finalize = (\<lambda>k d. replicate 32 (sum_list k + sum_list d)),
      hmac_verify_slice = (\<lambda>k d s. s = replicate 32 (sum_list k + sum_list d))\<rparr>"

lemma sample_hmac_ok [simp]: "hmac_ok sample_hmac"
  by (simp add: hmac_ok_def sample_hmac_def HMAC_SIZE_def)

lemma recv_authenticated_witness:
  "let m = [0, 0, 0, 0, 0, 0, 0, 200] @ replicate 8 3 @ [7, 8] @ replicate 32 (244 :: u8);
       addr = SocketV4 (Ipv4 10 0 0 9) 9527
   in \<exists>buf' q y. recv sample_hmac [(200, Datagram m addr)] 0 (replicate 60 0) (bind [5]) =
        (Received 50 addr, buf', q, [], y) \<and> authentic sample_hmac [5] (take 50 buf')"
proof -
  define m addr where m: "m = [0, 0, 0, 0, 0, 0, 0, 200] @ replicate 8 3 @ [7, 8] @ replicate 32 (244 :: u8)"
    and addr: "addr = SocketV4 (Ipv4 10 0 0 9) 9527"
  have "authentic sample_hmac [5] m"
    by (simp add: authentic_def sample_hmac_def struct_defs m sum_list_replicate)
  moreover have "fst (check_nonce 200 (take HEADER_SIZE m) (bind [5]))"
    by (simp add: check_nonce_eq in_window_def header_ts_def kept_nonces_def bind_def struct_defs m
        u64_from_be_bytes_def be_val_def)
  ultimately have "\<exists>q. recv_check sample_hmac 200 (write_buf m (replicate 60 0))
      (min (length m) (length (replicate 60 (0 :: u8)))) (bind [5]) = (True, q)"
    unfolding recv_check_datagram [OF sample_hmac_ok]
    by (cases "check_nonce 200 (take HEADER_SIZE m) (bind [5])") (simp add: m bind_def struct_defs)
  then obtain buf' q y where r: "recv sample_hmac [(200, Datagram m addr)] 0 (replicate 60 0) (bind [5]) =
        (Received 50 addr, buf', q, [], y)"
    using recv_accepted [of sample_hmac 200 m "replicate 60 0" "bind [5]" _ addr "[]" 0] by (fastforce simp: m)
  then show ?thesis
    using recv_authenticated [OF sample_hmac_ok r] by (auto simp: m addr bind_def Let_def)
qed

lemma recv_forged_prefix:
  assumes "hmac_ok h" and "\<forall>(now, ev) \<in> set junk. \<exists>d addr. ev = Datagram d addr \<and>
      \<not> authentic h (psk p) (take (length buf) d)"
  shows "\<exists>a' buf' k. length buf' = length buf \<and>
    (\<forall>r b p' rest y. recv h es a' buf' p = (r, b, p', rest, y) \<longrightarrow>
       recv h (junk @ es) a buf p = (r, b, p', rest, y + k))"
  using assms(2)
proof (induction junk arbitrary: a buf)
  case Nil
  show ?case by (intro exI [of _ a] exI [of _ buf] exI [of _ 0]) simp
next
  case (Cons e junk)
  obtain now d addr where e: "e = (now, Datagram d addr)"
    and bad: "\<not> authentic h (psk p) (take (length buf) d)"
    using Cons.prems by (cases e) auto
  have chk: "recv_check h now (write_buf d buf) (min (length d) (length buf)) p = (False, p)"
    using bad by (simp add: recv_check_datagram [OF assms(1)])
  obtain a1 k1 where step: "\<And>r b p' rest y. recv h (junk @ es) a1 (write_buf d buf) p = (r, b, p', rest, y) \<Longrightarrow>
      recv h (e # junk @ es) a buf p = (r, b, p', rest, y + k1)"
    using recv_skipped [OF chk, of "junk @ es" addr a] unfolding e by blast
  obtain a2 b2 k2 where "length b2 = length (write_buf d buf)"
    and more: "\<And>r b p' rest y. recv h es a2 b2 p = (r, b, p', rest, y) \<Longrightarrow>
      recv h (junk @ es) a1 (write_buf d buf) p = (r, b, p', rest, y + k2)"
    using Cons.IH [of "write_buf d buf" a1] Cons.prems by auto
  then show ?case
    using step [OF more]
    by (intro exI [of _ a2] exI [of _ b2] exI [of _ "k2 + k1"]) (simp add: add.assoc)
qed

text \<open>
  C33. Forged datagrams have no effect: as long as the socket delivers datagrams that are
  too short or whose HMAC does not verify, \<open>recv\<close> keeps waiting and the protocol state,
  the nonce table included, is unchanged.
\<close>

theorem recv_ignores_forgeries:
  assumes "hmac_ok h" and "\<forall>(now, ev) \<in> set es. \<exists>d addr. ev = Datagram d addr \<and>
      \<not> authentic h (psk p) (take (length buf) d)"
  shows "fst (recv h es a buf p) = Waiting \<and> fst (snd (snd (recv h es a buf p))) = p"
proof -
  obtain a' buf' k where more: "\<And>r b p' rest y. recv h [] a' buf' p = (r, b, p', rest, y) \<Longrightarrow>
      recv h (es @ []) a buf p = (r, b, p', rest, y + k)"
    using recv_forged_prefix [OF assms, of "[]" a] by blast
  obtain y where "recv h [] a' buf' p = (Waiting, buf', p, [], y)"
    using recv_Nil [of h a' buf' p] by blast
  from more [OF this] show ?thesis by simp
qed

lemma recv_ignores_forgeries_witness:
  "fst (recv sample_hmac [(1000, Datagram (replicate 60 1) (SocketV4 (Ipv4 10 0 0 9) 9527))] 0
     (replicate 100 0) (bind [5])) = Waiting"
proof -
  have "\<not> authentic sample_hmac (psk (bind [5])) (take (length (replicate 100 (0 :: u8))) (replicate 60 1))"
    by (simp add: authentic_def sample_hmac_def bind_def struct_defs sum_list_replicate)
  then show ?thesis
    using recv_ignores_forgeries [of sample_hmac
        "[(1000, Datagram (replicate 60 1) (SocketV4 (Ipv4 10 0 0 9) 9527))]" "bind [5]" "replicate 100 0" 0]
    by auto
qed

lemma marshal_parts:
  assumes "to_vec msg = Inr payload"
  shows "marshal h q to_vec ts nonce msg =
    (u64_to_be_bytes ts @ nonce) @ payload @ hmac_finalize h (psk q) ((u64_to_be_bytes ts @ nonce) @ payload)"
  using assms by (simp add: marshal_def sign_def Let_def)

lemma marshal_authentic:
  assumes "hmac_ok h" and "length nonce = 8" and "to_vec msg = Inr payload"
  shows "authentic h (psk q) (marshal h q to_vec ts nonce msg)"
    and "length (marshal h q to_vec ts nonce msg) = MIN_MESSAGE_SIZE + length payload"
  using assms by (simp_all add: marshal_parts authentic_def struct_defs hmac_ok_def)

text \<open>
  C10. Delivery and round trip: a message that a peer with the same key marshals is
  returned by \<open>recv\<close> after any number of forged datagrams, provided it fits the buffer,
  its timestamp is within the window and its nonce is not in the table; the bytes
  between the header and the HMAC, which \<open>recv_loop\<close> hands to the JSON parser, are
  exactly the payload that was sent, and the datagrams behind it are not consumed.
\<close>

theorem marshal_recv_roundtrip:
  assumes h: "hmac_ok h" and nonce: "length nonce = 8" and ser: "to_vec msg = Inr payload"
    and key: "psk q = psk p" and fits: "MIN_MESSAGE_SIZE + length payload \<le> length buf"
    and junk: "\<forall>(now, ev) \<in> set junk. \<exists>d addr. ev = Datagram d addr \<and>
      \<not> authentic h (psk p) (take (length buf) d)"
    and window: "in_window now (u64_to_be_bytes ts @ nonce)"
    and fresh: "nonce_text (u64_to_be_bytes ts @ nonce) \<notin> fst ` set (nonces p)"
  shows "\<exists>buf' p' y. recv h (junk @ (now, Datagram (marshal h q to_vec ts nonce msg) addr) # rest) a buf p =
      (Received (MIN_MESSAGE_SIZE + length payload) addr, buf', p', rest, y) \<and>
    drop HEADER_SIZE (take (MIN_MESSAGE_SIZE + length payload - HMAC_SIZE) buf') = payload \<and>
    nonce_at p' (nonce_text (u64_to_be_bytes ts @ nonce)) = Some (unat now)"
proof -
  let ?m = "marshal h q to_vec ts nonce msg" and ?hd = "u64_to_be_bytes ts @ nonce"
  let ?n = "MIN_MESSAGE_SIZE + length payload"
  note parts = marshal_parts [where to_vec = to_vec and msg = msg, OF ser]
  obtain a1 b1 k1 where b1: "length b1 = length buf"
    and more: "\<And>r b p' r' y. recv h ((now, Datagram ?m addr) # rest) a1 b1 p = (r, b, p', r', y) \<Longrightarrow>
      recv h (junk @ (now, Datagram ?m addr) # rest) a buf p = (r, b, p', r', y + k1)"
    using recv_forged_prefix [OF h junk, of "(now, Datagram ?m addr) # rest" a] by blast
  have len: "length ?m = ?n" and auth: "authentic h (psk p) ?m"
    using marshal_authentic [where to_vec = to_vec and msg = msg and q = q, OF h nonce ser] key by simp_all
  have hd: "take HEADER_SIZE (write_buf ?m b1) = ?hd"
    using fits b1 nonce by (simp add: len struct_defs) (simp add: parts)
  have ok: "fst (check_nonce now ?hd p)"
    using window fresh by (auto simp: check_nonce_eq kept_nonces_def)
  have "recv_check h now (write_buf ?m b1) (min (length ?m) (length b1)) p = check_nonce now ?hd p"
    unfolding recv_check_datagram [OF h] hd using auth fits b1 by (simp add: len)
  then have "recv_check h now (write_buf ?m b1) (min (length ?m) (length b1)) p = (True, snd (check_nonce now ?hd p))"
    using ok by (metis prod.collapse)
  from recv_accepted [OF this] obtain y where "recv h ((now, Datagram ?m addr) # rest) a1 b1 p =
      (Received ?n addr, write_buf ?m b1, snd (check_nonce now ?hd p), rest, y)"
    using len fits b1 by (metis min.absorb1)
  from more [OF this] have "recv h (junk @ (now, Datagram ?m addr) # rest) a buf p =
      (Received ?n addr, write_buf ?m b1, snd (check_nonce now ?hd p), rest, y + k1)" .
  moreover have "drop HEADER_SIZE (take (?n - HMAC_SIZE) (write_buf ?m b1)) = payload"
    using fits b1 nonce by (simp add: len struct_defs) (simp add: parts)
  ultimately show ?thesis using check_nonce_records [OF ok] by blast
qed

lemma marshal_recv_roundtrip_witness:
  "\<exists>buf' p' y. recv sample_hmac
      [(1000, Datagram (marshal sample_hmac (bind [5]) Inr 990 (replicate 8 3) [7, 8]) (SocketV4 (Ipv4 10 0 0 9) 9527))]
      0 (replicate 100 0) (bind [5]) = (Received 50 (SocketV4 (Ipv4 10 0 0 9) 9527), buf', p', [], y) \<and>
    drop HEADER_SIZE (take 18 buf') = [7, 8]"
  using marshal_recv_roundtrip [of sample_hmac "replicate 8 3" Inr "[7, 8]" "[7, 8]" "bind [5]" "bind [5]"
      "replicate 100 0" "[]" 1000 990 "SocketV4 (Ipv4 10 0 0 9) 9527" "[]" 0]
  by (auto simp: struct_defs bind_def in_window_def header_ts_def)

end
