(* ===== verification/Accept.thy ===== *)
theory Accept
  imports P2P_Prelude
begin

text \<open>
  The accept loops of the agent's two TCP servers (\<open>api_server\<close> of \<open>agent/src/api.rs\<close> and
  \<open>serve\<close> of \<open>agent/src/metrics.rs\<close>): a round waits for a connection or for the interrupt
  signal and hands an accepted connection to a task of its own. The locale states what a round
  promises; \<open>Api\<close> and \<open>Metrics\<close> interpret it, and the whole loop is described once.
\<close>

datatype 'c accept_event = Accepted 'c | AcceptError string | CtrlC

text \<open>The rounds of a loop: each with the stop flag as it is read after the accept, and the
  event. The result is the list of connections handed to tasks.\<close>

primrec serve_run :: "(bool \<Rightarrow> 'c accept_event \<Rightarrow> bool \<times> 'c option) \<Rightarrow> (bool \<times> 'c accept_event) list \<Rightarrow> 'c list" where
  "serve_run step [] = []"
| "serve_run step (r # rounds) =
     (let (goes_on, c) = step (fst r) (snd r)
      in (case c of None \<Rightarrow> [] | Some c \<Rightarrow> [c]) @ (if goes_on then serve_run step rounds else []))"

text \<open>What a server owes its clients: every connection that is accepted before the stop.\<close>

definition served :: "(bool \<times> 'c accept_event) list \<Rightarrow> 'c list" where
  "served rounds =
     List.map_filter (\<lambda>r. case snd r of Accepted c \<Rightarrow> Some c | _ \<Rightarrow> None)
       (takeWhile (\<lambda>r. \<not> fst r \<and> snd r \<noteq> CtrlC) rounds)"

locale accept_server =
  fixes round :: "bool \<Rightarrow> 'c accept_event \<Rightarrow> bool \<times> 'c option"
  assumes stops: "round True ev = (False, None)"
    and interrupted: "round stop CtrlC = (False, None)"
    and serves: "round False (Accepted c) = (True, Some c)"
    and tolerates: "round False (AcceptError m) = (True, None)"
begin

lemma serve_run_served: "serve_run round rounds = served rounds"
proof (induction rounds)
  case (Cons r rounds)
  obtain stop ev where r: "r = (stop, ev)" by fastforce
  show ?case
  proof (cases stop)
    case True
    then show ?thesis by (simp add: r stops served_def map_filter_simps)
  next
    case False
    with Cons.IH show ?thesis
      by (cases ev) (simp_all add: r interrupted serves tolerates served_def map_filter_simps)
  qed
qed (simp add: served_def map_filter_simps)

lemma nothing_after_stop: "stop \<or> ev = CtrlC \<Longrightarrow> serve_run round (before @ (stop, ev) # after) = serve_run round before"
proof -
  let ?live = "\<lambda>r. \<not> fst r \<and> snd r \<noteq> CtrlC"
  assume "stop \<or> ev = CtrlC"
  then have "takeWhile ?live (before @ (stop, ev) # after) = takeWhile ?live before"
    by (auto simp: takeWhile_append takeWhile_eq_all_conv [THEN iffD2])
  then show ?thesis by (simp add: serve_run_served served_def)
qed

end

end
