(* ===== verification/Api.thy ===== *)
theory Api
  imports Bpf Protocol Accept
begin

text \<open>
  \<open>agent/src/api.rs\<close>: the container table, address allocation and the HTTP handler the CNI
  plugin talks to. A connection is the bytes the peer sends before it closes or resets it;
  \<open>serde_json\<close> is the parameter of \<open>Protocol\<close>. The mutex around the BPF manager carries the
  poison flag of \<open>std::sync::Mutex\<close>: a panic inside the critical section sets it, and
  every later \<open>lock()\<close> returns an error. \<open>checks\<close> tells whether the build has arithmetic
  overflow checks (debug) or wraps (release).
\<close>

section \<open>State\<close>

record container_info =
  ci_container_id :: string
  ci_ip :: string
  ci_host_iface :: string

type_synonym containers = "string \<rightharpoonup> container_info"

record bpf_mutex =
  guarded :: bpf_manager
  poisoned :: bool

record api_state =
  containers :: containers
  bpf :: bpf_mutex

section \<open>Container manager\<close>

definition add :: "string \<Rightarrow> string \<Rightarrow> string \<Rightarrow> containers \<Rightarrow> containers" where
  "add container_id ip iface m =
     m(container_id \<mapsto> \<lparr>ci_container_id = container_id, ci_ip = ip, ci_host_iface = iface\<rparr>)"

definition remove :: "string \<Rightarrow> containers \<Rightarrow> containers" where
  "remove container_id m = m(container_id := None)"

definition recovered :: "u32 \<Rightarrow> container_info res" where
  "recovered ip =
     (let cid = ''recovered-'' @ show_ipv4 (ipv4_of_u32 ip)
      in and_then (slice_to cid (min (length cid) 8)) (\<lambda>short.
           Inr \<lparr>ci_container_id = cid, ci_ip = show_ipv4 (ipv4_of_u32 ip), ci_host_iface = ''veth-'' @ short\<rparr>))"

primrec recover_ips :: "u32 list \<Rightarrow> containers \<Rightarrow> containers res" where
  "recover_ips [] m = Inr m"
| "recover_ips (ip # ips) m =
     and_then (recovered ip) (\<lambda>info. recover_ips ips (m(ci_container_id info \<mapsto> info)))"

definition recover_from_bpf :: "bpf_mutex \<Rightarrow> containers \<Rightarrow> containers res" where
  "recover_from_bpf mx m =
     (if poisoned mx then Inl (Panic ''PoisonError'') else recover_ips (list_container_ips (guarded mx)) m)"

text \<open>The hash of a container name, and its byte the search starts from.\<close>

definition hash_id :: "string \<Rightarrow> u32" where
  "hash_id container_id = foldl (\<lambda>acc c. acc * 31 + word_of_nat (of_char c)) 0 container_id"

definition hash_byte :: "string \<Rightarrow> u8" where
  "hash_byte container_id = ucast (hash_id container_id)"

text \<open>\<open>2u8 + k\<close> and the remainder: a panic when the sum overflows and the build checks it.\<close>

definition host_of :: "bool \<Rightarrow> u8 \<Rightarrow> u8 res" where
  "host_of checks k =
     (if checks \<and> 255 < 2 + unat k then Inl (Panic ''attempt to add with overflow'')
      else Inr ((2 + k) mod 254))"

fun alloc_loop :: "bool \<Rightarrow> u32 insert_fn \<Rightarrow> u32 \<Rightarrow> nat list \<Rightarrow> bpf_manager \<Rightarrow> (bpf_manager \<times> string) res" where
  "alloc_loop checks ins hash [] b =
     Inr (b, show_ipv4 (ipv4_of_u32 (u32_of_ipv4 (Ipv4 10 244 0 (2 + ucast (hash mod 253))))))"
| "alloc_loop checks ins hash (offset # rest) b =
     and_then (host_of checks (ucast hash + word_of_nat offset)) (\<lambda>host.
       if host < 2 then alloc_loop checks ins hash rest b
       else
         let ip = u32_of_ipv4 (Ipv4 10 244 0 host)
         in if \<not> is_ip_allocated b ip
            then Inr (case update_container_route ins ip 1 b of Inl _ \<Rightarrow> b | Inr b' \<Rightarrow> b', show_ipv4 (ipv4_of_u32 ip))
            else alloc_loop checks ins hash rest b)"

definition allocate_from_bpf ::
    "bool \<Rightarrow> u32 insert_fn \<Rightarrow> string \<Rightarrow> bpf_mutex \<Rightarrow> bpf_mutex \<times> string res" where
  "allocate_from_bpf checks ins container_id mx =
     (if poisoned mx then (mx, Inl (Panic ''PoisonError''))
      else case alloc_loop checks ins (hash_id container_id) [0..<253] (guarded mx) of
             Inl e \<Rightarrow> (mx\<lparr>poisoned := True\<rparr>, Inl e)
           | Inr (b, ip) \<Rightarrow> (mx\<lparr>guarded := b\<rparr>, Inr ip))"

section \<open>The container command\<close>

definition CRLF :: string where
  "CRLF = [CHR 0x0D, CHR 0x0A]"

text \<open>\<open>if let Ok(bpf) = bpf.lock()\<close>: nothing when the mutex is poisoned; an error of the map
  operation is only logged.\<close>

definition with_lock :: "(bpf_manager \<Rightarrow> bpf_manager res) \<Rightarrow> bpf_mutex \<Rightarrow> bpf_mutex" where
  "with_lock f mx =
     (if poisoned mx then mx
      else case f (guarded mx) of Inl _ \<Rightarrow> mx | Inr b \<Rightarrow> mx\<lparr>guarded := b\<rparr>)"

definition str_or :: "'j json_api \<Rightarrow> 'j \<Rightarrow> string \<Rightarrow> string \<Rightarrow> string" where
  "str_or j v k d = (case get_str j v k of None \<Rightarrow> d | Some s \<Rightarrow> s)"

definition handle_container_cmd ::
    "bool \<Rightarrow> u32 insert_fn \<Rightarrow> u32 remove_fn \<Rightarrow> 'j json_api \<Rightarrow> bytes \<Rightarrow> api_state \<Rightarrow> api_state \<times> string res" where
  "handle_container_cmd checks ins rem j body st =
     (case from_slice j body of
        Inl e \<Rightarrow> (st, Inr (''400 Bad Request'' @ CRLF @ CRLF @ ''{\"error\":\"json: '' @ err_text e @ ''\"}''))
      | Inr parsed \<Rightarrow>
          let action = str_or j parsed ''action'' '''';
              container_id = str_or j parsed ''container_id'' '''';
              ip = str_or j parsed ''ip'' ''0.0.0.0'';
              iface = str_or j parsed ''iface'' ''''
          in if action = ''allocate'' then
               (let (mx, r) = allocate_from_bpf checks ins container_id (bpf st)
                in (st\<lparr>bpf := mx\<rparr>,
                    and_then r (\<lambda>ip. Inr (''200 OK'' @ CRLF @ CRLF @ ''{\"ip\":\"'' @ ip @ ''\"}''))))
             else if action = ''add'' then
               (st\<lparr>containers := add container_id ip iface (containers st),
                   bpf := (case parse_ipv4 ip of
                             None \<Rightarrow> bpf st
                           | Some a \<Rightarrow> with_lock (update_container_route ins (u32_of_ipv4 a) 1) (bpf st))\<rparr>,
                Inr (''200 OK'' @ CRLF @ CRLF @ ''{\"status\":\"added\"}''))
             else if action = ''del'' then
               (st\<lparr>containers := remove container_id (containers st),
                   bpf := (case parse_ipv4 ip of
                             None \<Rightarrow> bpf st
                           | Some a \<Rightarrow> with_lock (remove_container_route rem (u32_of_ipv4 a)) (bpf st))\<rparr>,
                Inr (''200 OK'' @ CRLF @ CRLF @ ''{\"status\":\"removed\"}''))
             else (st, Inr (''400 Bad Request'' @ CRLF @ CRLF @ ''{\"error\":\"unknown action\"}'')))"

section \<open>The HTTP connection\<close>

datatype conn_end = Eof | Reset

definition take_line :: "string \<Rightarrow> string \<times> string" where
  "take_line s =
     (case dropWhile (\<lambda>c. c \<noteq> CHR 0x0A) s of
        [] \<Rightarrow> (s, [])
      | nl # rest \<Rightarrow> (takeWhile (\<lambda>c. c \<noteq> CHR 0x0A) s @ [nl], rest))"

text \<open>\<open>read_line\<close>: the bytes up to and with the next newline, or what is left at the end of
  the stream; a reset before the newline and bytes that are not UTF-8 are errors.\<close>

definition read_line :: "conn_end \<Rightarrow> string \<Rightarrow> string res \<times> string" where
  "read_line e s =
     (let (line, rest) = take_line s
      in (if e = Reset \<and> CHR 0x0A \<notin> set line then Inl (Error ''connection reset'')
          else if \<not> valid_utf8 (map of_char line) then Inl (Error ''stream did not contain valid UTF-8'')
          else Inr line, rest))"

lemma take_line_append: "fst (take_line s) @ snd (take_line s) = s"
proof (cases "dropWhile (\<lambda>c. c \<noteq> CHR 0x0A) s")
  case (Cons x xs)
  then show ?thesis
    using takeWhile_dropWhile_id [of "\<lambda>c. c \<noteq> CHR 0x0A" s] by (simp add: take_line_def)
next
  case Nil
  then show ?thesis by (simp add: take_line_def del: dropWhile_eq_Nil_conv)
qed

lemma read_line_Inr:
  "fst (read_line e s) = Inr line \<Longrightarrow> s = line @ snd (read_line e s)"
  using take_line_append [of s] by (auto simp: read_line_def Let_def case_prod_beta split: if_splits)

lemma read_line_shorter:
  assumes "fst (read_line e s) = Inr line" and "line \<noteq> []"
  shows "length (snd (read_line e s)) < length s"
  using arg_cong [OF read_line_Inr [OF assms(1)], of length] assms(2) by (cases line) simp_all

definition content_length_of :: "string \<Rightarrow> nat \<Rightarrow> nat" where
  "content_length_of header old =
     (if prefix ''content-length:'' (to_lowercase header)
      then (case parse_usize (trim (trim_start_matches ''Content-Length:'' header)) of
              None \<Rightarrow> old | Some n \<Rightarrow> n)
      else old)"

function read_headers :: "conn_end \<Rightarrow> string \<Rightarrow> nat \<Rightarrow> nat \<times> string" where
  "read_headers e s content_length =
     (case fst (read_line e s) of
        Inl _ \<Rightarrow> (content_length, snd (read_line e s))
      | Inr header \<Rightarrow>
          if header = [] \<or> trim header = [] then (content_length, snd (read_line e s))
          else read_headers e (snd (read_line e s)) (content_length_of header content_length))"
  by pat_completeness auto
termination
  by (relation "measure (\<lambda>(_, s, _). length s)") (auto simp: read_line_shorter)

declare read_headers.simps [simp del]

text \<open>\<open>vec![0u8; n]\<close> panics when \<open>n\<close> is more than \<open>isize::MAX\<close>.\<close>

definition ISIZE_MAX :: nat where
  "ISIZE_MAX = 9223372036854775807"

text \<open>The outcome of a connection: the response that is written back, if any, and the state;
  an \<open>Inl\<close> is the panic of the connection's task.\<close>

definition handle_api_connection ::
    "bool \<Rightarrow> u32 insert_fn \<Rightarrow> u32 remove_fn \<Rightarrow> 'j json_api \<Rightarrow> conn_end \<Rightarrow> string \<Rightarrow> api_state \<Rightarrow>
     api_state \<times> string option res" where
  "handle_api_connection checks ins rem j e stream st =
     (case fst (read_line e stream) of
        Inl _ \<Rightarrow> (st, Inr None)
      | Inr request_line \<Rightarrow>
          let parts = split_whitespace request_line
          in if length parts < 3 then
               (st, Inr (Some (''HTTP/1.1 400 Bad Request'' @ CRLF @ ''Content-Length: 15'' @ CRLF @ CRLF @
                  ''invalid request'')))
             else
               let (content_length, rest) = read_headers e (snd (read_line e stream)) 0
               in if ISIZE_MAX < content_length then (st, Inl (Panic ''capacity overflow''))
                  else if length rest < content_length then (st, Inr None)
                  else if parts ! 0 = ''POST'' \<and> parts ! 1 = ''/api/v1/container'' then
                    (let (st', r) = handle_container_cmd checks ins rem j (as_bytes (take content_length rest)) st
                     in (st', and_then r (\<lambda>s. Inr (Some s))))
                  else if parts ! 0 = ''GET'' \<and> parts ! 1 = ''/api/v1/health'' then
                    (st, Inr (Some (''200 OK'' @ CRLF @ CRLF @ ''{\"status\":\"ok\"}'')))
                  else (st, Inr (Some (''404 Not Found'' @ CRLF @ CRLF @ ''{\"error\":\"not found\"}''))))"

text \<open>\<open>send_raw\<close>: what reaches the peer; \<open>limit\<close> is after how many bytes the connection breaks, if
  it does. The error is ignored.\<close>

definition send_raw :: "nat option \<Rightarrow> string \<Rightarrow> string" where
  "send_raw limit response = (case limit of None \<Rightarrow> response | Some n \<Rightarrow> take n response)"

text \<open>One round of the accept loop of \<open>api_server\<close>: whether it goes on, and the connection it
  hands to a new task. The whole server binds first; when that fails it only logs and returns.\<close>

definition api_server_step ::
    "bool \<Rightarrow> (conn_end \<times> string) accept_event \<Rightarrow> bool \<times> (conn_end \<times> string) option" where
  "api_server_step stop ev =
     (case ev of
        CtrlC \<Rightarrow> (False, None)
      | Accepted stream \<Rightarrow> if stop then (False, None) else (True, Some stream)
      | AcceptError _ \<Rightarrow> if stop then (False, None) else (True, None))"

definition api_server ::
    "(string \<Rightarrow> unit res) \<Rightarrow> u16 \<Rightarrow> (bool \<times> (conn_end \<times> string) accept_event) list \<Rightarrow> (conn_end \<times> string) list" where
  "api_server bind_addr port rounds =
     (case bind_addr (''127.0.0.1:'' @ dec (unat port)) of
        Inl _ \<Rightarrow> []
      | Inr _ \<Rightarrow> serve_run api_server_step rounds)"

interpretation api_accept: accept_server api_server_step
  by unfold_locales (simp_all add: api_server_step_def split: accept_event.split)

section \<open>Which address a container gets\<close>

text \<open>The host number of a hash byte, and the reservation the allocation makes.\<close>

definition alloc_host :: "u8 \<Rightarrow> u8" where
  "alloc_host h = (if h < 252 then h + 2 else 2)"

definition alloc_ip :: "string \<Rightarrow> ipv4" where
  "alloc_ip container_id = Ipv4 10 244 0 (alloc_host (hash_byte container_id))"

definition reserve :: "u32 insert_fn \<Rightarrow> ipv4 \<Rightarrow> bpf_manager \<Rightarrow> bpf_manager" where
  "reserve ins ip b = (case update_container_route ins (u32_of_ipv4 ip) 1 b of Inl _ \<Rightarrow> b | Inr b' \<Rightarrow> b')"

lemma unat_host: "unat ((2 + k) mod 254 :: u8) = (2 + unat k) mod 256 mod 254"
  by (simp add: unat_mod unat_word_ariths)

lemma host_of_small:
  assumes "k < 252"
  shows "host_of checks k = Inr (alloc_host k)" and "\<not> alloc_host k < 2"
proof -
  have k: "unat k < 252" using assms by (simp add: word_less_nat_alt)
  then have "(2 + k) mod 254 = k + 2"
    unfolding word_unat_eq_iff unat_host by (simp add: unat_word_ariths)
  then show "host_of checks k = Inr (alloc_host k)" using assms k by (simp add: host_of_def alloc_host_def)
  show "\<not> alloc_host k < 2" using assms k by (simp add: alloc_host_def word_less_nat_alt unat_word_ariths)
qed

lemma host_of_252 [simp]: "host_of checks 252 = Inr 0" "host_of checks 253 = Inr 1"
  by (simp_all add: host_of_def)

lemma host_of_254 [simp]:
  "host_of checks 254 = (if checks then Inl (Panic ''attempt to add with overflow'') else Inr 0)"
  "host_of checks 255 = (if checks then Inl (Panic ''attempt to add with overflow'') else Inr 1)"
  by (simp_all add: host_of_def)

lemma alloc_loop_found:
  assumes "host_of checks (ucast hash + word_of_nat offset) = Inr host" and "\<not> host < 2"
  shows "alloc_loop checks ins hash (offset # rest) b =
    Inr (reserve ins (Ipv4 10 244 0 host) b, show_ipv4 (Ipv4 10 244 0 host))"
  using assms by (simp add: is_ip_allocated_def reserve_def Let_def)

lemma offsets: "\<exists>rest. [0..<253] = 0 # 1 # 2 # 3 # 4 # rest"
  by (simp add: upt_conv_Cons del: upt_Suc)

lemma high_byte_cases: "\<not> h < 252 \<Longrightarrow> h = 252 \<or> h = 253 \<or> h = 254 \<or> h = (255 :: u8)"
  using unat_u8_less [of h] by (auto simp: word_less_nat_alt word_unat_eq_iff simp del: unat_u8_less)

lemma alloc_loop_eq:
  "alloc_loop checks ins hash [0..<253] b =
     (if checks \<and> 252 \<le> (ucast hash :: u8) then Inl (Panic ''attempt to add with overflow'')
      else let ip = Ipv4 10 244 0 (alloc_host (ucast hash)) in Inr (reserve ins ip b, show_ipv4 ip))"
proof -
  obtain rest where rest: "[0..<253] = 0 # 1 # 2 # 3 # 4 # rest" using offsets by blast
  show ?thesis
  proof (cases "(ucast hash :: u8) < 252")
    case True
    then show ?thesis
      using host_of_small(1) [OF True, of checks] host_of_small(2) [OF True]
        alloc_loop_found [where checks = checks and hash = hash and offset = 0
          and host = "alloc_host (ucast hash)" and ins = ins and b = b]
      by (simp add: rest Let_def not_le del: alloc_loop.simps upt_Suc)
  next
    case False
    have wrap: "(256 :: u8) = 0" by simp
    have two: "host_of c 256 = Inr 2" for c
      unfolding wrap by (simp add: host_of_def)
    from high_byte_cases [OF False] show ?thesis
      by (elim disjE) (simp_all add: rest two alloc_host_def reserve_def is_ip_allocated_def Let_def del: upt_Suc)
  qed
qed

lemma allocate_from_bpf_eq:
  assumes "\<not> poisoned mx"
  shows "allocate_from_bpf checks ins container_id mx =
    (if checks \<and> 252 \<le> hash_byte container_id
     then (mx\<lparr>poisoned := True\<rparr>, Inl (Panic ''attempt to add with overflow''))
     else (mx\<lparr>guarded := reserve ins (alloc_ip container_id) (guarded mx)\<rparr>, Inr (show_ipv4 (alloc_ip container_id))))"
  using assms
  by (simp add: allocate_from_bpf_def alloc_loop_eq hash_byte_def [symmetric] alloc_ip_def Let_def del: upt_Suc)

text \<open>
  C18. The allocation loop computes a closed form: whatever addresses are in use, container
  \<open>id\<close> gets \<open>10.244.0.(h + 2)\<close> where \<open>h\<close> is the low byte of its hash, and \<open>10.244.0.2\<close> when
  \<open>h\<close> is 252 or more; the address is entered in the container-route map. A build with
  overflow checks panics for those last four values of \<open>h\<close> and poisons the mutex.
\<close>

theorem allocation_closed_form:
  assumes "\<not> poisoned mx"
  shows "allocate_from_bpf checks ins container_id mx =
    (if checks \<and> 252 \<le> hash_byte container_id
     then (mx\<lparr>poisoned := True\<rparr>, Inl (Panic ''attempt to add with overflow''))
     else (mx\<lparr>guarded := reserve ins (alloc_ip container_id) (guarded mx)\<rparr>, Inr (show_ipv4 (alloc_ip container_id))))"
  using assms by (rule allocate_from_bpf_eq)

definition empty_object :: bpf_object where
  "empty_object = \<lparr>obj_container_route = None, obj_node_dynamic = None, obj_geneve_ifindex = None,
     obj_tunnel_cfg = None, obj_ringbuf = None, obj_programs = []\<rparr>"

definition route_manager_of :: "u32 bpf_map \<Rightarrow> bpf_manager" where
  "route_manager_of m = \<lparr>mesh = empty_object, fw = None, vip_obj = None,
     maps = \<lparr>container_route = Some m, node_dynamic = None, geneve_ifindex = None,
             tunnel_cfg_map = None, vip_map = None, acl_map = None, default_policy_map = None\<rparr>,
     pinned = False, ringbuf = None\<rparr>"

definition set_key :: "'v insert_fn" where
  "set_key m k v = Inr (m(k \<mapsto> v))"

lemma set_key_ok [simp]: "insert_ok set_key"
  by (simp add: insert_ok_def set_key_def)

lemma hash_samples:
  "hash_byte ''a'' = 97" "hash_byte ''cd'' = 97"
  by (simp_all add: hash_byte_def hash_id_def)

lemma allocation_closed_form_witness:
  "snd (allocate_from_bpf True set_key ''a'' \<lparr>guarded = route_manager_of [7 \<mapsto> 1], poisoned = False\<rparr>) =
     Inr (show_ipv4 (Ipv4 10 244 0 99))"
  using allocation_closed_form [of "\<lparr>guarded = route_manager_of [7 \<mapsto> 1], poisoned = False\<rparr>" True set_key "''a''"]
  by (simp add: hash_samples alloc_ip_def alloc_host_def)

lemma poisoned_reserve [simp]: "poisoned (mx\<lparr>guarded := b\<rparr>) = poisoned mx"
  by simp

text \<open>
  Allocation does not avoid addresses in use: two containers whose hashes end in the
  same byte are given the same address one after the other, although the first allocation
  entered it in the container-route map.
\<close>

lemma allocation_collides:
  assumes "allocate_from_bpf checks ins id1 mx = (mx1, Inr ip1)" and "hash_byte id1 = hash_byte id2"
  shows "\<exists>mx2. allocate_from_bpf checks ins id2 mx1 = (mx2, Inr ip1)"
proof -
  have fresh: "\<not> poisoned mx" using assms(1) by (auto simp: allocate_from_bpf_def)
  with assms(1) have *: "\<not> (checks \<and> 252 \<le> hash_byte id1)"
      "mx1 = mx\<lparr>guarded := reserve ins (alloc_ip id1) (guarded mx)\<rparr>" "ip1 = show_ipv4 (alloc_ip id1)"
    by (auto simp: allocate_from_bpf_eq split: if_splits)
  then have "\<not> poisoned mx1" using fresh by simp
  then show ?thesis using * assms(2) by (simp add: allocate_from_bpf_eq alloc_ip_def)
qed

section \<open>The container commands against their specification\<close>

text \<open>A request as the handler reads it from the body.\<close>

datatype request = Allocate string | AddContainer string string string | DelContainer string string | NoRequest

definition decode :: "'j json_api \<Rightarrow> bytes \<Rightarrow> request" where
  "decode j body =
     (case from_slice j body of
        Inl _ \<Rightarrow> NoRequest
      | Inr v \<Rightarrow>
          let action = str_or j v ''action'' ''''; container_id = str_or j v ''container_id'' '''';
              ip = str_or j v ''ip'' ''0.0.0.0'';  iface = str_or j v ''iface'' ''''
          in if action = ''allocate'' then Allocate container_id
             else if action = ''add'' then AddContainer container_id ip iface
             else if action = ''del'' then DelContainer container_id ip
             else NoRequest)"

text \<open>What the agent promises: a table of containers and a set of routed addresses.\<close>

type_synonym view = "containers \<times> u32 bpf_map"

definition put_route :: "string \<Rightarrow> u32 option \<Rightarrow> u32 bpf_map \<Rightarrow> u32 bpf_map" where
  "put_route ip v rs = (case parse_ipv4 ip of None \<Rightarrow> rs | Some a \<Rightarrow> rs(u32_of_ipv4 a := v))"

primrec spec_step :: "request \<Rightarrow> view \<Rightarrow> view" where
  "spec_step (Allocate container_id) s = (fst s, (snd s)(u32_of_ipv4 (alloc_ip container_id) \<mapsto> 1))"
| "spec_step (AddContainer container_id ip iface) s =
     ((fst s)(container_id \<mapsto> \<lparr>ci_container_id = container_id, ci_ip = ip, ci_host_iface = iface\<rparr>),
      put_route ip (Some 1) (snd s))"
| "spec_step (DelContainer container_id ip) s = ((fst s)(container_id := None), put_route ip None (snd s))"
| "spec_step NoRequest s = s"

definition view_of :: "api_state \<Rightarrow> view" where
  "view_of st = (containers st, route_of (guarded (bpf st)))"

text \<open>The kernel's map operations as documented, with room in the map: an update succeeds,
  a removal fails exactly when the key is absent.\<close>

definition kernel_ok :: "u32 insert_fn \<Rightarrow> u32 remove_fn \<Rightarrow> bool" where
  "kernel_ok ins rem \<longleftrightarrow>
     (\<forall>m k v. ins m k v = Inr (m(k \<mapsto> v))) \<and>
     (\<forall>m k. if m k = None then \<exists>e. rem m k = Inl e else rem m k = Inr (m(k := None)))"

definition healthy :: "api_state \<Rightarrow> bool" where
  "healthy st \<longleftrightarrow> \<not> poisoned (bpf st) \<and> container_route (maps (guarded (bpf st))) \<noteq> None"

lemma kernel_ok_laws:
  assumes "kernel_ok ins rem"
  shows "insert_ok ins" and "remove_ok rem"
proof -
  show "insert_ok ins" using assms by (simp add: kernel_ok_def insert_ok_def)
  show "remove_ok rem"
    unfolding remove_ok_def
  proof (intro allI impI)
    fix m k m'
    assume "rem m k = Inr m'"
    moreover have "if m k = None then \<exists>e. rem m k = Inl e else rem m k = Inr (m(k := None))"
      using assms unfolding kernel_ok_def by blast
    ultimately show "m' = m(k := None)" by (auto split: if_splits)
  qed
qed

lemma update_route_total:
  assumes "kernel_ok ins rem" and "container_route (maps b) \<noteq> None"
  shows "\<exists>b'. update_container_route ins k v b = Inr b' \<and> route_of b' = (route_of b)(k \<mapsto> v) \<and>
    container_route (maps b') \<noteq> None"
proof -
  have "\<exists>b'. update_container_route ins k v b = Inr b'"
    using assms by (auto simp: update_container_route_def kernel_ok_def)
  then show ?thesis using container_routes.ins_look [OF kernel_ok_laws(1) [OF assms(1)] assms(2)] by blast
qed

lemma remove_route_total:
  assumes "kernel_ok ins rem" and "container_route (maps b) \<noteq> None"
  shows "case remove_container_route rem k b of
      Inl _ \<Rightarrow> route_of b = (route_of b)(k := None)
    | Inr b' \<Rightarrow> route_of b' = (route_of b)(k := None) \<and> container_route (maps b') \<noteq> None"
proof (rule container_routes.del_or_absent [OF kernel_ok_laws(2) [OF assms(1)] assms(2)])
  fix e
  assume fails: "remove_container_route rem k b = Inl e"
  obtain m where m: "container_route (maps b) = Some m" using assms(2) by blast
  have "rem m k = Inr (m(k := None))" if "m k \<noteq> None" using assms(1) that by (metis kernel_ok_def)
  then show "route_of b k = None" using fails m by (cases "m k") (simp_all add: remove_container_route_def)
qed

text \<open>The two ways a command touches the routes, both under the lock.\<close>

lemma with_lock_update:
  assumes "kernel_ok ins rem" and "\<not> poisoned mx" and "container_route (maps (guarded mx)) \<noteq> None"
  shows "route_of (guarded (with_lock (update_container_route ins k 1) mx)) = (route_of (guarded mx))(k \<mapsto> 1)"
    and "\<not> poisoned (with_lock (update_container_route ins k 1) mx)"
    and "container_route (maps (guarded (with_lock (update_container_route ins k 1) mx))) \<noteq> None"
  using update_route_total [OF assms(1,3), of k 1] assms(2) by (auto simp: with_lock_def)

lemma with_lock_remove:
  assumes "kernel_ok ins rem" and "\<not> poisoned mx" and "container_route (maps (guarded mx)) \<noteq> None"
  shows "route_of (guarded (with_lock (remove_container_route rem k) mx)) = (route_of (guarded mx))(k := None)"
    and "\<not> poisoned (with_lock (remove_container_route rem k) mx)"
    and "container_route (maps (guarded (with_lock (remove_container_route rem k) mx))) \<noteq> None"
proof -
  note total = remove_route_total [OF assms(1,3), of k]
  show "route_of (guarded (with_lock (remove_container_route rem k) mx)) = (route_of (guarded mx))(k := None)"
      "\<not> poisoned (with_lock (remove_container_route rem k) mx)"
      "container_route (maps (guarded (with_lock (remove_container_route rem k) mx))) \<noteq> None"
    using total assms(2,3) unfolding with_lock_def
    by (cases "remove_container_route rem k (guarded mx)"; simp)+
qed

lemma reserve_routes:
  assumes "kernel_ok ins rem" and "container_route (maps b) \<noteq> None"
  shows "route_of (reserve ins ip b) = (route_of b)(u32_of_ipv4 ip \<mapsto> 1)"
    and "container_route (maps (reserve ins ip b)) \<noteq> None"
  using update_route_total [OF assms, of "u32_of_ipv4 ip" 1] by (auto simp: reserve_def)

lemma handle_container_cmd_refines:
  assumes "kernel_ok ins rem" and "healthy st"
  shows "view_of (fst (handle_container_cmd False ins rem j body st)) = spec_step (decode j body) (view_of st)"
    and "healthy (fst (handle_container_cmd False ins rem j body st))"
proof -
  have h: "\<not> poisoned (bpf st)" "container_route (maps (guarded (bpf st))) \<noteq> None"
    using assms(2) by (simp_all add: healthy_def)
  note ops = with_lock_update [OF assms(1) h] with_lock_remove [OF assms(1) h] reserve_routes [OF assms(1) h(2)]
  show "view_of (fst (handle_container_cmd False ins rem j body st)) = spec_step (decode j body) (view_of st)"
    by (simp add: handle_container_cmd_def decode_def view_of_def Let_def allocate_from_bpf_eq h ops
        add_def remove_def put_route_def split: sum.split option.split)
  show "healthy (fst (handle_container_cmd False ins rem j body st))"
    using h by (simp add: handle_container_cmd_def healthy_def Let_def allocate_from_bpf_eq ops
        split: sum.split option.split del: not_None_eq)
qed

text \<open>A run of commands, one after the other.\<close>

definition cmd_run ::
    "bool \<Rightarrow> u32 insert_fn \<Rightarrow> u32 remove_fn \<Rightarrow> 'j json_api \<Rightarrow> bytes list \<Rightarrow> api_state \<Rightarrow> api_state" where
  "cmd_run checks ins rem j bodies st =
     fold (\<lambda>body st. fst (handle_container_cmd checks ins rem j body st)) bodies st"

text \<open>
  C4. Refinement: in a build without overflow checks, on a loaded container-route map with
  room, any sequence of container commands changes the container table and the routed
  addresses exactly as the specification says; no command is lost and none fails.
\<close>

theorem container_commands_refine_spec:
  assumes "kernel_ok ins rem" and "healthy st"
  shows "view_of (cmd_run False ins rem j bodies st) = fold spec_step (map (decode j) bodies) (view_of st)"
  using assms(2)
proof (induction bodies arbitrary: st)
  case (Cons body bodies)
  from handle_container_cmd_refines [OF assms(1) Cons.prems, of j body] Cons.IH show ?case
    by (simp add: cmd_run_def)
qed (simp add: cmd_run_def)

definition del_key :: "'v remove_fn" where
  "del_key m k = (if m k = None then Inl (Error ''ENOENT'') else Inr (m(k := None)))"

lemma kernel_ok_sample [simp]: "kernel_ok set_key del_key"
  by (simp add: kernel_ok_def set_key_def del_key_def)

text \<open>A parser for two commands: the byte 1 stands for an \<open>add\<close>, the byte 2 for the matching
  \<open>del\<close>; anything else is not JSON.\<close>

definition sample_json :: "(string \<times> string) list json_api" where
  "sample_json =
     \<lparr>from_slice = (\<lambda>bs.
        if bs = [1] then Inr [(''action'', ''add''), (''container_id'', ''web''), (''ip'', show_ipv4 (Ipv4 10 244 0 9))]
        else if bs = [2] then Inr [(''action'', ''del''), (''container_id'', ''web''), (''ip'', show_ipv4 (Ipv4 10 244 0 9))]
        else if bs = [3] then Inr [(''action'', ''allocate''), (''container_id'', ''hd'')]
        else Inl (Error ''expected value'')),
      get_str = map_of\<rparr>"

lemma decode_sample [simp]:
  "decode sample_json [1] = AddContainer ''web'' (show_ipv4 (Ipv4 10 244 0 9)) ''''"
  "decode sample_json [2] = DelContainer ''web'' (show_ipv4 (Ipv4 10 244 0 9))"
  "decode sample_json [3] = Allocate ''hd''"
  by (simp_all add: decode_def sample_json_def str_or_def)

definition sample_api_state :: api_state where
  "sample_api_state = \<lparr>containers = Map.empty, bpf = \<lparr>guarded = route_manager_of Map.empty, poisoned = False\<rparr>\<rparr>"

lemma healthy_sample [simp]: "healthy sample_api_state"
  by (simp add: healthy_def sample_api_state_def route_manager_of_def)

lemma container_commands_refine_spec_witness:
  "snd (view_of (cmd_run False set_key del_key sample_json [[1]] sample_api_state)) (u32_of_ipv4 (Ipv4 10 244 0 9)) = Some 1 \<and>
   fst (view_of (cmd_run False set_key del_key sample_json [[1], [2]] sample_api_state)) ''web'' = None \<and>
   snd (view_of (cmd_run False set_key del_key sample_json [[1], [2]] sample_api_state)) (u32_of_ipv4 (Ipv4 10 244 0 9)) = None"
  using container_commands_refine_spec [OF kernel_ok_sample healthy_sample, of sample_json "[[1]]"]
    container_commands_refine_spec [OF kernel_ok_sample healthy_sample, of sample_json "[[1], [2]]"]
  by (simp add: put_route_def)

section \<open>A panic in the critical section\<close>

lemma handle_container_cmd_poisoned:
  "poisoned (bpf st) \<Longrightarrow> bpf (fst (handle_container_cmd checks ins rem j body st)) = bpf st"
  by (simp add: handle_container_cmd_def Let_def allocate_from_bpf_def with_lock_def split: sum.split option.split)

lemma cmd_run_poisoned: "poisoned (bpf st) \<Longrightarrow> bpf (cmd_run checks ins rem j bodies st) = bpf st"
  unfolding cmd_run_def by (induction bodies arbitrary: st) (simp_all add: handle_container_cmd_poisoned)

text \<open>
  C22. One bad container name stops the agent's route updates in a build with overflow
  checks: after a command to allocate for a name whose hash byte is 252 or more the mutex
  is poisoned, no later command changes a BPF map any more, and every later allocation
  panics without an answer.
\<close>

theorem overflow_panic_freezes_routes:
  assumes "\<not> poisoned (bpf st)" and "decode j body = Allocate container_id" and "252 \<le> hash_byte container_id"
    and "st1 = fst (handle_container_cmd True ins rem j body st)"
  shows "guarded (bpf (cmd_run True ins rem j bodies st1)) = guarded (bpf st) \<and>
    (decode j body' = Allocate other \<longrightarrow>
       snd (handle_container_cmd True ins rem j body' (cmd_run True ins rem j bodies st1)) = Inl (Panic ''PoisonError''))"
proof -
  have poison: "bpf st1 = (bpf st)\<lparr>poisoned := True\<rparr>"
    using assms by (auto simp: handle_container_cmd_def decode_def Let_def allocate_from_bpf_eq
        split: sum.splits if_splits)
  then have "bpf (cmd_run True ins rem j bodies st1) = (bpf st)\<lparr>poisoned := True\<rparr>"
    by (simp add: cmd_run_poisoned)
  then show ?thesis
    by (auto simp: handle_container_cmd_def decode_def Let_def allocate_from_bpf_def split: sum.splits if_splits)
qed

lemma overflow_panic_freezes_routes_witness:
  "guarded (bpf (cmd_run True set_key del_key sample_json [[1], [2]]
     (fst (handle_container_cmd True set_key del_key sample_json [3] sample_api_state)))) = route_manager_of Map.empty"
proof -
  have "252 \<le> hash_byte ''hd''" by (simp add: hash_byte_def hash_id_def)
  from overflow_panic_freezes_routes [OF _ decode_sample(3) this refl, of sample_api_state set_key del_key "[[1], [2]]"]
  show ?thesis by (simp add: sample_api_state_def)
qed

section \<open>Framing of a request\<close>

lemma trim_eq_Nil: "trim s = [] \<longleftrightarrow> list_all is_ws s"
proof -
  have "dropWhile is_ws s = [] \<longleftrightarrow> list_all is_ws s" for s by (simp add: list_all_iff)
  moreover have "list_all is_ws (dropWhile is_ws s) \<longleftrightarrow> list_all is_ws s" by (induction s) simp_all
  ultimately show ?thesis by (simp add: trim_def trim_start_def list_all_iff del: dropWhile_eq_Nil_conv)
qed

text \<open>A line a header or a request can be sent as: ASCII, on one line, not blank.\<close>

definition plain_line :: "string \<Rightarrow> bool" where
  "plain_line l \<longleftrightarrow>
     list_all (\<lambda>c. of_char c < (128 :: nat) \<and> c \<noteq> CHR 0x0A) l \<and> \<not> list_all is_ws l"

lemma valid_utf8_ascii: "list_all (\<lambda>n. n < 128) ns \<Longrightarrow> valid_utf8 ns"
  by (induction ns) simp_all

lemma take_line_Cons: "c \<noteq> CHR 0x0A \<Longrightarrow> take_line (c # s) = (c # fst (take_line s), snd (take_line s))"
  by (simp add: take_line_def split: list.split del: dropWhile_eq_Nil_conv)

lemma take_line_CRLF: "list_all (\<lambda>c. c \<noteq> CHR 0x0A) l \<Longrightarrow> take_line (l @ CRLF @ rest) = (l @ CRLF, rest)"
  by (induction l) (simp_all add: take_line_Cons, simp add: take_line_def CRLF_def)

lemma read_line_CRLF:
  assumes "list_all (\<lambda>c. of_char c < (128 :: nat) \<and> c \<noteq> CHR 0x0A) l"
  shows "read_line e (l @ CRLF @ rest) = (Inr (l @ CRLF), rest)"
proof -
  have "list_all (\<lambda>c. c \<noteq> CHR 0x0A) l" using assms by (simp add: list_all_iff)
  moreover have "valid_utf8 (map of_char (l @ CRLF))"
    using assms by (intro valid_utf8_ascii) (simp add: list_all_iff CRLF_def)
  ultimately show ?thesis by (simp add: read_line_def take_line_CRLF) (simp add: CRLF_def)
qed

lemma read_headers_lines:
  assumes "list_all plain_line hs"
  shows "read_headers e (concat (map (\<lambda>h. h @ CRLF) hs) @ CRLF @ rest) len =
    (fold content_length_of (map (\<lambda>h. h @ CRLF) hs) len, rest)"
  using assms
proof (induction hs arbitrary: len)
  case Nil
  have "list_all is_ws CRLF" by (simp add: CRLF_def is_ws_def)
  then show ?case
    using read_line_CRLF [of "[]" e rest] by (simp add: read_headers.simps trim_eq_Nil)
next
  case (Cons h hs)
  have "h @ CRLF \<noteq> []" by (simp add: CRLF_def)
  with Cons show ?case
    using read_line_CRLF [of h e "concat (map (\<lambda>h. h @ CRLF) hs) @ CRLF @ rest"]
    by (subst read_headers.simps) (simp add: plain_line_def trim_eq_Nil del: append_is_Nil_conv)
qed

lemma hd_trim:
  assumes "\<not> is_ws c"
  shows "\<exists>r. trim (c # s) = c # r"
proof -
  have "dropWhile is_ws (rev s @ [c]) = dropWhile is_ws (rev s) @ [c]"
    using assms by (cases "\<forall>x \<in> set (rev s). is_ws x") (auto simp: dropWhile_append)
  then show ?thesis using assms by (simp add: trim_def trim_start_def)
qed

lemma parse_usize_letter: "digit_val 10 c = None \<Longrightarrow> c \<noteq> CHR ''+'' \<Longrightarrow> parse_usize (c # s) = None"
  by (simp add: parse_usize_def parse_uint_def)

lemma lowercase_c:
  assumes "(let n = of_char c :: nat in if 65 \<le> n \<and> n \<le> 90 then char_of (n + 32) else c) = CHR ''c''"
  shows "c = CHR ''c'' \<or> c = CHR ''C''"
proof (cases "65 \<le> (of_char c :: nat) \<and> (of_char c :: nat) \<le> 90")
  case True
  then have "of_char (char_of (of_char c + 32 :: nat)) = (of_char CHR ''c'' :: nat)"
    using assms by (simp add: Let_def)
  then have "of_char c = (67 :: nat)" using True by simp
  then have "of_char c = (of_char CHR ''C'' :: nat)" by simp
  then show ?thesis by (simp only: of_char_eq_iff simp_thms)
next
  case False
  with assms show ?thesis by (simp only: Let_def if_False simp_thms)
qed

lemma to_lowercase_c:
  assumes "prefix ''content-length:'' (to_lowercase h)"
  shows "\<exists>c r. h = c # r \<and> (c = CHR ''c'' \<or> c = CHR ''C'')"
proof (cases h)
  case (Cons c r)
  with assms have "(let n = of_char c :: nat in if 65 \<le> n \<and> n \<le> 90 then char_of (n + 32) else c) = CHR ''c''"
    by (simp add: to_lowercase_def del: Let_def)
  from lowercase_c [OF this] Cons show ?thesis by blast
qed (use assms in \<open>simp add: to_lowercase_def\<close>)

lemma prefix_before_CRLF:
  assumes "\<not> prefix p h" and "p \<noteq> []" and "last p \<notin> set CRLF"
  shows "\<not> prefix p (h @ CRLF)"
proof
  assume "prefix p (h @ CRLF)"
  with assms(1) obtain x where x: "p = h @ x" "prefix x CRLF" by (auto simp: prefix_append)
  with assms(1) have "x \<noteq> []" by auto
  with x have "last p \<in> set CRLF" by (metis last_appendR last_in_set set_mono_prefix subsetD)
  with assms(3) show False by simp
qed

text \<open>Only a header spelled exactly \<open>Content-Length:\<close> sets the length of the body.\<close>

lemma content_length_of_other:
  assumes "\<not> prefix ''Content-Length:'' h"
  shows "content_length_of (h @ CRLF) old = old"
proof (cases "prefix ''content-length:'' (to_lowercase (h @ CRLF))")
  case True
  from to_lowercase_c [OF True] obtain c r where h: "h @ CRLF = c # r" "c = CHR ''c'' \<or> c = CHR ''C''"
    by blast
  have "\<not> prefix ''Content-Length:'' (h @ CRLF)"
    using assms by (rule prefix_before_CRLF) (simp_all add: CRLF_def)
  then have "trim_start_matches ''Content-Length:'' (h @ CRLF) = c # r"
    using h(1) by (simp only: trim_start_matches_other not_False_eq_True)
  moreover have "\<not> is_ws c" "digit_val 10 c = None" "c \<noteq> CHR ''+''"
    using h(2) by (auto simp: is_ws_def digit_val_def)
  ultimately show ?thesis
    using hd_trim [of c r] parse_usize_letter [of c] by (auto simp: content_length_of_def)
qed (simp add: content_length_of_def)

lemma read_digits_dec: "read_digits 10 (dec n) = (decimals n, [])"
  using read_digits_append [OF digits_bounded, of n "[]"] by (simp add: dec_digits)

lemma set_dec: "c \<in> set (dec n) \<Longrightarrow> \<exists>d < 10. c = char_of (48 + d :: nat)"
  using digits_bounded [of n] by (auto simp: dec_digits list_all_iff)

lemma dec_char: "c \<in> set (dec n) \<Longrightarrow> \<not> is_ws c \<and> c \<noteq> CHR ''+''"
proof -
  assume "c \<in> set (dec n)"
  then obtain d where d: "d < 10" "of_char c = 48 + (d :: nat)" using set_dec by fastforce
  then have "of_char c \<noteq> (of_char CHR ''+'' :: nat)" by simp
  with d show ?thesis by (auto simp: is_ws_def Let_def)
qed

lemma dec_nonempty [simp]: "dec n \<noteq> []"
  by (simp add: dec_digits)

lemma parse_usize_dec: "n \<le> ISIZE_MAX \<Longrightarrow> parse_usize (dec n) = Some n"
proof -
  assume "n \<le> ISIZE_MAX"
  moreover have "hd (dec n) \<noteq> CHR ''+''" using dec_char [of "hd (dec n)" n] by auto
  ultimately show ?thesis
    by (simp add: parse_usize_def parse_uint_def read_digits_dec digits_val_digits ISIZE_MAX_def)
qed

lemma trim_between:
  assumes "list_all is_ws l" and "list_all is_ws r" and "\<forall>c \<in> set s. \<not> is_ws c" and "s \<noteq> []"
  shows "trim (l @ s @ r) = s"
proof -
  have start: "dropWhile is_ws (l @ s @ r) = s @ r"
    using assms by (cases s) (simp_all add: dropWhile_append2 list_all_iff)
  have "dropWhile is_ws (rev r @ rev s) = rev s"
    using assms dropWhile_append2 [of "rev r" is_ws "rev s"]
    by (cases s rule: rev_cases) (simp_all add: list_all_iff)
  with start show ?thesis by (simp add: trim_def trim_start_def)
qed

lemma content_length_of_exact:
  assumes "n \<le> ISIZE_MAX"
  shows "content_length_of (''Content-Length: '' @ dec n @ CRLF) old = n"
proof -
  have "trim_start_matches ''Content-Length:'' (''Content-Length:'' @ '' '' @ dec n @ CRLF) = '' '' @ dec n @ CRLF"
    by (subst trim_start_matches_prefix) (simp_all add: trim_start_matches_other)
  moreover have "trim ('' '' @ dec n @ CRLF) = dec n"
    using dec_char by (intro trim_between) (simp_all add: CRLF_def is_ws_def)
  moreover have "prefix ''content-length:'' (to_lowercase (''Content-Length: '' @ dec n @ CRLF))"
    by (simp add: to_lowercase_def char_of_def bit_0)
  ultimately show ?thesis by (simp add: content_length_of_def parse_usize_dec [OF assms])
qed

text \<open>A request as HTTP/1.1 writes it: the request line, header lines, an empty line, the body.\<close>

definition http_request :: "string \<Rightarrow> string list \<Rightarrow> string \<Rightarrow> string" where
  "http_request line hs body = line @ CRLF @ concat (map (\<lambda>h. h @ CRLF) hs) @ CRLF @ body"

definition post_line :: string where
  "post_line = ''POST /api/v1/container HTTP/1.1''"

lemma plain_post_line: "plain_line post_line"
  by (simp add: plain_line_def post_line_def is_ws_def)

lemma split_post_line:
  "split_whitespace (post_line @ CRLF) = [''POST'', ''/api/v1/container'', ''HTTP/1.1'']"
  by (simp add: split_whitespace_def post_line_def CRLF_def is_ws_def)

lemma handle_post:
  assumes "list_all plain_line hs" and "len = fold content_length_of (map (\<lambda>h. h @ CRLF) hs) 0"
    and "len \<le> ISIZE_MAX" and "len \<le> length body"
  shows "handle_api_connection checks ins rem j e (http_request post_line hs body) st =
    (let (st', r) = handle_container_cmd checks ins rem j (as_bytes (take len body)) st
     in (st', and_then r (\<lambda>s. Inr (Some s))))"
proof -
  have "read_line e (http_request post_line hs body) =
      (Inr (post_line @ CRLF), concat (map (\<lambda>h. h @ CRLF) hs) @ CRLF @ body)"
    using plain_post_line unfolding http_request_def by (intro read_line_CRLF) (simp add: plain_line_def)
  with assms show ?thesis
    by (simp add: handle_api_connection_def split_post_line read_headers_lines [OF assms(1)])
qed

text \<open>
  C21. A request with one \<open>Content-Length\<close> header, spelled so, and with the body it
  announces runs the container command on exactly that body, whatever other headers it
  has and whatever follows on the connection.
\<close>

theorem http_request_delivers_body:
  assumes "list_all plain_line (hs1 @ hs2)" and "list_all (\<lambda>h. \<not> prefix ''Content-Length:'' h) (hs1 @ hs2)"
    and "length body \<le> ISIZE_MAX"
  shows "handle_api_connection checks ins rem j e
      (http_request post_line (hs1 @ [''Content-Length: '' @ dec (length body)] @ hs2) (body @ later)) st =
    (let (st', r) = handle_container_cmd checks ins rem j (as_bytes body) st
     in (st', and_then r (\<lambda>s. Inr (Some s))))"
proof -
  let ?cl = "''Content-Length: '' @ dec (length body)"
  have other: "fold content_length_of (map (\<lambda>h. h @ CRLF) hs) n = n"
    if "list_all (\<lambda>h. \<not> prefix ''Content-Length:'' h) hs" for hs n
    using that by (induction hs) (simp_all add: content_length_of_other)
  have cl: "content_length_of (?cl @ CRLF) n = length body" for n
    using content_length_of_exact [OF assms(3)] by simp
  have len: "fold content_length_of (map (\<lambda>h. h @ CRLF) (hs1 @ [?cl] @ hs2)) 0 = length body"
    using assms(2) other [of hs1] other [of hs2] cl by (simp del: append_assoc append.simps)
  have "plain_line ?cl"
  proof -
    have "of_char c < (128 :: nat) \<and> c \<noteq> CHR 0x0A" if c: "c \<in> set (dec (length body))" for c
    proof -
      obtain d where "d < 10" "of_char c = 48 + (d :: nat)" using set_dec [OF c] by auto
      then have "of_char c < (128 :: nat)" "of_char c \<noteq> (of_char CHR 0x0A :: nat)" by simp_all
      then show ?thesis by auto
    qed
    then show ?thesis by (simp add: plain_line_def list_all_iff is_ws_def)
  qed
  with assms(1) have "list_all plain_line (hs1 @ [?cl] @ hs2)" by simp
  from handle_post [OF this len [symmetric] assms(3), of "body @ later"] show ?thesis by simp
qed

lemma without_content_length:
  assumes "list_all plain_line hs" and "list_all (\<lambda>h. \<not> prefix ''Content-Length:'' h) hs"
    and "from_slice j [] = Inl err"
  shows "handle_api_connection checks ins rem j e (http_request post_line hs body) st =
    (st, Inr (Some (''400 Bad Request'' @ CRLF @ CRLF @ ''{\"error\":\"json: '' @ err_text err @ ''\"}'')))"
proof -
  have "fold content_length_of (map (\<lambda>h. h @ CRLF) hs) 0 = 0"
    using assms(2) by (induction hs) (simp_all add: content_length_of_other)
  from handle_post [OF assms(1) this [symmetric], of body checks ins rem j e st] show ?thesis
    by (simp add: handle_container_cmd_def assms(3) as_bytes_def)
qed

text \<open>
  A request without a header spelled exactly \<open>Content-Length:\<close> (a chunked body, or a
  client that writes the name in lower case) is run on the empty body: where the JSON
  parser rejects empty input, the answer is an error and nothing changes.
\<close>

lemma request_without_content_length_ignored:
  assumes "list_all plain_line hs" and "list_all (\<lambda>h. \<not> prefix ''Content-Length:'' h) hs"
    and "from_slice j [] = Inl err"
  shows "handle_api_connection checks ins rem j e (http_request post_line hs body) st =
    (st, Inr (Some (''400 Bad Request'' @ CRLF @ CRLF @ ''{\"error\":\"json: '' @ err_text err @ ''\"}'')))"
  using assms by (rule without_content_length)

lemma http_witness_headers:
  "list_all plain_line [''Host: 127.0.0.1:9091'', ''Transfer-Encoding: chunked'']"
  "list_all (\<lambda>h. \<not> prefix ''Content-Length:'' h) [''Host: 127.0.0.1:9091'', ''Transfer-Encoding: chunked'']"
  by (simp_all add: plain_line_def is_ws_def)

text \<open>One byte of body, the command 1 of the sample parser.\<close>

lemma http_request_delivers_body_witness:
  "containers (fst (handle_api_connection False set_key del_key sample_json Eof
     (http_request post_line ([''Host: 127.0.0.1:9091'', ''Transfer-Encoding: chunked''] @
        [''Content-Length: '' @ dec (length [CHR 0x01])] @ []) ([CHR 0x01] @ [])) sample_api_state)) ''web'' \<noteq> None"
  using http_witness_headers
  by (subst http_request_delivers_body)
    (simp_all add: ISIZE_MAX_def as_bytes_def handle_container_cmd_def sample_json_def str_or_def add_def Let_def)

section \<open>The replies\<close>

text \<open>
  No reply of the handler is an HTTP message except the one to a malformed request
  line: the others start with the status code, without the version that a status line
  begins with.
\<close>

lemma replies_lack_http_version:
  assumes "snd (handle_api_connection checks ins rem j e stream st) = Inr (Some reply)"
    and "reply \<noteq> ''HTTP/1.1 400 Bad Request'' @ CRLF @ ''Content-Length: 15'' @ CRLF @ CRLF @ ''invalid request''"
  shows "\<not> prefix ''HTTP/'' reply"
proof -
  have cmd: "\<not> prefix ''HTTP/'' r" if "snd (handle_container_cmd checks ins rem j body st) = Inr r" for body r
    using that by (auto simp: handle_container_cmd_def Let_def case_prod_beta and_then_Inr_iff
        split: sum.splits if_splits)
  show ?thesis
    using assms by (auto simp: handle_api_connection_def Let_def case_prod_beta and_then_Inr_iff dest: cmd
        split: sum.splits if_splits)
qed

end
