(* ===== verification/Concurrent.thy ===== *)
theory Concurrent
  imports Api "HOL-Library.Multiset"
begin

text \<open>
  Container commands at the same time. Every connection of \<open>agent/src/api.rs\<close> runs in a task of its
  own, and a command holds the lock of the container table and the mutex of the BPF manager one
  after the other, never together: it is a sequence of atomic parts, and tasks interleave between
  them. This theory splits the handler into its parts, shows that the handler is their sequence,
  and describes every interleaving.
\<close>

section \<open>Interleavings\<close>

text \<open>\<open>merges xss ys\<close>: \<open>ys\<close> is an interleaving of the sequences \<open>xss\<close>.\<close>

inductive merges :: "'a list list \<Rightarrow> 'a list \<Rightarrow> bool" where
  finished: "\<forall>xs \<in> set xss. xs = [] \<Longrightarrow> merges xss []"
| step: "i < length xss \<Longrightarrow> xss ! i = x # xs \<Longrightarrow> merges (xss[i := xs]) ys \<Longrightarrow> merges xss (x # ys)"

inductive_simps merges_Nil: "merges xss []"

lemma merges_mset: "merges xss ys \<Longrightarrow> mset ys = (\<Sum>xs \<in># mset xss. mset xs)"
proof (induction rule: merges.induct)
  case (finished xss)
  then show ?case by (induction xss) auto
next
  case (step i xss x xs ys)
  have xss: "mset xss = add_mset (x # xs) (mset xss - {#x # xs#})"
    using step.hyps(1,2) nth_mem [of i xss] by simp
  have "mset (xss[i := xs]) = add_mset xs (mset xss - {#x # xs#})"
    using step.hyps(1,2) by (simp add: mset_update)
  then show ?case using step.IH by (subst xss) simp
qed

lemma perm_map:
  "mset zs = mset (map f xs) \<Longrightarrow> \<exists>xs'. mset xs' = mset xs \<and> zs = map f xs'"
proof (induction zs arbitrary: xs)
  case (Cons z zs)
  have "z \<in> set (map f xs)" using mset_eq_setD [OF Cons.prems] by (metis list.set_intros(1))
  then obtain x where x: "x \<in> set xs" "z = f x" by auto
  then have "mset zs = mset (map f (remove1 x xs))"
    using Cons.prems by (simp add: image_mset_Diff) (metis add_mset_remove_trivial)
  with Cons.IH obtain xs' where "mset xs' = mset (remove1 x xs)" "zs = map f xs'" by blast
  with x show ?case by (intro exI [of _ "x # xs'"]) simp
qed simp

text \<open>
  A kind of part that no sequence has more than one of: in an interleaving these parts appear as
  they would if the sequences ran one after the other, in some order.
\<close>

lemma merges_one_each:
  assumes "merges xss ys" and "\<forall>xs \<in> set xss. length (filter P xs) \<le> 1"
  shows "\<exists>zss. mset zss = mset xss \<and> filter P ys = concat (map (filter P) zss)"
  using assms
proof (induction rule: merges.induct)
  case (finished xss)
  then have "concat (map (filter P) xss) = []" by auto
  then show ?case by (intro exI [of _ xss]) simp
next
  case (step i xss x xs ys)
  have short: "length (filter P (x # xs)) \<le> 1" using step.prems step.hyps(1,2) nth_mem by metis
  have "\<forall>zs \<in> set (xss[i := xs]). length (filter P zs) \<le> 1"
    using step.prems short set_update_subset_insert [of xss i xs] by (auto split: if_splits)
  with step.IH obtain zss where zss: "mset zss = mset (xss[i := xs])" "filter P ys = concat (map (filter P) zss)"
    by blast
  have xs: "mset (xss[i := xs]) = add_mset xs (mset xss - {#x # xs#})"
    and xss: "mset xss = add_mset (x # xs) (mset xss - {#x # xs#})"
    using step.hyps(1,2) nth_mem [of i xss] by (simp_all add: mset_update)
  have "xs \<in> set zss" using zss(1) xs by (metis set_mset_mset union_single_eq_member)
  then obtain us vs where split: "zss = us @ xs # vs" using split_list by fastforce
  have rest: "mset (us @ vs) = mset xss - {#x # xs#}" using zss(1) unfolding split xs by simp
  show ?case
  proof (cases "P x")
    case True
    then have "filter P xs = []" using short by simp
    then show ?thesis
      using True rest xss zss(2) by (intro exI [of _ "(x # xs) # us @ vs"]) (simp add: split)
  next
    case False
    then show ?thesis
      using rest xss zss(2) by (intro exI [of _ "us @ (x # xs) # vs"]) (simp add: split)
  qed
qed

section \<open>The parts of a command\<close>

datatype atom = TableAdd string string string | TableDel string | RouteAdd ipv4 | RouteDel ipv4 | RouteAlloc string

primrec on_table :: "atom \<Rightarrow> bool" where
  "on_table (TableAdd container_id ip iface) = True"
| "on_table (TableDel container_id) = True"
| "on_table (RouteAdd ip) = False"
| "on_table (RouteDel ip) = False"
| "on_table (RouteAlloc container_id) = False"

text \<open>The parts in the order the handler runs them: the table first, then the routes when the
  address parses; an allocation is one critical section.\<close>

primrec atoms_of :: "request \<Rightarrow> atom list" where
  "atoms_of (Allocate container_id) = [RouteAlloc container_id]"
| "atoms_of (AddContainer container_id ip iface) =
     TableAdd container_id ip iface # (case parse_ipv4 ip of None \<Rightarrow> [] | Some a \<Rightarrow> [RouteAdd a])"
| "atoms_of (DelContainer container_id ip) =
     TableDel container_id # (case parse_ipv4 ip of None \<Rightarrow> [] | Some a \<Rightarrow> [RouteDel a])"
| "atoms_of NoRequest = []"

fun table_effect :: "atom \<Rightarrow> containers \<Rightarrow> containers" where
  "table_effect (TableAdd container_id ip iface) m = add container_id ip iface m"
| "table_effect (TableDel container_id) m = remove container_id m"
| "table_effect _ m = m"

fun route_effect :: "bool \<Rightarrow> u32 insert_fn \<Rightarrow> u32 remove_fn \<Rightarrow> atom \<Rightarrow> bpf_mutex \<Rightarrow> bpf_mutex" where
  "route_effect checks ins rem (RouteAdd a) mx = with_lock (update_container_route ins (u32_of_ipv4 a) 1) mx"
| "route_effect checks ins rem (RouteDel a) mx = with_lock (remove_container_route rem (u32_of_ipv4 a)) mx"
| "route_effect checks ins rem (RouteAlloc container_id) mx = fst (allocate_from_bpf checks ins container_id mx)"
| "route_effect checks ins rem _ mx = mx"

definition exec_atom :: "bool \<Rightarrow> u32 insert_fn \<Rightarrow> u32 remove_fn \<Rightarrow> atom \<Rightarrow> api_state \<Rightarrow> api_state" where
  "exec_atom checks ins rem a st =
     \<lparr>containers = table_effect a (containers st), bpf = route_effect checks ins rem a (bpf st)\<rparr>"

text \<open>A run of tasks: the parts of all commands in one order.\<close>

definition exec_atoms :: "bool \<Rightarrow> u32 insert_fn \<Rightarrow> u32 remove_fn \<Rightarrow> atom list \<Rightarrow> api_state \<Rightarrow> api_state" where
  "exec_atoms checks ins rem = fold (exec_atom checks ins rem)"

lemma handler_is_its_atoms:
  "fst (handle_container_cmd checks ins rem j body st) = exec_atoms checks ins rem (atoms_of (decode j body)) st"
  by (simp add: handle_container_cmd_def decode_def exec_atoms_def exec_atom_def Let_def case_prod_beta
      split: sum.split option.split)

lemma cmd_run_atoms:
  "cmd_run checks ins rem j bodies st =
     exec_atoms checks ins rem (concat (map (\<lambda>body. atoms_of (decode j body)) bodies)) st"
  unfolding cmd_run_def
  by (induction bodies arbitrary: st) (simp_all add: handler_is_its_atoms exec_atoms_def)

section \<open>Each of the two structures on its own\<close>

text \<open>Commands whose sequences have at most one part of a kind.\<close>

locale one_part =
  fixes kind :: "'a \<Rightarrow> bool"
    and parts :: "'c \<Rightarrow> 'a list"
  assumes at_most_one: "length (filter kind (parts c)) \<le> 1"
begin

lemma in_some_order:
  assumes "merges (map parts cs) ys"
  shows "\<exists>cs'. mset cs' = mset cs \<and> filter kind ys = filter kind (concat (map parts cs'))"
proof -
  from merges_one_each [OF assms, of kind] obtain zss where
      "mset zss = mset (map parts cs)" "filter kind ys = concat (map (filter kind) zss)"
    using at_most_one by auto
  then show ?thesis by (metis perm_map filter_concat)
qed

end

interpretation table_parts: one_part on_table "\<lambda>body. atoms_of (decode j body)" for j
proof
  fix body
  show "length (filter on_table (atoms_of (decode j body))) \<le> 1"
    by (cases "decode j body") (auto split: option.split)
qed

interpretation route_parts: one_part "\<lambda>a. \<not> on_table a" "\<lambda>body. atoms_of (decode j body)" for j
proof
  fix body
  show "length (filter (\<lambda>a. \<not> on_table a) (atoms_of (decode j body))) \<le> 1"
    by (cases "decode j body") (auto split: option.split)
qed

lemma containers_exec:
  "containers (exec_atoms checks ins rem as st) = fold table_effect (filter on_table as) (containers st)"
proof (induction as arbitrary: st)
  case (Cons a as)
  then show ?case by (cases a) (simp_all add: exec_atoms_def exec_atom_def)
qed (simp add: exec_atoms_def)

lemma bpf_exec:
  "bpf (exec_atoms checks ins rem as st) = fold (route_effect checks ins rem) (filter (\<lambda>a. \<not> on_table a) as) (bpf st)"
proof (induction as arbitrary: st)
  case (Cons a as)
  then show ?case by (cases a) (simp_all add: exec_atoms_def exec_atom_def)
qed (simp add: exec_atoms_def)

text \<open>
  C14. However the tasks of concurrent container commands interleave, the container table is the
  one that some sequential order of the commands leaves, and the BPF maps (with the state of
  their mutex) are the ones that some sequential order leaves: no update is lost or torn.
\<close>

theorem interleaving_keeps_each_structure:
  assumes "merges (map (\<lambda>body. atoms_of (decode j body)) bodies) as"
  shows "\<exists>order order'. mset order = mset bodies \<and> mset order' = mset bodies \<and>
    containers (exec_atoms checks ins rem as st) = containers (cmd_run checks ins rem j order st) \<and>
    bpf (exec_atoms checks ins rem as st) = bpf (cmd_run checks ins rem j order' st)"
proof -
  from table_parts.in_some_order [OF assms] obtain order where order: "mset order = mset bodies"
    "filter on_table as = filter on_table (concat (map (\<lambda>body. atoms_of (decode j body)) order))" by blast
  from route_parts.in_some_order [OF assms] obtain order' where order': "mset order' = mset bodies"
    "filter (\<lambda>a. \<not> on_table a) as = filter (\<lambda>a. \<not> on_table a) (concat (map (\<lambda>body. atoms_of (decode j body)) order'))"
    by blast
  have "containers (exec_atoms checks ins rem as st) = containers (cmd_run checks ins rem j order st)"
    by (simp add: cmd_run_atoms containers_exec order(2))
  moreover have "bpf (exec_atoms checks ins rem as st) = bpf (cmd_run checks ins rem j order' st)"
    by (simp add: cmd_run_atoms bpf_exec order'(2))
  ultimately show ?thesis using order(1) order'(1) by blast
qed

section \<open>Both structures together\<close>

text \<open>Two commands of two parts each; the second runs between the parts of the first.\<close>

lemma merges_inside: "merges [[a, a'], [b, b']] [a, b, b', a']"
  by (rule merges.step [of 0], simp, simp, simp, rule merges.step [of 1], simp, simp, simp,
      rule merges.step [of 1], simp, simp, simp, rule merges.step [of 0], simp, simp, simp, simp add: merges_Nil)

abbreviation web_ip :: ipv4 where
  "web_ip \<equiv> Ipv4 10 244 0 9"

definition split_run :: "atom list" where
  "split_run = [TableAdd ''web'' (show_ipv4 web_ip) '''', TableDel ''web'', RouteDel web_ip, RouteAdd web_ip]"

lemma split_run_merges: "merges (map (\<lambda>body. atoms_of (decode sample_json body)) [[1], [2]]) split_run"
  by (simp add: split_run_def merges_inside)

lemma interleaving_keeps_each_structure_witness:
  "\<exists>order. mset order = mset [[1], [2] :: bytes] \<and>
     bpf (exec_atoms False set_key del_key split_run sample_api_state) =
       bpf (cmd_run False set_key del_key sample_json order sample_api_state)"
  using interleaving_keeps_each_structure [OF split_run_merges, of False set_key del_key sample_api_state] by blast

section \<open>Commands on different containers\<close>

text \<open>When parts of different sequences commute, an interleaving has the effect of the sequences
  one after the other.\<close>

lemma fold_move_front:
  assumes "\<forall>u \<in> set us. f x \<circ> f u = f u \<circ> f x"
  shows "fold f (us @ x # vs) s = fold f (x # us @ vs) s"
  using assms
proof (induction us arbitrary: s)
  case (Cons u us)
  have "fold f (us @ x # vs) (f u s) = fold f (us @ vs) (f x (f u s))" using Cons by simp
  also have "f x (f u s) = f u (f x s)" using Cons.prems by (metis comp_apply list.set_intros(1))
  finally show ?case by simp
qed simp

lemma merges_commuting:
  assumes "merges xss ys"
    and "\<forall>i j. i < j \<and> j < length xss \<longrightarrow> (\<forall>u \<in> set (xss ! i). \<forall>x \<in> set (xss ! j). f x \<circ> f u = f u \<circ> f x)"
  shows "fold f ys s = fold f (concat xss) s"
  using assms
proof (induction arbitrary: s rule: merges.induct)
  case (finished xss)
  then have "concat xss = []" by (simp add: concat_eq_Nil_conv)
  then show ?case by (simp only: fold_simps)
next
  case (step i xss x xs ys)
  have xss: "xss = take i xss @ (x # xs) # drop (Suc i) xss" using id_take_nth_drop [OF step.hyps(1)] step.hyps(2) by simp
  have sub: "set (xss[i := xs] ! k) \<subseteq> set (xss ! k)" if "k < length xss" for k
    using step.hyps(2) that by (cases "k = i") auto
  have "\<forall>u \<in> set (xss[i := xs] ! k). \<forall>v \<in> set (xss[i := xs] ! l). f v \<circ> f u = f u \<circ> f v"
    if "k < l" "l < length xss" for k l
    using step.prems that sub [of k] sub [of l] by (meson order.strict_trans subsetD)
  then have "fold f ys (f x s) = fold f (concat (xss[i := xs])) (f x s)"
    by (intro step.IH) (simp only: length_list_update, blast)
  also have "xss[i := xs] = take i xss @ xs # drop (Suc i) xss" using step.hyps(1) by (rule upd_conv_take_nth_drop)
  also have "fold f (concat \<dots>) (f x s) = fold f (x # concat (take i xss) @ (xs @ concat (drop (Suc i) xss))) s" by simp
  also have "\<dots> = fold f (concat (take i xss) @ x # (xs @ concat (drop (Suc i) xss))) s"
  proof (rule fold_move_front [symmetric], rule ballI)
    fix u
    assume "u \<in> set (concat (take i xss))"
    then obtain us where "us \<in> set (take i xss)" "u \<in> set us" by auto
    then obtain k where "k < i" "u \<in> set (xss ! k)" by (metis in_set_conv_nth length_take min_less_iff_conj nth_take)
    with step.prems step.hyps(1,2) show "f x \<circ> f u = f u \<circ> f x" by (metis list.set_intros(1))
  qed
  also have "concat (take i xss) @ x # (xs @ concat (drop (Suc i) xss)) = concat xss" by (subst (3) xss) simp
  finally show ?case by simp
qed

text \<open>What a part does to the view of the specification, and the entry it touches.\<close>

primrec atom_spec :: "atom \<Rightarrow> view \<Rightarrow> view" where
  "atom_spec (TableAdd container_id ip iface) s =
     ((fst s)(container_id \<mapsto> \<lparr>ci_container_id = container_id, ci_ip = ip, ci_host_iface = iface\<rparr>), snd s)"
| "atom_spec (TableDel container_id) s = ((fst s)(container_id := None), snd s)"
| "atom_spec (RouteAdd a) s = (fst s, (snd s)(u32_of_ipv4 a \<mapsto> 1))"
| "atom_spec (RouteDel a) s = (fst s, (snd s)(u32_of_ipv4 a := None))"
| "atom_spec (RouteAlloc container_id) s = (fst s, (snd s)(u32_of_ipv4 (alloc_ip container_id) \<mapsto> 1))"

primrec atom_key :: "atom \<Rightarrow> string + ipv4" where
  "atom_key (TableAdd container_id ip iface) = Inl container_id"
| "atom_key (TableDel container_id) = Inl container_id"
| "atom_key (RouteAdd a) = Inr a"
| "atom_key (RouteDel a) = Inr a"
| "atom_key (RouteAlloc container_id) = Inr (alloc_ip container_id)"

definition independent :: "request \<Rightarrow> request \<Rightarrow> bool" where
  "independent r r' \<longleftrightarrow> set (map atom_key (atoms_of r)) \<inter> set (map atom_key (atoms_of r')) = {}"

lemma atom_spec_commute: "atom_key a \<noteq> atom_key b \<Longrightarrow> atom_spec a \<circ> atom_spec b = atom_spec b \<circ> atom_spec a"
  by (cases a; cases b) (auto simp: fun_eq_iff)

lemma fold_atom_spec: "fold atom_spec (atoms_of r) s = spec_step r s"
  by (cases r) (simp_all add: put_route_def split: option.split)

lemma fold_atoms_of:
  "fold atom_spec (concat (map (\<lambda>body. atoms_of (decode j body)) bodies)) v = fold spec_step (map (decode j) bodies) v"
  by (induction bodies arbitrary: v) (simp_all add: fold_atom_spec)

lemma exec_atom_refines:
  assumes "kernel_ok ins rem" and "healthy st"
  shows "view_of (exec_atom False ins rem a st) = atom_spec a (view_of st)" and "healthy (exec_atom False ins rem a st)"
proof -
  have h: "\<not> poisoned (bpf st)" "container_route (maps (guarded (bpf st))) \<noteq> None"
    using assms(2) by (simp_all add: healthy_def)
  note ops = with_lock_update [OF assms(1) h] with_lock_remove [OF assms(1) h] reserve_routes [OF assms(1) h(2)]
  show "view_of (exec_atom False ins rem a st) = atom_spec a (view_of st)"
    by (cases a) (simp_all add: exec_atom_def view_of_def allocate_from_bpf_eq h ops add_def remove_def)
  show "healthy (exec_atom False ins rem a st)"
    using h by (cases a) (simp_all add: exec_atom_def healthy_def allocate_from_bpf_eq ops del: not_None_eq)
qed

lemma exec_atoms_refine:
  assumes "kernel_ok ins rem" and "healthy st"
  shows "view_of (exec_atoms False ins rem as st) = fold atom_spec as (view_of st)"
  using assms(2)
proof (induction as arbitrary: st)
  case (Cons a as)
  from Cons.IH [OF exec_atom_refines(2) [OF assms(1) Cons.prems]] exec_atom_refines(1) [OF assms(1) Cons.prems]
  show ?case by (simp add: exec_atoms_def)
qed (simp add: exec_atoms_def)

text \<open>
  C5. Concurrent commands on different containers and addresses do not disturb each other: in a
  build without overflow checks, however their tasks interleave, the container table and the
  routes end up as the specification says for the commands one after the other.
\<close>

theorem independent_commands_refine_spec:
  assumes "kernel_ok ins rem" and "healthy st"
    and "merges (map (\<lambda>body. atoms_of (decode j body)) bodies) as"
    and "sorted_wrt independent (map (decode j) bodies)"
  shows "view_of (exec_atoms False ins rem as st) = fold spec_step (map (decode j) bodies) (view_of st)"
proof -
  let ?xss = "map (\<lambda>body. atoms_of (decode j body)) bodies"
  have "atom_spec x \<circ> atom_spec u = atom_spec u \<circ> atom_spec x"
    if "i < k" "k < length ?xss" "u \<in> set (?xss ! i)" "x \<in> set (?xss ! k)" for i k u x
  proof (rule atom_spec_commute)
    have "independent (decode j (bodies ! i)) (decode j (bodies ! k))"
      using assms(4) that by (simp add: sorted_wrt_iff_nth_less)
    with that show "atom_key x \<noteq> atom_key u" by (fastforce simp: independent_def)
  qed
  then have "fold atom_spec as (view_of st) = fold atom_spec (concat ?xss) (view_of st)"
    by (intro merges_commuting [OF assms(3)]) blast
  also have "\<dots> = fold spec_step (map (decode j) bodies) (view_of st)"
    by (rule fold_atoms_of)
  finally show ?thesis by (simp add: exec_atoms_refine [OF assms(1,2)])
qed

lemma independent_commands_refine_spec_witness:
  "view_of (exec_atoms False set_key del_key
      [TableAdd ''web'' (show_ipv4 web_ip) '''', RouteAlloc ''hd'', RouteAdd web_ip] sample_api_state) =
   fold spec_step [AddContainer ''web'' (show_ipv4 web_ip) '''', Allocate ''hd''] (view_of sample_api_state)"
proof -
  have "merges (map (\<lambda>body. atoms_of (decode sample_json body)) [[1], [3]])
      [TableAdd ''web'' (show_ipv4 web_ip) '''', RouteAlloc ''hd'', RouteAdd web_ip]"
    by simp (rule merges.step [of 0], simp, simp, simp, rule merges.step [of 1], simp, simp, simp,
        rule merges.step [of 0], simp, simp, simp, simp add: merges_Nil)
  moreover have "alloc_ip ''hd'' \<noteq> web_ip"
    by (simp add: alloc_ip_def alloc_host_def hash_byte_def hash_id_def)
  ultimately show ?thesis
    using independent_commands_refine_spec [OF kernel_ok_sample healthy_sample, of sample_json "[[1], [3]]"]
    by (simp add: independent_def)
qed

section \<open>Commands on the same container\<close>

text \<open>
  C30. The two structures are not updated together: for every \<open>add\<close> and \<open>del\<close> of one container and
  address there is an interleaving of the two commands after which the address has a route and
  the container is not in the table. After either order of the two commands, one after the other,
  container and route are both there or both gone.
\<close>

theorem interleaving_leaves_stray_route:
  assumes "kernel_ok ins rem" and "healthy st" and "parse_ipv4 ip = Some a"
    and "decode j body = AddContainer cid ip iface" and "decode j body' = DelContainer cid ip"
  shows "(\<exists>as. merges (map (\<lambda>body. atoms_of (decode j body)) [body, body']) as \<and>
      containers (exec_atoms False ins rem as st) cid = None \<and>
      route_of (guarded (bpf (exec_atoms False ins rem as st))) (u32_of_ipv4 a) = Some 1) \<and>
    (\<forall>order \<in> {[body, body'], [body', body]}.
      containers (cmd_run False ins rem j order st) cid = None \<longleftrightarrow>
      route_of (guarded (bpf (cmd_run False ins rem j order st))) (u32_of_ipv4 a) = None)"
proof -
  let ?as = "[TableAdd cid ip iface, TableDel cid, RouteDel a, RouteAdd a]"
  have atoms: "atoms_of (decode j body) = [TableAdd cid ip iface, RouteAdd a]"
    "atoms_of (decode j body') = [TableDel cid, RouteDel a]"
    using assms(3-5) by simp_all
  have view: "containers (exec_atoms False ins rem as st) = fst (fold atom_spec as (view_of st))"
    "route_of (guarded (bpf (exec_atoms False ins rem as st))) = snd (fold atom_spec as (view_of st))" for as
    using exec_atoms_refine [OF assms(1,2), of as] by (simp_all add: view_of_def prod_eq_iff)
  have "merges (map (\<lambda>body. atoms_of (decode j body)) [body, body']) ?as"
    by (simp add: atoms merges_inside)
  moreover have "containers (exec_atoms False ins rem ?as st) cid = None"
    "route_of (guarded (bpf (exec_atoms False ins rem ?as st))) (u32_of_ipv4 a) = Some 1"
    by (simp_all add: view)
  moreover have "containers (cmd_run False ins rem j order st) cid = None \<longleftrightarrow>
      route_of (guarded (bpf (cmd_run False ins rem j order st))) (u32_of_ipv4 a) = None"
    if "order \<in> {[body, body'], [body', body]}" for order
    using that by (auto simp: cmd_run_atoms atoms view)
  ultimately show ?thesis by (intro conjI exI [of _ ?as] ballI)
qed

lemma interleaving_leaves_stray_route_witness:
  "\<exists>as. merges (map (\<lambda>body. atoms_of (decode sample_json body)) [[1], [2]]) as \<and>
     containers (exec_atoms False set_key del_key as sample_api_state) ''web'' = None \<and>
     route_of (guarded (bpf (exec_atoms False set_key del_key as sample_api_state))) (u32_of_ipv4 web_ip) = Some 1"
proof -
  have "decode sample_json [1] = AddContainer ''web'' (show_ipv4 web_ip) ''''"
    "decode sample_json [2] = DelContainer ''web'' (show_ipv4 web_ip)" by simp_all
  from interleaving_leaves_stray_route [OF kernel_ok_sample healthy_sample _ this] show ?thesis by simp
qed

section \<open>Connections\<close>

text \<open>The container command a connection delivers, if it delivers one, and its parts.\<close>

definition container_body :: "conn_end \<Rightarrow> string \<Rightarrow> bytes option" where
  "container_body e stream =
     (case fst (read_line e stream) of
        Inl _ \<Rightarrow> None
      | Inr request_line \<Rightarrow>
          let parts = split_whitespace request_line;
              (content_length, rest) = read_headers e (snd (read_line e stream)) 0
          in if 3 \<le> length parts \<and> content_length \<le> ISIZE_MAX \<and> content_length \<le> length rest \<and>
                parts ! 0 = ''POST'' \<and> parts ! 1 = ''/api/v1/container''
             then Some (as_bytes (take content_length rest)) else None)"

definition conn_atoms :: "'j json_api \<Rightarrow> conn_end \<Rightarrow> string \<Rightarrow> atom list" where
  "conn_atoms j e stream = (case container_body e stream of None \<Rightarrow> [] | Some body \<Rightarrow> atoms_of (decode j body))"

lemma connection_is_its_atoms:
  "fst (handle_api_connection checks ins rem j e stream st) = exec_atoms checks ins rem (conn_atoms j e stream) st"
  by (auto simp: handle_api_connection_def conn_atoms_def container_body_def Let_def case_prod_beta
      handler_is_its_atoms exec_atoms_def split: sum.split)

lemma length_atoms_of: "length (atoms_of r) \<le> 2"
  by (cases r) (auto split: option.split)

lemma length_conn_atoms: "length (conn_atoms j e stream) \<le> 2"
  by (simp add: conn_atoms_def length_atoms_of split: option.split)

end
