(* ===== verification/Metrics.thy ===== *)
theory Metrics
  imports Config Api
begin

text \<open>
  \<open>agent/src/metrics.rs\<close>: the metrics server. It answers every connection with the same two
  gauges, without reading the request. The accept loop is an \<open>accept_server\<close>; a client that reads
  the text format of Prometheus gets the values back.
\<close>

section \<open>The server\<close>

definition LF :: string where
  "LF = [CHR 0x0A]"

definition metrics_response :: "nat \<Rightarrow> nat_type \<Rightarrow> string" where
  "metrics_response uptime t =
     ''HTTP/1.1 200 OK'' @ CRLF @ ''Content-Type: text/plain; version=0.0.4'' @ CRLF @ CRLF @
     ''# HELP nomad_p2p_uptime_seconds Agent uptime'' @ LF @
     ''# TYPE nomad_p2p_uptime_seconds gauge'' @ LF @
     ''nomad_p2p_uptime_seconds '' @ dec uptime @ LF @
     ''# HELP nomad_p2p_nat_type NAT type (0=unknown 1=easy 2=symmetric)'' @ LF @
     ''# TYPE nomad_p2p_nat_type gauge'' @ LF @
     ''nomad_p2p_nat_type '' @ dec (unat (nat_type_code t)) @ LF"

definition serve_metrics :: "nat \<Rightarrow> agent_state \<Rightarrow> string" where
  "serve_metrics now st = metrics_response (now - start_time st) (st_nat_type st)"

definition metrics_step :: "bool \<Rightarrow> 'c accept_event \<Rightarrow> bool \<times> 'c option" where
  "metrics_step stop ev =
     (case ev of
        CtrlC \<Rightarrow> (False, None)
      | Accepted stream \<Rightarrow> if stop then (False, None) else (True, Some stream)
      | AcceptError _ \<Rightarrow> if stop then (False, None) else (True, None))"

text \<open>The whole server. A connection is what its task meets when it runs: the clock, the shared
  state, and after how many bytes the peer breaks off, if it does.\<close>

definition metrics_serve ::
    "(socket_addr \<Rightarrow> unit res) \<Rightarrow> u16 \<Rightarrow> (bool \<times> (nat \<times> agent_state \<times> nat option) accept_event) list \<Rightarrow> string list" where
  "metrics_serve bind_addr port rounds =
     (case bind_addr (SocketV4 (Ipv4 0 0 0 0) port) of
        Inl _ \<Rightarrow> []
      | Inr _ \<Rightarrow> map (\<lambda>(now, st, limit). send_raw limit (serve_metrics now st)) (serve_run metrics_step rounds))"

interpretation metrics_accept: accept_server metrics_step
  by unfold_locales (simp_all add: metrics_step_def split: accept_event.split)

section \<open>What a scrape reads\<close>

text \<open>A reader of the text format: the body after the empty line, its lines without comments, and
  the number that follows the name.\<close>

fun body_of :: "string \<Rightarrow> string" where
  "body_of (a # b # c # d # s) =
     (if [a, b, c, d] = CRLF @ CRLF then s else body_of (b # c # d # s))"
| "body_of s = []"

definition sample_value :: "string \<Rightarrow> string \<Rightarrow> nat option" where
  "sample_value name l =
     (if prefix (name @ '' '') l
      then (let (ds, rest) = read_digits 10 (drop (length name + 1) l)
            in if ds \<noteq> [] \<and> rest = [] then Some (digits_val 10 ds) else None)
      else None)"

definition scrape :: "string \<Rightarrow> string \<Rightarrow> nat option" where
  "scrape response name =
     (case List.map_filter (sample_value name) (filter (\<lambda>l. \<not> prefix ''#'' l) (str_lines (body_of response))) of
        [] \<Rightarrow> None | v # _ \<Rightarrow> Some v)"

definition metrics_lines :: "nat \<Rightarrow> nat_type \<Rightarrow> string list" where
  "metrics_lines uptime t =
     [''# HELP nomad_p2p_uptime_seconds Agent uptime'',
      ''# TYPE nomad_p2p_uptime_seconds gauge'',
      ''nomad_p2p_uptime_seconds '' @ dec uptime,
      ''# HELP nomad_p2p_nat_type NAT type (0=unknown 1=easy 2=symmetric)'',
      ''# TYPE nomad_p2p_nat_type gauge'',
      ''nomad_p2p_nat_type '' @ dec (unat (nat_type_code t))]"

lemma body_of_response:
  "body_of (metrics_response uptime t) = concat (map (\<lambda>l. l @ [CHR 0x0A]) (metrics_lines uptime t))"
  by (simp add: metrics_response_def metrics_lines_def CRLF_def LF_def)

lemma dec_no_ws: "is_ws c \<Longrightarrow> c \<notin> set (dec n)"
  using dec_char by blast

lemma ws_chars [simp]: "is_ws CHR 0x0A" "is_ws CHR 0x0D" "is_ws CHR '' ''"
  by (simp_all add: is_ws_def)

lemma strip_cr_dec: "strip_cr (l @ dec n) = l @ dec n"
proof -
  have "last (dec n) \<in> set (dec n)" by simp
  then have "last (l @ dec n) \<noteq> CHR 0x0D" using dec_no_ws [OF ws_chars(2), of n] by (metis last_appendR dec_nonempty)
  then show ?thesis by (simp add: strip_cr_def)
qed

lemma lines_of_response:
  "filter (\<lambda>l. \<not> prefix ''#'' l) (str_lines (body_of (metrics_response uptime t))) =
     [''nomad_p2p_uptime_seconds '' @ dec uptime, ''nomad_p2p_nat_type '' @ dec (unat (nat_type_code t))]"
proof -
  have "list_all (\<lambda>l. CHR 0x0A \<notin> set l) (metrics_lines uptime t)"
    by (simp add: metrics_lines_def dec_no_ws)
  then have "str_lines (body_of (metrics_response uptime t)) = map strip_cr (metrics_lines uptime t)"
    unfolding body_of_response by (rule str_lines_concat)
  moreover have "filter (\<lambda>l. \<not> prefix ''#'' l) (map strip_cr (metrics_lines uptime t)) =
      [strip_cr (''nomad_p2p_uptime_seconds '' @ dec uptime), strip_cr (''nomad_p2p_nat_type '' @ dec (unat (nat_type_code t)))]"
    by (simp add: metrics_lines_def strip_cr_def)
  ultimately show ?thesis by (simp only: strip_cr_dec)
qed

lemma name_of_sample:
  assumes "prefix (name @ '' '') (n @ CHR '' '' # d)" and "CHR '' '' \<notin> set n" and "CHR '' '' \<notin> set d"
  shows "name = n"
  using assms by (auto simp: prefix_def append_eq_append_conv2 Cons_eq_append_conv append_eq_Cons_conv)

lemma sample_value_dec:
  assumes "CHR '' '' \<notin> set n"
  shows "sample_value name (n @ CHR '' '' # dec v) = (if name = n then Some v else None)"
  using name_of_sample [OF _ assms dec_no_ws [OF ws_chars(3)], of name v]
  by (auto simp: sample_value_def read_digits_dec digits_val_digits prefix_def)

text \<open>
  C25. A scrape reads back what the agent knows: from the answer of the metrics server a reader of
  the text format gets the seconds since the start under \<open>nomad_p2p_uptime_seconds\<close> and the code
  of the NAT type under \<open>nomad_p2p_nat_type\<close>, and no value under any other name (the README lists
  seven more).
\<close>

theorem scrape_metrics:
  "scrape (serve_metrics now st) name =
     (if name = ''nomad_p2p_uptime_seconds'' then Some (now - start_time st)
      else if name = ''nomad_p2p_nat_type'' then Some (unat (nat_type_code (st_nat_type st)))
      else None)"
proof -
  let ?u = "''nomad_p2p_uptime_seconds''" and ?t = "''nomad_p2p_nat_type''"
  have "sample_value name (?u @ CHR '' '' # dec v) = (if name = ?u then Some v else None)"
    "sample_value name (?t @ CHR '' '' # dec v) = (if name = ?t then Some v else None)" for v
    by (rule sample_value_dec, simp)+
  then have "sample_value name (''nomad_p2p_uptime_seconds '' @ dec v) = (if name = ?u then Some v else None)"
    "sample_value name (''nomad_p2p_nat_type '' @ dec v) = (if name = ?t then Some v else None)" for v
    by simp_all
  then show ?thesis
    by (simp only: scrape_def serve_metrics_def lines_of_response map_filter_simps list.case option.case if_split) auto
qed

text \<open>
  C26. Both servers of the agent serve every connection they accept until they are told to stop,
  whatever errors \<open>accept\<close> returns in between, and none afterwards; a server that cannot bind
  its port serves none and the agent goes on without it.
\<close>

theorem servers_serve_until_stopped:
  "api_server bind_api port rounds = (case bind_api (''127.0.0.1:'' @ dec (unat port)) of Inl _ \<Rightarrow> [] | Inr _ \<Rightarrow> served rounds) \<and>
   metrics_serve bind_metrics port' rounds' =
     (case bind_metrics (SocketV4 (Ipv4 0 0 0 0) port') of
        Inl _ \<Rightarrow> []
      | Inr _ \<Rightarrow> map (\<lambda>(now, st, limit). send_raw limit (serve_metrics now st)) (served rounds'))"
  by (simp add: api_server_def metrics_serve_def api_accept.serve_run_served metrics_accept.serve_run_served
      split: sum.split)

end
