(* ===== verification/Route.thy ===== *)
theory Route
  imports Bpf
begin

text \<open>
  \<open>agent/src/route.rs\<close>: the route-miss pipeline. \<open>ringbuf_consumer\<close> reads the addresses
  the data plane could not route and queues them (\<open>submit_miss\<close>, bounded);
  \<open>discovery_loop\<close> drains the queue in batches (\<open>drain_batch\<close>), leaving out addresses
  that are cooling down, and acts on each address of the batch. An \<open>Instant\<close> is a number
  of nanoseconds.

  The first part models the operations, the second shows that the cooldown table is a
  \<open>window_gate\<close>, the third models the tasks as interleaved steps on the shared state.
\<close>

section \<open>Operations\<close>

definition COOLDOWN :: nat where
  [struct_defs]: "COOLDOWN = 5 * 10 ^ 9"

definition MAX_PENDING :: nat where
  [struct_defs]: "MAX_PENDING = 4096"

type_synonym cooldowns = "u32 \<rightharpoonup> nat"

record route_manager =
  pending :: "u32 list"
  cooldowns :: cooldowns

definition new_route_manager :: route_manager where
  "new_route_manager = \<lparr>pending = [], cooldowns = Map.empty\<rparr>"

text \<open>\<open>submit_miss\<close> takes the lock of the queue twice: to read its length, and to push.\<close>

definition submit_check :: "route_manager \<Rightarrow> bool" where
  "submit_check rm \<longleftrightarrow> \<not> length (pending rm) \<ge> MAX_PENDING"

definition submit_push :: "u32 \<Rightarrow> route_manager \<Rightarrow> route_manager" where
  "submit_push overlay_ip rm = rm\<lparr>pending := pending rm @ [overlay_ip]\<rparr>"

definition submit_miss :: "u32 \<Rightarrow> route_manager \<Rightarrow> route_manager" where
  "submit_miss overlay_ip rm = (if \<not> submit_check rm then rm else submit_push overlay_ip rm)"

definition retain_cooldowns :: "nat \<Rightarrow> cooldowns \<Rightarrow> cooldowns" where
  "retain_cooldowns now cd =
     (\<lambda>ip. case cd ip of None \<Rightarrow> None | Some expires \<Rightarrow> if expires > now then Some expires else None)"

fun drain_loop :: "nat \<Rightarrow> u32 list \<Rightarrow> cooldowns \<Rightarrow> u32 list \<Rightarrow> u32 list \<times> cooldowns" where
  "drain_loop now [] cd batch = (batch, cd)"
| "drain_loop now (ip # ips) cd batch =
     (if cd ip \<noteq> None then drain_loop now ips cd batch
      else drain_loop now ips (cd(ip \<mapsto> now + COOLDOWN)) (batch @ [ip]))"

definition drain_batch :: "nat \<Rightarrow> route_manager \<Rightarrow> u32 list \<times> route_manager" where
  "drain_batch now rm =
     (let (batch, cd) = drain_loop now (pending rm) (retain_cooldowns now (cooldowns rm)) []
      in (batch, \<lparr>pending = [], cooldowns = cd\<rparr>))"

text \<open>One record of the ring buffer, as the consumer decodes it.\<close>

definition decode_miss :: "bytes \<Rightarrow> u32 option" where
  "decode_miss data = (if 4 \<le> length data then Some (u32_from_le_bytes (take 4 data)) else None)"

text \<open>One round of \<open>ringbuf_consumer\<close>: take the next record, if there is one (\<open>ring_next\<close>, the
  blocking closure), and submit what it decodes to; a short record is dropped.\<close>

definition ring_next :: "bpf_manager \<Rightarrow> bpf_manager \<times> u32 option" where
  "ring_next b =
     (case ringbuf b of
        None \<Rightarrow> (b, None)
      | Some [] \<Rightarrow> (b, None)
      | Some (data # rest) \<Rightarrow> (b\<lparr>ringbuf := Some rest\<rparr>, decode_miss data))"

definition ringbuf_consumer_step :: "bpf_manager \<Rightarrow> route_manager \<Rightarrow> bpf_manager \<times> route_manager" where
  "ringbuf_consumer_step b rm =
     (case ring_next b of
        (b', None) \<Rightarrow> (b', rm)
      | (b', Some ip) \<Rightarrow> (b', submit_miss ip rm))"

text \<open>
  The body of \<open>discovery_loop\<close> for one address: send it on the channel to the Kademlia task
  when there is one, and write a container route to it; a failed send and a failed insert
  are ignored. \<open>kad_tx\<close> is the sender: \<open>None\<close> when there is none, \<open>Some open\<close> with \<open>open\<close>
  telling whether the receiver still lives; \<open>send\<close> of \<open>tokio::sync::mpsc\<close> fails, and
  delivers nothing, once the receiver has been dropped. \<open>sent\<close> is the content of the
  channel.
\<close>

definition kad_send :: "bool \<Rightarrow> u32 \<Rightarrow> u32 list \<Rightarrow> u32 list res" where
  "kad_send receiver ip sent = (if receiver then Inr (sent @ [ip]) else Inl (Error ''channel closed''))"

definition discover_one ::
    "u32 insert_fn \<Rightarrow> bool option \<Rightarrow> u32 \<Rightarrow> bpf_manager \<times> u32 list \<Rightarrow> bpf_manager \<times> u32 list" where
  "discover_one ins kad_tx ip st =
     (let (b, sent) = st;
          sent = (case kad_tx of
                    None \<Rightarrow> sent
                  | Some receiver \<Rightarrow> (case kad_send receiver ip sent of Inl _ \<Rightarrow> sent | Inr sent \<Rightarrow> sent))
      in case container_route (maps b) of
           None \<Rightarrow> (b, sent)
         | Some m \<Rightarrow>
             (case ins m ip 1 of
                Inl _ \<Rightarrow> (b, sent)
              | Inr m' \<Rightarrow> (b\<lparr>maps := (maps b)\<lparr>container_route := Some m'\<rparr>\<rparr>, sent)))"

definition discovery_step ::
    "u32 insert_fn \<Rightarrow> bool option \<Rightarrow> nat \<Rightarrow> route_manager \<Rightarrow> bpf_manager \<times> u32 list \<Rightarrow>
     route_manager \<times> bpf_manager \<times> u32 list" where
  "discovery_step ins kad_tx now rm st =
     (let (batch, rm') = drain_batch now rm;
          (b, sent) = fold (discover_one ins kad_tx) batch st
      in (rm', b, sent))"

section \<open>The cooldown table is a gate\<close>

text \<open>One address asking for a query at time \<open>now\<close>.\<close>

definition cool_admit :: "nat \<Rightarrow> u32 \<Rightarrow> cooldowns \<Rightarrow> bool \<times> cooldowns" where
  "cool_admit now ip cd =
     (let cd = retain_cooldowns now cd
      in if cd ip \<noteq> None then (False, cd) else (True, cd(ip \<mapsto> now + COOLDOWN)))"

definition queried_at :: "cooldowns \<Rightarrow> u32 \<Rightarrow> nat option" where
  "queried_at cd ip = map_option (\<lambda>expires. expires - COOLDOWN) (cd ip)"

definition cooldowns_ok :: "cooldowns \<Rightarrow> bool" where
  "cooldowns_ok cd \<longleftrightarrow> (\<forall>ip expires. cd ip = Some expires \<longrightarrow> COOLDOWN \<le> expires)"

lemma retain_eq_Some [simp]:
  "retain_cooldowns now cd ip = Some e \<longleftrightarrow> cd ip = Some e \<and> now < e"
  by (auto simp: retain_cooldowns_def split: option.splits)

lemma retain_eq_None:
  "retain_cooldowns now cd ip = None \<longleftrightarrow> (\<forall>e. cd ip = Some e \<longrightarrow> e \<le> now)"
  by (auto simp: retain_cooldowns_def split: option.splits)

lemma retain_idem [simp]: "retain_cooldowns now (retain_cooldowns now cd) = retain_cooldowns now cd"
  by (auto simp: retain_cooldowns_def fun_eq_iff split: option.splits)

lemma retain_upd [simp]:
  "retain_cooldowns now ((retain_cooldowns now cd)(ip \<mapsto> now + COOLDOWN)) =
     (retain_cooldowns now cd)(ip \<mapsto> now + COOLDOWN)"
  by (auto simp: retain_cooldowns_def COOLDOWN_def fun_eq_iff split: option.splits)

interpretation cooldown_gate:
  window_gate cool_admit "\<lambda>ip. ip" queried_at "\<lambda>t. t" "\<lambda>_. True" COOLDOWN cooldowns_ok
proof (unfold_locales, goal_cases)
  case (1 s r t0 t)
  then obtain e where "s r = Some e" "e = t0 + COOLDOWN"
    by (auto simp: queried_at_def cooldowns_ok_def)
  with 1 show ?case by (auto simp: cool_admit_def Let_def)
next
  case (2 s t r)
  then show ?case by (auto simp: cool_admit_def queried_at_def Let_def split: if_splits)
next
  case (3 s k t0 t r)
  then obtain e where e: "s k = Some e" "e = t0 + COOLDOWN"
    by (auto simp: queried_at_def cooldowns_ok_def)
  with 3 have "retain_cooldowns t s k = Some e" by simp
  with e show ?case by (auto simp: cool_admit_def queried_at_def Let_def)
next
  case (4 s t r)
  then show ?case by (auto simp: cool_admit_def cooldowns_ok_def Let_def)
qed

text \<open>\<open>drain_batch\<close> is a run of the gate over the pending addresses.\<close>

lemma drain_loop_gate:
  "cd = retain_cooldowns now cd \<Longrightarrow>
   drain_loop now ips cd batch =
     (batch @ map snd (admitted cool_admit (map (Pair now) ips) cd),
      snd (gate_run cool_admit (map (Pair now) ips) cd))"
proof (induction ips arbitrary: cd batch)
  case (Cons ip ips)
  have step: "cool_admit now ip cd =
      (if cd ip \<noteq> None then (False, cd) else (True, cd(ip \<mapsto> now + COOLDOWN)))"
    using Cons.prems by (simp add: cool_admit_def Let_def)
  have upd: "cd(ip \<mapsto> now + COOLDOWN) = retain_cooldowns now (cd(ip \<mapsto> now + COOLDOWN))"
    using Cons.prems by (metis retain_upd)
  show ?case
  proof (cases "cd ip")
    case None
    then show ?thesis
      by (simp add: step snd_gate_run_Cons Cons.IH [OF upd] del: gate_run.simps(2))
        (simp add: fun_upd_def)
  next
    case (Some e)
    then show ?thesis
      by (simp add: step snd_gate_run_Cons Cons.IH [OF Cons.prems] del: gate_run.simps(2))
  qed
qed simp

lemma retain_retain: "t \<le> now \<Longrightarrow> retain_cooldowns now (retain_cooldowns t cd) = retain_cooldowns now cd"
  by (auto simp: retain_cooldowns_def fun_eq_iff split: option.splits)

lemma cool_admit_retain: "cool_admit now ip (retain_cooldowns now cd) = cool_admit now ip cd"
  by (simp add: cool_admit_def)

lemma drain_batch_gate:
  fixes now rm
  defines "reqs \<equiv> map (Pair now) (pending rm)"
  shows "fst (drain_batch now rm) = map snd (admitted cool_admit reqs (cooldowns rm))"
    and "pending rm \<noteq> [] \<Longrightarrow> cooldowns (snd (drain_batch now rm)) = snd (gate_run cool_admit reqs (cooldowns rm))"
    and "pending rm = [] \<Longrightarrow> cooldowns (snd (drain_batch now rm)) = retain_cooldowns now (cooldowns rm)"
    and "pending (snd (drain_batch now rm)) = []"
  unfolding reqs_def
  by (cases "pending rm"; simp add: drain_batch_def drain_loop_gate snd_gate_run_Cons cool_admit_retain
      del: drain_loop.simps gate_run.simps(2))+

lemma drain_batch_cong:
  "retain_cooldowns now (cooldowns rm) = retain_cooldowns now cd \<Longrightarrow>
   drain_batch now rm = drain_batch now (rm\<lparr>cooldowns := cd\<rparr>)"
  by (simp add: drain_batch_def)

text \<open>What one drain does, without the loop.\<close>

lemma drain_loop_spec:
  "drain_loop now ips cd batch = (batch', cd') \<Longrightarrow>
     \<exists>new. batch' = batch @ new \<and> subseq new ips \<and> distinct new \<and>
       set new = {ip \<in> set ips. cd ip = None} \<and>
       cd' = (\<lambda>ip. if ip \<in> set new then Some (now + COOLDOWN) else cd ip)"
proof (induction ips arbitrary: cd batch)
  case (Cons ip ips)
  show ?case
  proof (cases "cd ip")
    case None
    with Cons.prems have "drain_loop now ips (cd(ip \<mapsto> now + COOLDOWN)) (batch @ [ip]) = (batch', cd')"
      by simp
    from Cons.IH [OF this] obtain new where new: "batch' = (batch @ [ip]) @ new" "subseq new ips" "distinct new"
        "set new = {x \<in> set ips. (cd(ip \<mapsto> now + COOLDOWN)) x = None}"
        "cd' = (\<lambda>x. if x \<in> set new then Some (now + COOLDOWN) else (cd(ip \<mapsto> now + COOLDOWN)) x)"
      by blast
    then show ?thesis using None by (intro exI [of _ "ip # new"]) (auto simp: fun_eq_iff)
  next
    case (Some e)
    with Cons.prems have "drain_loop now ips cd batch = (batch', cd')" by simp
    from Cons.IH [OF this] show ?thesis using Some by (force simp: list_emb_Cons)
  qed
qed simp

text \<open>
  C16. One drain of the route-miss queue: the queue is emptied; the batch holds exactly the
  queued addresses that are not cooling down, each once and in the order of the queue;
  exactly these addresses get a fresh cooldown of five seconds, and every other unexpired cooldown is kept.
\<close>

theorem drain_batch_correct:
  assumes "drain_batch now rm = (batch, rm')"
  shows "pending rm' = [] \<and> distinct batch \<and> subseq batch (pending rm) \<and>
    set batch = {ip \<in> set (pending rm). \<forall>expires. cooldowns rm ip = Some expires \<longrightarrow> expires \<le> now} \<and>
    cooldowns rm' = (\<lambda>ip. if ip \<in> set batch then Some (now + COOLDOWN)
                          else case cooldowns rm ip of None \<Rightarrow> None
                               | Some expires \<Rightarrow> if expires > now then Some expires else None)"
proof -
  obtain cd where loop: "drain_loop now (pending rm) (retain_cooldowns now (cooldowns rm)) [] = (batch, cd)"
    and rm': "rm' = \<lparr>pending = [], cooldowns = cd\<rparr>"
    using assms by (auto simp: drain_batch_def split: prod.splits)
  have "set batch = {ip \<in> set (pending rm). retain_cooldowns now (cooldowns rm) ip = None}"
    and "cd = (\<lambda>ip. if ip \<in> set batch then Some (now + COOLDOWN) else retain_cooldowns now (cooldowns rm) ip)"
    and "distinct batch" and "subseq batch (pending rm)"
    using drain_loop_spec [OF loop] by simp_all
  then show ?thesis
    unfolding retain_eq_None unfolding rm' retain_cooldowns_def by simp
qed

lemma drain_batch_correct_witness:
  "let rm = \<lparr>pending = [7, 9, 7, 8], cooldowns = [8 \<mapsto> 2000, 9 \<mapsto> 500]\<rparr>
   in fst (drain_batch 1000 rm) = [7, 9] \<and> pending (snd (drain_batch 1000 rm)) = []"
proof -
  define rm where rm: "rm = \<lparr>pending = [7, 9, 7, 8], cooldowns = [8 \<mapsto> 2000, 9 \<mapsto> 500]\<rparr>"
  have "fst (drain_batch 1000 rm) = [7, 9]"
    by (simp add: rm drain_batch_def retain_cooldowns_def)
  moreover have "pending (snd (drain_batch 1000 rm)) = []"
    using drain_batch_correct [of 1000 rm "fst (drain_batch 1000 rm)" "snd (drain_batch 1000 rm)"] by simp
  ultimately show ?thesis by (simp add: rm [symmetric])
qed

section \<open>The tasks as interleaved steps\<close>

text \<open>
  \<open>ringbuf_consumer\<close> is the only submitter; between its length check and its push the
  discovery task may drain. \<open>submitting\<close> holds the address whose check has passed and
  whose push is due; \<open>queried\<close> is the trace of the addresses the drains put in a batch,
  with the time of the drain.
\<close>

record pipeline =
  rm :: route_manager
  submitting :: "u32 option"
  time :: nat
  queried :: "(nat \<times> u32) list"

definition init_pipeline :: "nat \<Rightarrow> pipeline" where
  "init_pipeline t = \<lparr>rm = new_route_manager, submitting = None, time = t, queried = []\<rparr>"

inductive pipe_step :: "pipeline \<Rightarrow> pipeline \<Rightarrow> bool" where
  tick: "time s \<le> t \<Longrightarrow> pipe_step s (s\<lparr>time := t\<rparr>)"
| check: "submitting s = None \<Longrightarrow> submit_check (rm s) \<Longrightarrow>
    pipe_step s (s\<lparr>submitting := Some ip\<rparr>)"
| push: "submitting s = Some ip \<Longrightarrow>
    pipe_step s (s\<lparr>rm := submit_push ip (rm s), submitting := None\<rparr>)"
| drain: "drain_batch (time s) (rm s) = (batch, rm') \<Longrightarrow>
    pipe_step s (s\<lparr>rm := rm', queried := queried s @ map (Pair (time s)) batch\<rparr>)"

inductive pipe_reachable :: "nat \<Rightarrow> pipeline \<Rightarrow> bool" for t where
  start: "pipe_reachable t (init_pipeline t)"
| step: "pipe_reachable t s \<Longrightarrow> pipe_step s s' \<Longrightarrow> pipe_reachable t s'"

text \<open>A check that passed leaves room for the push that follows it.\<close>

definition room_inv :: "pipeline \<Rightarrow> bool" where
  "room_inv s \<longleftrightarrow> length (pending (rm s)) + (if submitting s = None then 0 else 1) \<le> MAX_PENDING"

lemma room_inv_step: "pipe_step s s' \<Longrightarrow> room_inv s \<Longrightarrow> room_inv s'"
  by (induction rule: pipe_step.induct)
    (auto simp: room_inv_def drain_batch_def submit_check_def submit_push_def split: prod.splits)

lemma room_inv_reachable: "pipe_reachable t s \<Longrightarrow> room_inv s"
  by (induction rule: pipe_reachable.induct)
    (auto simp: room_inv_step, simp add: room_inv_def init_pipeline_def new_route_manager_def)

text \<open>
  C17. The pending queue never exceeds 4096 addresses, in every interleaving of the ring
  buffer consumer (whose length check and push are separate critical sections) with the
  discovery task; nor after one more \<open>submit_miss\<close> in such a state.
\<close>

theorem pending_bounded:
  assumes "pipe_reachable t s"
  shows "length (pending (rm s)) \<le> MAX_PENDING \<and> length (pending (submit_miss ip (rm s))) \<le> MAX_PENDING"
  using room_inv_reachable [OF assms]
  by (simp add: room_inv_def submit_miss_def submit_check_def submit_push_def split: if_splits)

text \<open>A run with one miss that is checked, pushed and, at second nine, drained.\<close>

definition sample_pipeline :: pipeline where
  "sample_pipeline = \<lparr>rm = \<lparr>pending = [], cooldowns = [7 \<mapsto> 9 + COOLDOWN]\<rparr>, submitting = None,
     time = 9, queried = [(9, 7)]\<rparr>"

lemma sample_pipeline_reachable: "pipe_reachable 5 sample_pipeline"
proof -
  have 1: "pipe_reachable 5 ((init_pipeline 5)\<lparr>submitting := Some 7\<rparr>)"
    by (rule pipe_reachable.step [OF pipe_reachable.start])
      (rule pipe_step.check;
        simp add: init_pipeline_def new_route_manager_def submit_check_def MAX_PENDING_def)
  have 2: "pipe_reachable 5 ((init_pipeline 5)\<lparr>rm := \<lparr>pending = [7], cooldowns = Map.empty\<rparr>\<rparr>)"
    using pipe_reachable.step [OF 1 pipe_step.push [of _ 7]]
    by (simp add: init_pipeline_def new_route_manager_def submit_push_def)
  have 3: "pipe_reachable 5 ((init_pipeline 5)\<lparr>rm := \<lparr>pending = [7], cooldowns = Map.empty\<rparr>, time := 9\<rparr>)"
    using pipe_reachable.step [OF 2 pipe_step.tick [of _ 9]] by (simp add: init_pipeline_def)
  show ?thesis
    using pipe_reachable.step [OF 3 pipe_step.drain]
    by (simp add: init_pipeline_def sample_pipeline_def drain_batch_def retain_cooldowns_def)
qed

lemma pending_bounded_witness:
  "length (pending (rm sample_pipeline)) \<le> MAX_PENDING \<and>
   length (pending (submit_miss 8 (rm sample_pipeline))) \<le> MAX_PENDING"
  by (rule pending_bounded [OF sample_pipeline_reachable])

text \<open>The trace of queries is the run of the gate on the drained addresses.\<close>

definition gate_history :: "pipeline \<Rightarrow> bool" where
  "gate_history s \<longleftrightarrow>
     (\<exists>reqs. sorted (map fst reqs) \<and> (\<forall>r \<in> set reqs. fst r \<le> time s) \<and>
        queried s = admitted cool_admit reqs Map.empty \<and>
        (\<forall>now \<ge> time s. retain_cooldowns now (cooldowns (rm s)) =
           retain_cooldowns now (snd (gate_run cool_admit reqs Map.empty))))"

lemma admitted_same_time: "map (Pair now) (map snd (admitted admit (map (Pair now) xs) s)) = admitted admit (map (Pair now) xs) s"
  by (induction xs arbitrary: s) simp_all

lemma gate_history_drain:
  assumes "gate_history s" and "drain_batch (time s) (rm s) = (batch, rm')"
  shows "gate_history (s\<lparr>rm := rm', queried := queried s @ map (Pair (time s)) batch\<rparr>)"
proof -
  obtain reqs where reqs: "sorted (map fst reqs)" "\<forall>r \<in> set reqs. fst r \<le> time s"
      "queried s = admitted cool_admit reqs Map.empty"
    and cds: "\<And>now. time s \<le> now \<Longrightarrow> retain_cooldowns now (cooldowns (rm s)) =
           retain_cooldowns now (snd (gate_run cool_admit reqs Map.empty))"
    using assms(1) unfolding gate_history_def by blast
  let ?G = "snd (gate_run cool_admit reqs Map.empty)" and ?new = "map (Pair (time s)) (pending (rm s))"
  let ?rm = "(rm s)\<lparr>cooldowns := ?G\<rparr>"
  have same: "drain_batch (time s) ?rm = (batch, rm')"
    using drain_batch_cong [OF cds [OF le_refl]] assms(2) by simp
  have batch: "map (Pair (time s)) batch = admitted cool_admit ?new ?G"
    using drain_batch_gate(1) [of "time s" ?rm] same by (simp add: admitted_same_time del: map_map)
  have cd: "retain_cooldowns now (cooldowns rm') = retain_cooldowns now (snd (gate_run cool_admit ?new ?G))"
    if "time s \<le> now" for now
    using drain_batch_gate(2,3) [of ?rm "time s"] same that
    by (cases "pending (rm s)") (simp_all add: retain_retain del: gate_run.simps(2))
  show ?thesis
    unfolding gate_history_def
    using reqs batch cd
    by (intro exI [of _ "reqs @ ?new"])
      (auto simp: sorted_append admitted_append snd_gate_run_append comp_def map_replicate_const)
qed

lemma gate_history_step: "pipe_step s s' \<Longrightarrow> gate_history s \<Longrightarrow> gate_history s'"
proof (induction rule: pipe_step.induct)
  case (drain s batch rm')
  then show ?case by (simp add: gate_history_drain)
next
  case (tick s t)
  then show ?case unfolding gate_history_def by (fastforce intro: order_trans)
qed (simp_all add: gate_history_def submit_push_def)

lemma gate_history_reachable: "pipe_reachable t s \<Longrightarrow> gate_history s"
proof (induction rule: pipe_reachable.induct)
  case start
  show ?case
    unfolding gate_history_def
    by (rule exI [of _ "[]"]) (simp add: init_pipeline_def new_route_manager_def)
qed (rule gate_history_step)

text \<open>
  C3. Rate limit of the discovery: in every interleaving of the tasks, two queries for
  one overlay address are at least five seconds apart; in particular a batch never
  holds an address twice.
\<close>

theorem queries_rate_limited:
  assumes "pipe_reachable t s"
  shows "sorted_wrt (\<lambda>x y. snd x = snd y \<longrightarrow> fst x + COOLDOWN \<le> fst y) (queried s)"
proof -
  obtain reqs where "sorted (map fst reqs)" "queried s = admitted cool_admit reqs Map.empty"
    using gate_history_reachable [OF assms] unfolding gate_history_def by blast
  then show ?thesis
    using cooldown_gate.admitted_apart [of Map.empty reqs] by (simp add: cooldowns_ok_def)
qed

lemma queries_rate_limited_witness:
  "sorted_wrt (\<lambda>x y. snd x = snd y \<longrightarrow> fst x + COOLDOWN \<le> fst y) (queried sample_pipeline)"
  by (rule queries_rate_limited [OF sample_pipeline_reachable])

end
