(* ===== verification/Stun.thy ===== *)
theory Stun
  imports Config
begin

text \<open>
  \<open>agent/src/stun.rs\<close>: STUN queries, the response parser, NAT type detection and the
  discovery of the public endpoint. The network is a parameter: whether a socket can be
  bound, and what comes back for a request sent to a server. The parser reads bytes by
  index, and an index outside the datagram is a panic, which no error handling of the
  callers sees.
\<close>

section \<open>Requests and responses\<close>

definition STUN_MAGIC_COOKIE :: u32 where
  [struct_defs]: "STUN_MAGIC_COOKIE = 0x2112A442"

record stun_result =
  sr_public_ip :: ipv4
  sr_public_port :: u16

text \<open>\<open>first\<close> is the first byte of the transaction id: 1 in \<open>query\<close>, 2 in \<open>query_from_conn\<close>.\<close>

definition binding_request :: "nat \<Rightarrow> bytes" where
  "binding_request first =
     u16_to_be_bytes 0x0001 @ [0, 0] @ u32_to_be_bytes STUN_MAGIC_COOKIE @
     map (\<lambda>i. word_of_nat (i + first)) [0..<12]"

definition byte_at :: "bytes \<Rightarrow> nat \<Rightarrow> u8 res" where
  "byte_at data i = (if i < length data then Inr (data ! i) else Inl (Panic ''index out of bounds''))"

definition be16_at :: "bytes \<Rightarrow> nat \<Rightarrow> u16 res" where
  "be16_at data i =
     and_then (byte_at data i) (\<lambda>a. and_then (byte_at data (i + 1)) (\<lambda>b. Inr (u16_from_be_bytes a b)))"

definition ipv4_at :: "bytes \<Rightarrow> nat \<Rightarrow> ipv4 res" where
  "ipv4_at data i =
     and_then (byte_at data i) (\<lambda>a. and_then (byte_at data (i + 1)) (\<lambda>b.
       and_then (byte_at data (i + 2)) (\<lambda>c. and_then (byte_at data (i + 3)) (\<lambda>d. Inr (Ipv4 a b c d)))))"

text \<open>The last step of the parser: a plain address as it is, an XORed one unmasked with the
  magic cookie.\<close>

unbundle bit_operations_syntax

definition unmask :: "u16 \<Rightarrow> u16 \<Rightarrow> ipv4 \<Rightarrow> stun_result" where
  "unmask attr_type port ip =
     (if attr_type = 0x0020
      then case ip of Ipv4 a b c d \<Rightarrow>
             \<lparr>sr_public_ip = Ipv4 (a XOR 0x21) (b XOR 0x12) (c XOR 0xA4) (d XOR 0x42),
              sr_public_port = port XOR 0x2112\<rparr>
      else \<lparr>sr_public_ip = ip, sr_public_port = port\<rparr>)"

definition padding :: "nat \<Rightarrow> nat" where
  "padding attr_len = (if attr_len mod 4 \<noteq> 0 then 4 - attr_len mod 4 else 0)"

function attr_loop :: "bytes \<Rightarrow> nat \<Rightarrow> nat \<Rightarrow> stun_result res" where
  "attr_loop data len off =
     (if off + 4 \<le> 20 + len
      then and_then (be16_at data off) (\<lambda>attr_type.
             and_then (be16_at data (off + 2)) (\<lambda>attr_len.
               if (attr_type = 0x0001 \<or> attr_type = 0x0020) \<and> unat attr_len \<ge> 8
               then and_then (be16_at data (off + 4)) (\<lambda>port.
                      and_then (ipv4_at data (off + 6)) (\<lambda>ip. Inr (unmask attr_type port ip)))
               else attr_loop data len (off + 4 + unat attr_len + padding (unat attr_len))))
      else Inl (Error ''no mapped address''))"
  by pat_completeness auto
termination
  by (relation "measure (\<lambda>(data, len, off). 20 + len - off)") auto

declare attr_loop.simps [simp del]

definition parse_stun_response :: "bytes \<Rightarrow> stun_result res" where
  "parse_stun_response data =
     (if length data < 20 then Inl (Error ''too short'')
      else and_then (be16_at data 0) (\<lambda>msg_type.
             if msg_type \<noteq> 0x0101 then Inl (Error ''not binding response'')
             else and_then (be16_at data 2) (\<lambda>len. attr_loop data (unat len) 20)))"

section \<open>Queries\<close>

record stun_net =
  udp_bind :: "unit res"
  exchange :: "socket_addr \<Rightarrow> bytes \<Rightarrow> bytes res"

definition query :: "stun_net \<Rightarrow> string \<Rightarrow> stun_result res" where
  "query net server =
     and_then (udp_bind net) (\<lambda>_.
       case parse_socket_addr server of
         None \<Rightarrow> Inl (Error ''invalid socket address syntax'')
       | Some remote \<Rightarrow>
           and_then (exchange net remote (binding_request 1)) (\<lambda>d. parse_stun_response (take 1024 d)))"

definition query_from_conn :: "stun_net \<Rightarrow> string \<Rightarrow> stun_result res" where
  "query_from_conn net server =
     (case parse_socket_addr server of
        None \<Rightarrow> Inl (Error ''invalid socket address syntax'')
      | Some remote \<Rightarrow>
          and_then (exchange net remote (binding_request 2)) (\<lambda>d. parse_stun_response (take 1024 d)))"

text \<open>A panic of one of the queries unwinds through the caller; an error is handled.\<close>

definition catch :: "'a res \<Rightarrow> 'a option res" where
  "catch r = (case r of Inl (Panic m) \<Rightarrow> Inl (Panic m) | Inl (Error _) \<Rightarrow> Inr None | Inr x \<Rightarrow> Inr (Some x))"

definition detect_nat_type :: "stun_net \<Rightarrow> string list \<Rightarrow> nat_type res" where
  "detect_nat_type net servers =
     (if length servers < 2 then Inr Unknown
      else case udp_bind net of
        Inl _ \<Rightarrow> Inr Unknown
      | Inr _ \<Rightarrow>
          and_then (catch (query_from_conn net (servers ! 0))) (\<lambda>first.
            and_then (catch (query_from_conn net (servers ! 1))) (\<lambda>second.
              case (first, second) of
                (Some a, Some b) \<Rightarrow>
                  Inr (if sr_public_port a \<noteq> sr_public_port b then Symmetric else Easy)
              | _ \<Rightarrow> Inr Unknown)))"

text \<open>\<open>discover\<close>: the state after the call and its result. The overlay address is the
  fallback when there is no server or the first one does not answer.\<close>

definition use_overlay_ip :: "agent_state \<Rightarrow> agent_state res" where
  "use_overlay_ip st =
     (case parse_ipv4 (node_overlay_ip (cfg st)) of
        None \<Rightarrow> Inl (Error ''invalid IPv4 address syntax'')
      | Some ip \<Rightarrow> Inr (st\<lparr>st_public_ip := ip\<rparr>))"

definition discover :: "stun_net \<Rightarrow> agent_state \<Rightarrow> agent_state \<times> unit res" where
  "discover net st =
     (case stun_servers (cfg st) of
        [] \<Rightarrow> (case use_overlay_ip st of Inl e \<Rightarrow> (st, Inl e) | Inr st' \<Rightarrow> (st', Inr ()))
      | server # _ \<Rightarrow>
          (case (case catch (query net server) of
                   Inl e \<Rightarrow> Inl e
                 | Inr (Some r) \<Rightarrow> Inr (st\<lparr>st_public_ip := sr_public_ip r, st_public_port := sr_public_port r\<rparr>)
                 | Inr None \<Rightarrow> use_overlay_ip st) of
             Inl e \<Rightarrow> (st, Inl e)
           | Inr st' \<Rightarrow>
               (case detect_nat_type net (stun_servers (cfg st)) of
                  Inl e \<Rightarrow> (st', Inl e)
                | Inr t \<Rightarrow> (st'\<lparr>st_nat_type := t\<rparr>, Inr ()))))"

text \<open>One round of \<open>refresh_loop\<close>: stop, or discover again and tell whether the public
  endpoint changed (which the source logs). An error is ignored; a panic ends the task.\<close>

datatype refresh_outcome = RefreshStopped | Refreshed bool | RefreshPanicked

definition refresh_step :: "bool \<Rightarrow> stun_net \<Rightarrow> agent_state \<Rightarrow> refresh_outcome \<times> agent_state" where
  "refresh_step stop net st =
     (if stop then (RefreshStopped, st)
      else case discover net st of
             (st', Inl (Panic _)) \<Rightarrow> (RefreshPanicked, st')
           | (st', _) \<Rightarrow>
               (Refreshed (st_public_ip st \<noteq> st_public_ip st' \<or> st_public_port st \<noteq> st_public_port st'), st'))"

section \<open>The parser on well-formed messages\<close>

text \<open>
  A binding response is a header and a list of attributes, each a type and a value that is
  padded to a multiple of four bytes (RFC 5389). \<open>first_read\<close> is what the loop of the parser
  amounts to on the attribute list.
\<close>

type_synonym stun_attr = "u16 \<times> bytes"

definition rfc_padding :: "nat \<Rightarrow> nat" where
  "rfc_padding n = (4 - n mod 4) mod 4"

definition encode_attr :: "stun_attr \<Rightarrow> bytes" where
  "encode_attr at =
     u16_to_be_bytes (fst at) @ u16_to_be_bytes (word_of_nat (length (snd at))) @ snd at @
     replicate (rfc_padding (length (snd at))) 0"

definition stun_response :: "bytes \<Rightarrow> stun_attr list \<Rightarrow> bytes" where
  "stun_response tid ats =
     (let body = concat (map encode_attr ats)
      in u16_to_be_bytes 0x0101 @ u16_to_be_bytes (word_of_nat (length body)) @
         u32_to_be_bytes STUN_MAGIC_COOKIE @ tid @ body)"

fun first_read :: "stun_attr list \<Rightarrow> stun_result res" where
  "first_read [] = Inl (Error ''no mapped address'')"
| "first_read ((t, v) # ats) =
     (if (t = 0x0001 \<or> t = 0x0020) \<and> 8 \<le> length v
      then Inr (unmask t (u16_from_be_bytes (v ! 0) (v ! 1)) (Ipv4 (v ! 2) (v ! 3) (v ! 4) (v ! 5)))
      else first_read ats)"

lemma padding_eq: "padding n = rfc_padding n"
  using mod_less_divisor [of 4 n] unfolding padding_def rfc_padding_def by (cases "n mod 4 = 0") auto

lemma length_u16_to_be_bytes [simp]: "length (u16_to_be_bytes w) = 2"
  by (simp add: u16_to_be_bytes_def)

lemma length_u32_to_be_bytes [simp]: "length (u32_to_be_bytes w) = 4"
  by (simp add: u32_to_be_bytes_def)

lemma byte_at_value: "k < length v \<Longrightarrow> byte_at (pre @ v @ rest) (length pre + k) = Inr (v ! k)"
  by (simp add: byte_at_def nth_append)

lemma be16_at_value:
  "k + 1 < length v \<Longrightarrow> be16_at (pre @ v @ rest) (length pre + k) = Inr (u16_from_be_bytes (v ! k) (v ! (k + 1)))"
  using byte_at_value [of k v pre rest] byte_at_value [of "k + 1" v pre rest]
  by (simp add: be16_at_def)

lemma ipv4_at_value:
  "k + 3 < length v \<Longrightarrow> ipv4_at (pre @ v @ rest) (length pre + k) =
     Inr (Ipv4 (v ! k) (v ! (k + 1)) (v ! (k + 2)) (v ! (k + 3)))"
  using byte_at_value [of k v pre rest] byte_at_value [of "k + 1" v pre rest]
    byte_at_value [of "k + 2" v pre rest] byte_at_value [of "k + 3" v pre rest]
  by (simp add: ipv4_at_def add.assoc)

lemma u16_be_roundtrip: "u16_from_be_bytes (u16_to_be_bytes w ! 0) (u16_to_be_bytes w ! 1) = w"
proof -
  have "be_val [u16_to_be_bytes w ! 0, u16_to_be_bytes w ! 1] = unat w"
    using be_val_be_enc [of 2 "unat w"] unsigned_less [of w, where 'a = nat]
    by (simp add: u16_to_be_bytes_def be_enc_two)
  then show ?thesis by (simp add: u16_from_be_bytes_def del: be_val_two)
qed

lemma be16_at_encoded: "be16_at (pre @ u16_to_be_bytes w @ rest) (length pre) = Inr w"
  using be16_at_value [of 0 "u16_to_be_bytes w" pre rest] by (simp add: u16_be_roundtrip [simplified])

lemma length_encode_attr: "length (encode_attr (t, v)) = 4 + length v + rfc_padding (length v)"
  by (simp add: encode_attr_def)

lemma attr_loop_attrs:
  assumes "20 + len = length pre + length (concat (map encode_attr ats))"
    and "\<forall>(t, v) \<in> set ats. length v < 65536"
  shows "attr_loop (pre @ concat (map encode_attr ats)) len (length pre) = first_read ats"
  using assms
proof (induction ats arbitrary: pre)
  case Nil
  then show ?case by (simp add: attr_loop.simps [of pre len "length pre"])
next
  case (Cons at ats)
  obtain t v where at: "at = (t, v)" by (cases at)
  let ?rest = "concat (map encode_attr ats)" and ?pad = "replicate (rfc_padding (length v)) (0 :: u8)"
  let ?L = "u16_to_be_bytes (word_of_nat (length v))"
  let ?data = "pre @ concat (map encode_attr (at # ats))"
  have data: "?data = pre @ u16_to_be_bytes t @ ?L @ v @ ?pad @ ?rest"
    by (simp add: at encode_attr_def)
  have small: "unat (word_of_nat (length v) :: u16) = length v"
    using Cons.prems(2) at by (simp add: unat_of_nat)
  have guard: "length pre + 4 \<le> 20 + len"
    using Cons.prems(1) by (simp add: at length_encode_attr)
  have type: "be16_at ?data (length pre) = Inr t"
    unfolding data by (rule be16_at_encoded)
  have len: "be16_at ?data (length pre + 2) = Inr (word_of_nat (length v))"
    using be16_at_encoded [of "pre @ u16_to_be_bytes t" "word_of_nat (length v)" "v @ ?pad @ ?rest"]
    unfolding data by simp
  note value_at = be16_at_value [of 0 v "pre @ u16_to_be_bytes t @ ?L" "?pad @ ?rest"]
    ipv4_at_value [of 2 v "pre @ u16_to_be_bytes t @ ?L" "?pad @ ?rest"]
  have port: "be16_at ?data (length pre + 4) = Inr (u16_from_be_bytes (v ! 0) (v ! 1))"
    and ip: "ipv4_at ?data (length pre + 6) = Inr (Ipv4 (v ! 2) (v ! 3) (v ! 4) (v ! 5))" if "8 \<le> length v"
    using value_at that unfolding data by (simp_all add: add.assoc add.commute [of 6 "length pre"])
  have cont: "attr_loop ?data len (length pre + 4 + length v + rfc_padding (length v)) = first_read ats"
    using Cons.IH [of "pre @ encode_attr at"] Cons.prems by (simp add: at length_encode_attr add.assoc)
  show ?case
    using guard type len port ip cont by (subst attr_loop.simps) (simp add: at small padding_eq)
qed

lemma parse_stun_response_eq:
  assumes "length tid = 12" and "length (concat (map encode_attr ats)) < 65536"
  shows "parse_stun_response (stun_response tid ats) = first_read ats"
proof -
  let ?body = "concat (map encode_attr ats)"
  let ?pre = "u16_to_be_bytes 0x0101 @ u16_to_be_bytes (word_of_nat (length ?body)) @
    u32_to_be_bytes STUN_MAGIC_COOKIE @ tid"
  have small: "unat (word_of_nat (length ?body) :: u16) = length ?body"
    using assms(2) by (simp add: unat_of_nat)
  have "length v < 65536" if "(t, v) \<in> set ats" for t v
  proof -
    have "length (encode_attr (t, v)) \<le> length ?body"
      using that by (metis in_set_conv_decomp concat_append concat.simps(2) le_add1 le_add2 le_trans
          length_append list.simps(9) map_append)
    then show ?thesis using assms(2) by (simp add: length_encode_attr)
  qed
  then have "attr_loop (?pre @ ?body) (length ?body) (length ?pre) = first_read ats"
    using assms(1) by (intro attr_loop_attrs) auto
  moreover have "stun_response tid ats = ?pre @ ?body"
    by (simp add: stun_response_def Let_def)
  moreover have "be16_at (?pre @ ?body) 0 = Inr 0x0101"
    using be16_at_encoded [of "[]" "0x0101"] by simp
  moreover have "be16_at (?pre @ ?body) 2 = Inr (word_of_nat (length ?body))"
    using be16_at_encoded [of "u16_to_be_bytes 0x0101" "word_of_nat (length ?body)"] by simp
  ultimately show ?thesis
    using assms(1) by (simp add: parse_stun_response_def small)
qed

section \<open>What the parser makes of the endpoint\<close>

text \<open>
  The attributes of a binding response as RFC 5389 has them. The value of a MAPPED-ADDRESS
  (type 1) is a zero byte, the family (1: IPv4, 2: IPv6), two bytes of port and the address; an
  XOR-MAPPED-ADDRESS (type 0x20) masks the port with the upper half of the magic cookie and the
  address with the magic cookie followed by the transaction id. \<open>Address xored family port ip\<close> is
  either of them.
\<close>

datatype rfc_attr = Address bool u8 u16 bytes | Other u16 bytes

fun wf_attr :: "rfc_attr \<Rightarrow> bool" where
  "wf_attr (Address _ family _ ip) \<longleftrightarrow> family = 1 \<and> length ip = 4 \<or> family = 2 \<and> length ip = 16"
| "wf_attr (Other t _) \<longleftrightarrow> t \<noteq> 0x0001 \<and> t \<noteq> 0x0020"

fun rfc_encode :: "bytes \<Rightarrow> rfc_attr \<Rightarrow> stun_attr" where
  "rfc_encode tid (Address False family port ip) = (0x0001, [0, family] @ u16_to_be_bytes port @ ip)"
| "rfc_encode tid (Address True family port ip) =
     (0x0020, [0, family] @ u16_to_be_bytes (port XOR 0x2112) @
       map2 (XOR) ip (u32_to_be_bytes STUN_MAGIC_COOKIE @ tid))"
| "rfc_encode tid (Other t v) = (t, v)"

definition rfc_response :: "bytes \<Rightarrow> rfc_attr list \<Rightarrow> bytes" where
  "rfc_response tid ats = stun_response tid (map (rfc_encode tid) ats)"

fun first_address :: "rfc_attr list \<Rightarrow> rfc_attr option" where
  "first_address [] = None"
| "first_address (Other _ _ # ats) = first_address ats"
| "first_address (Address x family port ip # ats) = Some (Address x family port ip)"

text \<open>
  What the parser reports for an address attribute: as port the family (masked when the
  attribute is XORed), and as address the two bytes of the port followed by the first two bytes
  of the address (in the XORed case under two masks that do not cancel).
\<close>

fun misread :: "rfc_attr \<Rightarrow> stun_result" where
  "misread (Address False family port ip) =
     \<lparr>sr_public_ip = Ipv4 (u16_to_be_bytes port ! 0) (u16_to_be_bytes port ! 1) (ip ! 0) (ip ! 1),
      sr_public_port = ucast family\<rparr>"
| "misread (Address True family port ip) =
     \<lparr>sr_public_ip = Ipv4 (u16_to_be_bytes port ! 0) (u16_to_be_bytes port ! 1) (ip ! 0 XOR 0x85) (ip ! 1 XOR 0x50),
      sr_public_port = ucast family XOR 0x2112\<rparr>"
| "misread (Other _ _) = \<lparr>sr_public_ip = Ipv4 0 0 0 0, sr_public_port = 0\<rparr>"

lemma u16_bytes: "u16_to_be_bytes w = [ucast (drop_bit 8 w), ucast w]"
proof -
  have "word_of_nat (unat w div 256) = (ucast (drop_bit 8 w) :: u8)"
    using of_nat_unat [of "drop_bit 8 w", where 'a = "8 word"] unfolding unat_drop_bit_eq
    by (simp add: drop_bit_eq_div)
  then show ?thesis by (simp add: u16_to_be_bytes_def be_enc_two)
qed

lemma u16_bytes_xor:
  "u16_to_be_bytes (port XOR 0x2112) = [u16_to_be_bytes port ! 0 XOR 0x21, u16_to_be_bytes port ! 1 XOR 0x12]"
proof -
  have "(0x2112 :: u8) = 0x12" by simp
  note low = this
  show ?thesis by (simp add: u16_bytes unsigned_xor_eq drop_bit_xor) (simp only: low)
qed

lemma cookie_bytes: "u32_to_be_bytes STUN_MAGIC_COOKIE = [0x21, 0x12, 0xA4, 0x42]"
proof -
  have "be_enc 4 v = be_enc 2 (v div 256 div 256) @ [word_of_nat (v div 256), word_of_nat v]" for v
    using be_enc.simps(2) [of "Suc 2" v] be_enc.simps(2) [of 2 "v div 256"] by simp
  then show ?thesis by (simp add: u32_to_be_bytes_def STUN_MAGIC_COOKIE_def be_enc_two)
qed

lemma u16_family: "u16_from_be_bytes 0 b = ucast b"
  by (simp add: u16_from_be_bytes_def)

lemma first_read_address:
  assumes "wf_attr (Address x family port ip)"
  shows "first_read (rfc_encode tid (Address x family port ip) # ats) = Inr (misread (Address x family port ip))"
proof (cases x)
  case True
  obtain a b c d rest where ip: "ip = a # b # c # d # rest"
    using assms by (cases ip; cases "tl ip"; cases "tl (tl ip)"; cases "tl (tl (tl ip))") auto
  have "(y XOR 0x21) XOR 0xA4 = y XOR 0x85" "(y XOR 0x12) XOR 0x42 = y XOR 0x50" for y :: u8
    by (simp_all add: xor.assoc)
  then show ?thesis
    using assms by (auto simp: True ip u16_bytes_xor cookie_bytes u16_family unmask_def xor.assoc)
next
  case False
  then show ?thesis
    using assms by (auto simp: nth_append u16_family unmask_def)
qed

lemma first_read_rfc:
  assumes "\<forall>at \<in> set ats. wf_attr at"
  shows "first_read (map (rfc_encode tid) ats) =
    (case first_address ats of None \<Rightarrow> Inl (Error ''no mapped address'') | Some at \<Rightarrow> Inr (misread at))"
  using assms
proof (induction ats)
  case (Cons at ats)
  then show ?case
  proof (cases at)
    case (Address x family port ip)
    with Cons.prems first_read_address show ?thesis by simp
  qed simp
qed simp

lemma parse_rfc_response:
  assumes "length tid = 12" and "\<forall>at \<in> set ats. wf_attr at" and "length (rfc_response tid ats) < 65536"
  shows "parse_stun_response (rfc_response tid ats) =
    (case first_address ats of None \<Rightarrow> Inl (Error ''no mapped address'') | Some at \<Rightarrow> Inr (misread at))"
  using assms parse_stun_response_eq [OF assms(1), of "map (rfc_encode tid) ats"] first_read_rfc [OF assms(2), of tid]
  by (simp add: rfc_response_def stun_response_def Let_def)




text \<open>
  A server that answers the request of the NAT detection with a response that follows the
  standard and fits the buffer of the query, and whose first address attribute is an IPv4
  one, masked or not.
\<close>

definition answers :: "stun_net \<Rightarrow> socket_addr \<Rightarrow> bool \<Rightarrow> u16 \<Rightarrow> bytes \<Rightarrow> bool" where
  "answers net addr xored port ip \<longleftrightarrow>
     (\<exists>tid ats. length tid = 12 \<and> (\<forall>at \<in> set ats. wf_attr at) \<and> length (rfc_response tid ats) \<le> 1024 \<and>
        first_address ats = Some (Address xored 1 port ip) \<and>
        exchange net addr (binding_request 2) = Inr (rfc_response tid ats))"

lemma query_answered:
  assumes "parse_socket_addr server = Some addr" and "answers net addr xored port ip"
  shows "query_from_conn net server = Inr (misread (Address xored 1 port ip))"
  using assms by (auto simp: query_from_conn_def answers_def parse_rfc_response)

lemma misread_port: "sr_public_port (misread (Address xored 1 port ip)) = (if xored then 0x2113 else 1)"
  by (cases xored) simp_all

text \<open>
  C38. The NAT type does not depend on the ports the servers see: if two servers answer with
  responses that follow the standard, the detection says \<open>Easy\<close> when their first address
  attributes are of the same kind and \<open>Symmetric\<close> when one is a MAPPED-ADDRESS and the other an
  XOR-MAPPED-ADDRESS, whatever ports and addresses they report.
\<close>

theorem nat_type_ignores_ports:
  assumes "udp_bind net = Inr ()" and "2 \<le> length servers"
    and "parse_socket_addr (servers ! 0) = Some a" and "parse_socket_addr (servers ! 1) = Some b"
    and "answers net a xored port ip" and "answers net b xored' port' ip'"
  shows "detect_nat_type net servers = Inr (if xored = xored' then Easy else Symmetric)"
proof -
  have "query_from_conn net (servers ! 0) = Inr (misread (Address xored 1 port ip))"
    and "query_from_conn net (servers ! 1) = Inr (misread (Address xored' 1 port' ip'))"
    using assms(3-6) by (simp_all add: query_answered)
  then show ?thesis using assms(1,2) by (simp add: detect_nat_type_def catch_def misread_port)
qed

text \<open>Two networks: one where the servers see the client behind different ports, one where they see
  the same port and only one of them masks it.\<close>

definition symmetric_net :: stun_net where
  "symmetric_net = \<lparr>udp_bind = Inr (),
     exchange = (\<lambda>addr req. Inr (rfc_response (replicate 12 2)
       [Address True 1 (case addr of SocketV4 _ p \<Rightarrow> p | SocketV6 _ _ p \<Rightarrow> p) [203, 0, 113, 7]]))\<rparr>"

definition mixed_net :: stun_net where
  "mixed_net = \<lparr>udp_bind = Inr (),
     exchange = (\<lambda>addr req. Inr (rfc_response (replicate 12 2)
       [Other 0x8022 [1, 2], Address (addr = SocketV4 (Ipv4 1 1 1 1) 4001) 1 5000 [203, 0, 113, 7]]))\<rparr>"

lemma length_rfc_encode_v4 [simp]: "length (snd (rfc_encode tid (Address xored family port [a, b, c, d]))) = 8"
  by (cases xored) simp_all

lemma symmetric_net_answers: "answers symmetric_net (SocketV4 ip p) True p [203, 0, 113, 7]"
  unfolding answers_def
  by (intro exI [of _ "replicate 12 2"] exI [of _ "[Address True 1 p [203, 0, 113, 7]]"])
    (simp add: symmetric_net_def rfc_response_def stun_response_def encode_attr_def rfc_padding_def Let_def)

lemma mixed_net_answers:
  "answers mixed_net addr (addr = SocketV4 (Ipv4 1 1 1 1) 4001) 5000 [203, 0, 113, 7]"
  unfolding answers_def
  by (intro exI [of _ "replicate 12 2"]
      exI [of _ "[Other 0x8022 [1, 2], Address (addr = SocketV4 (Ipv4 1 1 1 1) 4001) 1 5000 [203, 0, 113, 7]]"])
    (simp add: mixed_net_def rfc_response_def stun_response_def encode_attr_def rfc_padding_def Let_def)

lemma nat_type_ignores_ports_witness:
  "detect_nat_type symmetric_net
     [show_ipv4 (Ipv4 1 1 1 1) @ '':'' @ dec 4001, show_ipv4 (Ipv4 2 2 2 2) @ '':'' @ dec 4002] = Inr Easy \<and>
   detect_nat_type mixed_net
     [show_ipv4 (Ipv4 1 1 1 1) @ '':'' @ dec 4001, show_ipv4 (Ipv4 2 2 2 2) @ '':'' @ dec 4002] = Inr Symmetric"
proof
  let ?servers = "[show_ipv4 (Ipv4 1 1 1 1) @ '':'' @ dec 4001, show_ipv4 (Ipv4 2 2 2 2) @ '':'' @ dec 4002]"
  have parsed: "parse_socket_addr (?servers ! 0) = Some (SocketV4 (Ipv4 1 1 1 1) 4001)"
    "parse_socket_addr (?servers ! 1) = Some (SocketV4 (Ipv4 2 2 2 2) 4002)"
    using parse_show_socket_addr [of "Ipv4 1 1 1 1" 4001] parse_show_socket_addr [of "Ipv4 2 2 2 2" 4002] by simp_all
  show "detect_nat_type symmetric_net ?servers = Inr Easy"
    using nat_type_ignores_ports [OF _ _ parsed symmetric_net_answers symmetric_net_answers]
    by (simp add: symmetric_net_def)
  show "detect_nat_type mixed_net ?servers = Inr Symmetric"
    using nat_type_ignores_ports [OF _ _ parsed mixed_net_answers mixed_net_answers]
    by (simp add: mixed_net_def)
qed

text \<open>
  STUN servers given by host name are never queried: if the first configured server
  does not start with a digit or a bracket (as the default server and every server of
  the README), \<open>discover\<close> falls back to the overlay address as the public address and
  keeps the port, and with one server the NAT type becomes \<open>Unknown\<close>.
\<close>

lemma stun_host_names_fall_back:
  assumes "stun_servers (cfg st) = [c # cs]" and "digit_val 10 c = None" and "c \<noteq> CHR ''[''"
    and "udp_bind net = Inr ()" and "parse_ipv4 (node_overlay_ip (cfg st)) = Some ip"
  shows "discover net st = (st\<lparr>st_public_ip := ip, st_nat_type := Unknown\<rparr>, Inr ())"
  using assms parse_socket_addr_host [OF assms(2,3), of cs]
  by (simp add: discover_def query_def catch_def use_overlay_ip_def detect_nat_type_def)

section \<open>Truncated answers\<close>

text \<open>A header that announces attributes which are not there.\<close>

definition header_only :: "bytes \<Rightarrow> bool" where
  "header_only d \<longleftrightarrow> length d = 20 \<and> take 2 d = [1, 1] \<and> 4 \<le> be_val (take 2 (drop 2 d))"

lemma parse_header_only:
  assumes "header_only d"
  shows "parse_stun_response (take 1024 d) = Inl (Panic ''index out of bounds'')"
proof -
  have len: "length d = 20" and "take 2 d = [1, 1]" and more: "4 \<le> be_val (take 2 (drop 2 d))"
    using assms by (simp_all add: header_only_def)
  then have type: "d ! 0 = 1" "d ! 1 = 1" by (auto simp: list_eq_iff_nth_eq)
  have "take 2 (drop 2 d) = [d ! 2, d ! 3]"
    using len by (simp add: numeral_2_eq_2 numeral_3_eq_3 take_Suc_conv_app_nth)
  moreover have "unat (u16_from_be_bytes (d ! 2) (d ! 3)) = be_val [d ! 2, d ! 3]"
    unfolding u16_from_be_bytes_def using be_val_less [of "[d ! 2, d ! 3]"]
    by (subst unat_of_nat) (simp del: be_val_two)
  ultimately have "4 \<le> unat (u16_from_be_bytes (d ! 2) (d ! 3))" using more by simp
  then show ?thesis
    using len type
    by (simp add: parse_stun_response_def be16_at_def byte_at_def u16_from_be_bytes_def attr_loop.simps)
qed

lemma discover_header_only:
  assumes "stun_servers (cfg st) = server # rest" and "parse_socket_addr server = Some remote"
    and "udp_bind net = Inr ()" and "exchange net remote (binding_request 1) = Inr d" and "header_only d"
  shows "discover net st = (st, Inl (Panic ''index out of bounds''))"
  using assms by (simp add: discover_def query_def catch_def parse_header_only)

end
