(* ===== verification/Seed.thy ===== *)
theory Seed
  imports Protocol Config
begin

text \<open>
  \<open>agent/src/seed.rs\<close> and \<open>agent/src/relay.rs\<close>: registration with the seed nodes and the
  search for a relay. What the code draws at random and reads from the clock for one
  message is a record \<open>send_env\<close>; the datagrams handed to the socket are collected in the
  client's \<open>sent\<close> list, and \<open>send\<close>, \<open>to_vec\<close> and the JSON parser of messages are parameters.
\<close>

section \<open>Messages\<close>

record relay_info =
  relay_ip :: string
  relay_port :: u16

record node_registration =
  overlay_ip :: string
  nr_public_ip :: string
  nr_public_port :: u16
  subnet :: string
  relay_capable :: bool
  nr_nat_type :: u8

record message =
  msg_type :: string
  qid :: "string option"
  msg_ts :: i64
  msg_nonce :: string
  node_info :: "node_registration option"
  query_ip :: "string option"
  nodes :: "node_registration list option"
  relay :: "relay_info option"

record send_env =
  env_now :: u64
  env_qid :: u64
  env_nonce :: u64
  env_header_nonce :: bytes

definition hex016 :: "u64 \<Rightarrow> string" where
  "hex016 w = hex_pad 16 (unat w)"

text \<open>\<open>as_secs() as i64\<close> keeps the bits.\<close>

definition blank_message :: "string \<Rightarrow> send_env \<Rightarrow> message" where
  "blank_message t env =
     \<lparr>msg_type = t, qid = Some (hex016 (env_qid env)), msg_ts = env_now env, msg_nonce = hex016 (env_nonce env),
      node_info = None, query_ip = None, nodes = None, relay = None\<rparr>"

definition register_message :: "agent_state \<Rightarrow> send_env \<Rightarrow> message" where
  "register_message st env =
     (blank_message ''register'' env)\<lparr>node_info := Some
        \<lparr>overlay_ip = node_overlay_ip (cfg st), nr_public_ip = show_ipv4 (st_public_ip st),
         nr_public_port = st_public_port st, subnet = node_subnet (cfg st), relay_capable = False,
         nr_nat_type = nat_type_code (st_nat_type st)\<rparr>\<rparr>"

definition query_message :: "string \<Rightarrow> string \<Rightarrow> send_env \<Rightarrow> message" where
  "query_message t ip env = (blank_message t env)\<lparr>query_ip := Some ip\<rparr>"

section \<open>The seed client\<close>

record seed_client =
  conns :: "(string \<times> socket_addr) list"
  seed_mode :: bool
  sent :: "(bytes \<times> socket_addr) list"

definition new_seed_client :: "bool \<Rightarrow> seed_client" where
  "new_seed_client mode = \<lparr>conns = [], seed_mode = mode, sent = []\<rparr>"

text \<open>The parameters of a send, fixed for a run: the HMAC, the socket, the serializer.\<close>

record net_api =
  net_hmac :: hmac_api
  net_send :: "bytes \<Rightarrow> socket_addr \<Rightarrow> unit res"
  net_to_vec :: "message \<Rightarrow> bytes res"

definition send_msg ::
    "net_api \<Rightarrow> udp_protocol \<Rightarrow> send_env \<Rightarrow> message \<Rightarrow> socket_addr \<Rightarrow> seed_client \<Rightarrow> seed_client \<times> unit res" where
  "send_msg n p env msg addr c =
     (c\<lparr>sent := sent c @ [(marshal (net_hmac n) p (net_to_vec n) (env_now env) (env_header_nonce env) msg, addr)]\<rparr>,
      send_to (net_hmac n) (net_send n) p (net_to_vec n) (env_now env) (env_header_nonce env) msg addr)"

definition register ::
    "net_api \<Rightarrow> udp_protocol \<Rightarrow> agent_state \<Rightarrow> send_env \<Rightarrow> socket_addr \<Rightarrow> seed_client \<Rightarrow> seed_client \<times> unit res" where
  "register n p st env addr c =
     seq (send_msg n p env (register_message st env) addr c) (\<lambda>_ c.
       (c\<lparr>conns := conns c @ [(show_socket_addr addr, addr)]\<rparr>, Inr ()))"

text \<open>\<open>register_all\<close>: seeds that are not socket addresses are skipped, failures are logged.\<close>

definition register_seed ::
    "net_api \<Rightarrow> udp_protocol \<Rightarrow> agent_state \<Rightarrow> seed_addr \<times> send_env \<Rightarrow> seed_client \<Rightarrow> seed_client" where
  "register_seed n p st = (\<lambda>(seed, env) c.
     case parse_socket_addr (sa_addr seed) of
       None \<Rightarrow> c
     | Some addr \<Rightarrow> fst (register n p st env addr c))"

definition register_all ::
    "net_api \<Rightarrow> udp_protocol \<Rightarrow> agent_state \<Rightarrow> (nat \<Rightarrow> send_env) \<Rightarrow> seed_client \<Rightarrow> seed_client" where
  "register_all n p st envs c =
     fold (register_seed n p st) (zip (seeds (cfg st)) (map envs [0..<length (seeds (cfg st))])) c"

definition query_peer ::
    "net_api \<Rightarrow> udp_protocol \<Rightarrow> send_env \<Rightarrow> string \<Rightarrow> socket_addr \<Rightarrow> seed_client \<Rightarrow>
     seed_client \<times> node_registration list option" where
  "query_peer n p env ip addr c = (fst (send_msg n p env (query_message ''query'' ip env) addr c), None)"

text \<open>One round of \<open>health_loop\<close>; the stop flag is read before and after the wait.\<close>

definition health_round ::
    "net_api \<Rightarrow> udp_protocol \<Rightarrow> bool \<Rightarrow> bool \<Rightarrow> agent_state \<Rightarrow> (nat \<Rightarrow> send_env) \<Rightarrow> seed_client \<Rightarrow> bool \<times> seed_client" where
  "health_round n p stop stop_later st envs c =
     (if stop \<or> stop_later then (False, c) else (True, register_all n p st envs c))"

section \<open>The relay search\<close>

text \<open>\<open>answer\<close> is what the fresh socket receives within three seconds: a datagram, an error of
  the socket, or nothing (\<open>None\<close>); \<open>bind_ok\<close> tells whether the socket could be bound.\<close>

record relay_env =
  bind_ok :: bool
  answer :: "bytes res option"

definition relay_endpoint :: "message \<Rightarrow> peer_endpoint option" where
  "relay_endpoint response =
     (case relay response of
        None \<Rightarrow> None
      | Some r \<Rightarrow>
          (case parse_ipv4 (relay_ip r) of
             None \<Rightarrow> None
           | Some ip \<Rightarrow> Some \<lparr>pe_public_ip = u32_of_ipv4 ip, pe_port = relay_port r,
                             pe_nat_type = nat_type_code Unknown, pe_pad = 0\<rparr>))"

text \<open>The whole buffer of 2048 bytes is parsed; an error of \<open>recv\<close> itself is dropped by
  \<open>let _\<close>, so the buffer is then parsed as it is.\<close>

definition query_seed_for_relay ::
    "net_api \<Rightarrow> udp_protocol \<Rightarrow> (bytes \<Rightarrow> message res) \<Rightarrow> send_env \<Rightarrow> relay_env \<Rightarrow> socket_addr \<Rightarrow> string \<Rightarrow> seed_client \<Rightarrow>
     seed_client \<times> peer_endpoint option" where
  "query_seed_for_relay n p from_slice_msg env r seed_addr target_ip c =
     (let (c, res) = send_msg n p env (query_message ''relay_query'' target_ip env) seed_addr c
      in case res of
           Inl _ \<Rightarrow> (c, None)
         | Inr _ \<Rightarrow>
             if \<not> bind_ok r then (c, None)
             else case answer r of
                    None \<Rightarrow> (c, None)
                  | Some got \<Rightarrow>
                      let buf = (case got of Inl _ \<Rightarrow> replicate 2048 0 | Inr d \<Rightarrow> write_buf d (replicate 2048 0))
                      in (c, case from_slice_msg buf of Inl _ \<Rightarrow> None | Inr response \<Rightarrow> relay_endpoint response))"

fun relay_over ::
    "net_api \<Rightarrow> udp_protocol \<Rightarrow> (bytes \<Rightarrow> message res) \<Rightarrow> string \<Rightarrow> (seed_addr \<times> send_env \<times> relay_env) list \<Rightarrow>
     seed_client \<Rightarrow> seed_client \<times> peer_endpoint option" where
  "relay_over n p from_slice_msg target_ip [] c = (c, None)"
| "relay_over n p from_slice_msg target_ip ((seed, env, r) # rest) c =
     (case parse_socket_addr (sa_addr seed) of
        None \<Rightarrow> relay_over n p from_slice_msg target_ip rest c
      | Some addr \<Rightarrow>
          (case query_seed_for_relay n p from_slice_msg env r addr target_ip c of
             (c, Some found) \<Rightarrow> (c, Some found)
           | (c, None) \<Rightarrow> relay_over n p from_slice_msg target_ip rest c))"

definition try_relay ::
    "net_api \<Rightarrow> udp_protocol \<Rightarrow> (bytes \<Rightarrow> message res) \<Rightarrow> agent_state \<Rightarrow> (nat \<Rightarrow> send_env \<times> relay_env) \<Rightarrow> string \<Rightarrow>
     seed_client \<Rightarrow> seed_client \<times> peer_endpoint option" where
  "try_relay n p from_slice_msg st envs target_ip c =
     (if seeds (cfg st) = [] then (c, None)
      else relay_over n p from_slice_msg target_ip
             (zip (seeds (cfg st)) (map envs [0..<length (seeds (cfg st))])) c)"

section \<open>Registration\<close>

text \<open>The seeds of a configuration that can be contacted.\<close>

definition reachable_seeds :: "agent_config \<Rightarrow> socket_addr list" where
  "reachable_seeds c = List.map_filter (\<lambda>s. parse_socket_addr (sa_addr s)) (seeds c)"

lemma register_ok:
  "(\<forall>d a. net_send n d a = Inr ()) \<Longrightarrow>
     register n p st env addr c =
       (c\<lparr>sent := sent c @ [(marshal (net_hmac n) p (net_to_vec n) (env_now env) (env_header_nonce env) (register_message st env), addr)],
          conns := conns c @ [(show_socket_addr addr, addr)]\<rparr>, Inr ())"
  by (simp add: register_def send_msg_def send_to_def)

lemma register_all_conns:
  assumes "\<forall>d a. net_send n d a = Inr ()" and "length ss = length es"
  defines "to \<equiv> List.map_filter (\<lambda>s. parse_socket_addr (sa_addr s)) ss"
  shows "conns (fold (register_seed n p st) (zip ss es) c) = conns c @ map (\<lambda>a. (show_socket_addr a, a)) to \<and>
    map snd (sent (fold (register_seed n p st) (zip ss es) c)) = map snd (sent c) @ to"
  using assms(2) unfolding to_def
proof (induction ss es arbitrary: c rule: list_induct2)
  case (Cons s ss e es)
  then show ?case
    by (simp add: register_seed_def register_ok [OF assms(1)] map_filter_simps split: option.split)
qed (simp add: map_filter_simps)

text \<open>
  When the socket takes every datagram, \<open>k\<close> health rounds send \<open>k\<close> registrations to each
  seed whose address parses, in the order of the configuration, and append \<open>k\<close> entries for
  it to the connection list: the list has one entry per registration ever sent, and grows
  with every round.
\<close>

lemma registrations_accumulate:
  assumes "\<forall>d a. net_send n d a = Inr ()"
    and "c' = fold (\<lambda>envs c. snd (health_round n p False False st envs c)) rounds c"
  shows "map snd (sent c') = map snd (sent c) @ concat (replicate (length rounds) (reachable_seeds (cfg st))) \<and>
    length (conns c') = length (conns c) + length rounds * length (reachable_seeds (cfg st))"
  using assms(2)
proof (induction rounds arbitrary: c)
  case (Cons envs rounds)
  let ?c = "register_all n p st envs c"
  have one: "conns ?c = conns c @ map (\<lambda>a. (show_socket_addr a, a)) (reachable_seeds (cfg st))"
      "map snd (sent ?c) = map snd (sent c) @ reachable_seeds (cfg st)"
    using register_all_conns [OF assms(1), of "seeds (cfg st)" "map envs [0..<length (seeds (cfg st))]" p st c]
    by (simp_all add: register_all_def reachable_seeds_def)
  from Cons.IH [of ?c] Cons.prems show ?case by (simp add: health_round_def one)
qed simp

definition sample_net :: net_api where
  "sample_net = \<lparr>net_hmac = sample_hmac, net_send = (\<lambda>_ _. Inr ()), net_to_vec = (\<lambda>_. Inr [])\<rparr>"

definition sample_env :: "nat \<Rightarrow> send_env" where
  "sample_env i = \<lparr>env_now = 1000, env_qid = 1, env_nonce = 2, env_header_nonce = replicate 8 0\<rparr>"

definition state_with_seeds :: "seed_addr list \<Rightarrow> agent_state" where
  "state_with_seeds ss = new_agent_state 0 (default_config\<lparr>seeds := ss\<rparr>)"

definition numeric_seed :: seed_addr where
  "numeric_seed = \<lparr>sa_addr = show_ipv4 (Ipv4 203 0 113 1) @ '':'' @ dec (unat (9527 :: u16))\<rparr>"

lemma parse_numeric_seed [simp]: "parse_socket_addr (sa_addr numeric_seed) = Some (SocketV4 (Ipv4 203 0 113 1) 9527)"
  unfolding numeric_seed_def seed_addr.simps by (rule parse_show_socket_addr)

lemma cfg_state_with_seeds [simp]: "seeds (cfg (state_with_seeds ss)) = ss"
  by (simp add: state_with_seeds_def new_agent_state_def)

text \<open>
  A seed given by host name is never contacted: if no seed address starts with a digit
  or an opening bracket, registration leaves the client as it is, nothing is sent, and the
  relay search finds nothing.
\<close>

lemma seed_host_names_skipped:
  assumes "\<forall>s \<in> set (seeds (cfg st)). \<exists>ch rest. sa_addr s = ch # rest \<and> digit_val 10 ch = None \<and> ch \<noteq> CHR ''[''"
  shows "register_all n p st envs c = c \<and> try_relay n p from_slice_msg st renvs target_ip c = (c, None)"
proof -
  have none: "parse_socket_addr (sa_addr s) = None" if "s \<in> set (seeds (cfg st))" for s
    using assms that parse_socket_addr_host by fastforce
  have reg: "fold (register_seed n p st) (zip ss es) c = c"
    if "\<forall>s \<in> set ss. parse_socket_addr (sa_addr s) = None" for ss es
    using that
  proof (induction ss arbitrary: es)
    case (Cons s ss)
    then show ?case by (cases es) (simp_all add: register_seed_def case_prod_beta)
  qed simp
  have rel: "relay_over n p from_slice_msg target_ip (zip ss es) c = (c, None)"
    if "\<forall>s \<in> set ss. parse_socket_addr (sa_addr s) = None" for ss es
    using that
  proof (induction ss arbitrary: es)
    case (Cons s ss)
    then show ?case by (cases es) auto
  qed simp
  show ?thesis using none reg rel by (simp add: register_all_def try_relay_def)
qed

section \<open>The relay search never succeeds\<close>

text \<open>\<open>serde_json\<close> rejects input with anything but white space after the value; a zero byte is
  not white space.\<close>

definition rejects_trailing_nul :: "(bytes \<Rightarrow> 'm res) \<Rightarrow> bool" where
  "rejects_trailing_nul f \<longleftrightarrow> (\<forall>bs. bs \<noteq> [] \<and> last bs = 0 \<longrightarrow> (\<exists>e. f bs = Inl e))"

definition short_answer :: "relay_env \<Rightarrow> bool" where
  "short_answer r \<longleftrightarrow> (\<forall>d. answer r = Some (Inr d) \<longrightarrow> length d < 2048)"

lemma last_padded: "length d < 2048 \<Longrightarrow> last (write_buf d (replicate 2048 (0 :: u8))) = 0"
  by (simp add: write_buf_def last_append)

lemma query_seed_for_relay_None:
  assumes "rejects_trailing_nul from_slice_msg" and "short_answer r"
  shows "snd (query_seed_for_relay n p from_slice_msg env r addr target_ip c) = None"
proof -
  have rej: "\<exists>e. from_slice_msg buf = Inl e" if "length buf = 2048" "last buf = 0" for buf
  proof -
    have "buf \<noteq> []" using that(1) by auto
    with assms(1) that(2) show ?thesis by (simp add: rejects_trailing_nul_def)
  qed
  have "\<exists>e. from_slice_msg (replicate 2048 0) = Inl e" by (rule rej) simp_all
  moreover have "\<exists>e. from_slice_msg (write_buf d (replicate 2048 0)) = Inl e" if "answer r = Some (Inr d)" for d
    using assms(2) that by (intro rej) (simp_all add: short_answer_def last_padded)
  ultimately show ?thesis
    by (auto simp: query_seed_for_relay_def Let_def send_msg_def split: sum.split option.split)
qed

text \<open>
  C39. No relay is ever found: the answer is parsed together with the zero bytes that fill
  the rest of the buffer, which a JSON parser rejects, so \<open>try_relay\<close> returns \<open>None\<close> whatever
  the seeds answer in datagrams shorter than the buffer.
\<close>

theorem relay_never_found:
  assumes "rejects_trailing_nul from_slice_msg" and "\<forall>i. short_answer (snd (envs i))"
  shows "snd (try_relay n p from_slice_msg st envs target_ip c) = None"
proof -
  have "snd (relay_over n p from_slice_msg target_ip ss c) = None" if "\<forall>(s, e, r) \<in> set ss. short_answer r" for ss
    using that
  proof (induction ss arbitrary: c)
    case (Cons x ss)
    obtain s e r where x: "x = (s, e, r)" by (cases x)
    have none: "snd (query_seed_for_relay n p from_slice_msg e r a target_ip c) = None" for a
      using Cons.prems by (intro query_seed_for_relay_None [OF assms(1)]) (simp add: x)
    show ?case
    proof (cases "parse_socket_addr (sa_addr s)")
      case (Some a)
      obtain c' where "query_seed_for_relay n p from_slice_msg e r a target_ip c = (c', None)"
        using none [of a] by (metis prod.collapse)
      with Cons Some show ?thesis by (simp add: x)
    qed (use Cons in \<open>simp add: x\<close>)
  qed simp
  moreover have "\<forall>(s, e, r) \<in> set (zip (seeds (cfg st)) (map envs [0..<length (seeds (cfg st))])). short_answer r"
    using assms(2) by (auto simp: set_zip) (metis snd_conv)
  ultimately show ?thesis by (simp add: try_relay_def)
qed

text \<open>A parser of one message that ends at a closing brace (the byte 125).\<close>

definition sample_parser :: "bytes \<Rightarrow> message res" where
  "sample_parser bs =
     (if bs \<noteq> [] \<and> last bs = 125
      then Inr ((blank_message ''relay'' (sample_env 0))\<lparr>relay := Some \<lparr>relay_ip = show_ipv4 (Ipv4 203 0 113 7), relay_port = 4500\<rparr>\<rparr>)
      else Inl (Error ''trailing characters''))"

lemma relay_never_found_witness:
  "relay_endpoint (projr (sample_parser [123, 125])) \<noteq> None \<and>
   snd (try_relay sample_net (bind []) sample_parser (state_with_seeds [numeric_seed])
     (\<lambda>i. (sample_env i, \<lparr>bind_ok = True, answer = Some (Inr [123, 125])\<rparr>)) ''10.244.1.7'' (new_seed_client False)) = None"
  using relay_never_found [of sample_parser "\<lambda>i. (sample_env i, \<lparr>bind_ok = True, answer = Some (Inr [123, 125])\<rparr>)"]
  by (simp add: rejects_trailing_nul_def sample_parser_def short_answer_def relay_endpoint_def)

end
