(* ===== verification/Ipsec.thy ===== *)
theory Ipsec
  imports Config
begin

text \<open>
  \<open>agent/src/ipsec.rs\<close>: the IPsec manager. The commands it runs are collected in a trace;
  the exit status of a command is the parameter \<open>status\<close>, given the trace and the command.
  The \<open>hex\<close> crate is a parameter, and a freshly generated key is an argument.
\<close>

section \<open>Manager and commands\<close>

record hex_api =
  hex_encode :: "bytes \<Rightarrow> string"
  hex_decode :: "string \<Rightarrow> bytes res"

record ipsec_manager =
  spi :: u32
  key :: bytes
  peers :: "(string \<times> string) list"

type_synonym status_fn = "string list list \<Rightarrow> string list \<Rightarrow> bool res"

definition run_status :: "status_fn \<Rightarrow> string list \<Rightarrow> string list list \<Rightarrow> string list list \<times> bool res" where
  "run_status status c tr = (tr @ [c], status tr c)"

definition new_ipsec :: "hex_api \<Rightarrow> bytes \<Rightarrow> u32 \<Rightarrow> string \<Rightarrow> ipsec_manager" where
  "new_ipsec hx generated spi0 k =
     \<lparr>spi = spi0,
      key = (if k = '''' then generated
             else case hex_decode hx k of Inr decoded \<Rightarrow> decoded | Inl _ \<Rightarrow> as_bytes k),
      peers = []\<rparr>"

definition state_add :: "hex_api \<Rightarrow> ipsec_manager \<Rightarrow> string \<Rightarrow> string \<Rightarrow> string list" where
  "state_add hx m src dst =
     [''ip'', ''xfrm'', ''state'', ''add'', ''src'', src, ''dst'', dst, ''proto'', ''esp'',
      ''spi'', hex08 (spi m), ''reqid'', dec (unat (spi m)), ''mode'', ''tunnel'',
      ''auth'', ''sha256'', hex_encode hx (key m), ''enc'', ''aes'', hex_encode hx (key m)]"

definition add_state ::
    "hex_api \<Rightarrow> status_fn \<Rightarrow> ipsec_manager \<Rightarrow> string \<Rightarrow> string \<Rightarrow> string list list \<Rightarrow> string list list \<times> unit res" where
  "add_state hx status m src dst tr =
     seq (run_status status (state_add hx m src dst) tr) (\<lambda>ok1 tr.
     if \<not> ok1 then (tr, Inl (Error (''ip xfrm state add (in) failed for '' @ src @ '' -> '' @ dst)))
     else
     seq (run_status status (state_add hx m dst src) tr) (\<lambda>ok2 tr.
     if \<not> ok2 then (tr, Inl (Error (''ip xfrm state add (out) failed for '' @ src @ '' -> '' @ dst)))
     else (tr, Inr ())))"

definition policy_add :: "ipsec_manager \<Rightarrow> string \<Rightarrow> string \<Rightarrow> string \<Rightarrow> string \<Rightarrow> string \<Rightarrow> string list" where
  "policy_add m src dst dir tsrc tdst =
     [''ip'', ''xfrm'', ''policy'', ''add'', ''src'', src, ''dst'', dst, ''dir'', dir,
      ''tmpl'', ''src'', tsrc, ''dst'', tdst, ''proto'', ''esp'', ''mode'', ''tunnel'',
      ''reqid'', dec (unat (spi m))]"

definition add_policy ::
    "status_fn \<Rightarrow> ipsec_manager \<Rightarrow> string \<Rightarrow> string \<Rightarrow> string \<Rightarrow> string \<Rightarrow> string list list \<Rightarrow>
     string list list \<times> unit res" where
  "add_policy status m src_subnet dst_subnet tunnel_src tunnel_dst tr =
     seq (run_status status (policy_add m src_subnet dst_subnet ''out'' tunnel_src tunnel_dst) tr) (\<lambda>ok1 tr.
     if \<not> ok1 then (tr, Inl (Error (''ip xfrm policy add (out) failed for '' @ src_subnet @ '' -> '' @ dst_subnet)))
     else
     seq (run_status status (policy_add m dst_subnet src_subnet ''in'' tunnel_dst tunnel_src) tr) (\<lambda>ok2 tr.
     if \<not> ok2 then (tr, Inl (Error (''ip xfrm policy add (in) failed for '' @ dst_subnet @ '' -> '' @ src_subnet)))
     else (tr, Inr ())))"

definition state_del :: "ipsec_manager \<Rightarrow> string \<Rightarrow> string \<Rightarrow> string list" where
  "state_del m src dst =
     [''ip'', ''xfrm'', ''state'', ''del'', ''src'', src, ''dst'', dst, ''spi'', hex08 (spi m), ''proto'', ''esp'']"

definition delete_state ::
    "status_fn \<Rightarrow> ipsec_manager \<Rightarrow> string \<Rightarrow> string \<Rightarrow> string list list \<Rightarrow> string list list \<times> unit res" where
  "delete_state status m src dst tr =
     (let tr = fst (run_status status (state_del m src dst) tr);
          tr = fst (run_status status (state_del m dst src) tr)
      in (tr, Inr ()))"

definition delete_policy ::
    "status_fn \<Rightarrow> string \<Rightarrow> string \<Rightarrow> string \<Rightarrow> string list list \<Rightarrow> string list list \<times> unit res" where
  "delete_policy status src_subnet dst_subnet dir tr =
     (fst (run_status status
        [''ip'', ''xfrm'', ''policy'', ''del'', ''src'', src_subnet, ''dst'', dst_subnet, ''dir'', dir] tr), Inr ())"

definition rotate_key ::
    "hex_api \<Rightarrow> status_fn \<Rightarrow> bytes \<Rightarrow> ipsec_manager \<Rightarrow> string list list \<Rightarrow> ipsec_manager \<times> string list list \<times> unit res" where
  "rotate_key hx status generated m tr =
     (let m = m\<lparr>spi := spi m + 1, key := generated\<rparr>
      in (m, fold (\<lambda>(src, dst) tr. fst (add_state hx status m src dst tr)) (peers m) tr, Inr ()))"

definition add_peer :: "string \<Rightarrow> string \<Rightarrow> ipsec_manager \<Rightarrow> ipsec_manager" where
  "add_peer src dst m =
     (if (src, dst) \<in> set (peers m) then m else m\<lparr>peers := peers m @ [(src, dst)]\<rparr>)"

text \<open>The loop: it ends at once when IPsec is off; each round takes a new key. The rounds are
  given by the keys they generate.\<close>

definition ipsec_round :: "bytes \<Rightarrow> ipsec_manager \<Rightarrow> ipsec_manager" where
  "ipsec_round generated m = m\<lparr>spi := spi m + 1, key := generated\<rparr>"

definition ipsec_loop :: "agent_config \<Rightarrow> bytes list \<Rightarrow> ipsec_manager \<Rightarrow> ipsec_manager" where
  "ipsec_loop c generated m = (if \<not> ipsec_enabled c then m else fold ipsec_round generated m)"

section \<open>Peers\<close>

lemma peers_add_peer: "peers (add_peer a b m) = (if (a, b) \<in> set (peers m) then peers m else peers m @ [(a, b)])"
  by (simp add: add_peer_def)

text \<open>
  The peer list is a set in the order of first insertion: whatever peers are added, in
  any order and any number of times, the list has no duplicates, holds exactly the peers
  that were there or added, and keeps the old ones in front.
\<close>

lemma add_peer_set:
  assumes "distinct (peers m)" and "m' = fold (\<lambda>(src, dst). add_peer src dst) ps m"
  shows "distinct (peers m') \<and> set (peers m') = set (peers m) \<union> set ps \<and> prefix (peers m) (peers m')"
  using assms
proof (induction ps arbitrary: m)
  case (Cons p ps)
  obtain a b where p: "p = (a, b)" by force
  have "distinct (peers (add_peer a b m))" using Cons.prems(1) by (simp add: peers_add_peer)
  from Cons.IH [OF this, of] Cons.prems(2) show ?case
    by (auto simp: p peers_add_peer split: if_splits intro: prefix_order.trans append_prefixD)
qed simp

section \<open>Rotation\<close>

lemma add_state_trace:
  "fst (add_state hx status m src dst tr) =
     tr @ (if status tr (state_add hx m src dst) = Inr True
           then [state_add hx m src dst, state_add hx m dst src] else [state_add hx m src dst])"
  by (auto simp: add_state_def run_status_def seq_def split: sum.splits)

text \<open>What a rotation has to run for its peers when every command succeeds.\<close>

definition reapply :: "hex_api \<Rightarrow> ipsec_manager \<Rightarrow> string list list" where
  "reapply hx m = concat (map (\<lambda>(src, dst). [state_add hx m src dst, state_add hx m dst src]) (peers m))"

text \<open>
  C40. A key rotation moves to the next SPI (modulo \<open>2^32\<close>), takes the new key, keeps the
  peers, and tries to install the new state for every peer: in both directions when the
  commands succeed, and also for the peers after one whose command failed.
\<close>

theorem rotate_key_reapplies:
  assumes "rotate_key hx status generated m tr = (m', tr', r)"
  shows "m' = m\<lparr>spi := spi m + 1, key := generated\<rparr> \<and> r = Inr () \<and>
    (\<forall>(src, dst) \<in> set (peers m). state_add hx m' src dst \<in> set tr') \<and>
    ((\<forall>tr c. status tr c = Inr True) \<longrightarrow> tr' = tr @ reapply hx m')"
proof -
  let ?step = "\<lambda>(src, dst) tr. fst (add_state hx status m' src dst tr)"
  have m': "m' = m\<lparr>spi := spi m + 1, key := generated\<rparr>" and tr': "tr' = fold ?step (peers m) tr" and "r = Inr ()"
    using assms by (auto simp: rotate_key_def Let_def)
  have grows: "set tr \<subseteq> set (fold ?step ps tr)" for ps tr
  proof (induction ps arbitrary: tr)
    case (Cons p ps)
    have "set tr \<subseteq> set (?step p tr)" by (cases p) (simp add: add_state_trace subset_iff)
    then show ?case using Cons.IH [of "?step p tr"] by auto
  qed simp
  have "\<forall>(src, dst) \<in> set ps. state_add hx m' src dst \<in> set (fold ?step ps tr)" for ps tr
  proof (induction ps arbitrary: tr)
    case (Cons p ps)
    then show ?case using grows [of "?step p tr" ps] by (auto simp: add_state_trace split: if_splits)
  qed simp
  moreover have "fold ?step ps tr = tr @ concat (map (\<lambda>(src, dst). [state_add hx m' src dst, state_add hx m' dst src]) ps)"
    if "\<forall>tr c. status tr c = Inr True" for ps tr
    using that by (induction ps arbitrary: tr) (auto simp: add_state_trace)
  ultimately show ?thesis using m' tr' \<open>r = Inr ()\<close> by (auto simp: reapply_def)
qed

definition sample_hex :: hex_api where
  "sample_hex = \<lparr>hex_encode = (\<lambda>bs. concat (map hex02 bs)), hex_decode = (\<lambda>_. Inl (Error ''odd length''))\<rparr>"

definition two_peers :: ipsec_manager where
  "two_peers = \<lparr>spi = 0xFFFFFFFF, key = [1], peers = [(''a'', ''b''), (''c'', ''d'')]\<rparr>"

text \<open>The command for the first peer fails; the second one is still tried.\<close>

lemma rotate_key_reapplies_witness:
  "\<exists>m' tr'. rotate_key sample_hex (\<lambda>tr c. if tr = [] then Inr False else Inr True) [7] two_peers [] = (m', tr', Inr ()) \<and>
     spi m' = 0 \<and> state_add sample_hex m' ''c'' ''d'' \<in> set tr'"
proof -
  obtain m' tr' r where run: "rotate_key sample_hex (\<lambda>tr c. if tr = [] then Inr False else Inr True) [7] two_peers []
      = (m', tr', r)" using prod_cases3 by blast
  from rotate_key_reapplies [OF run] run show ?thesis by (auto simp: two_peers_def)
qed

section \<open>The hourly loop\<close>

lemma ipsec_rounds: "fold ipsec_round ks m =
    (if ks = [] then m else m\<lparr>spi := spi m + word_of_nat (length ks), key := last ks\<rparr>)"
  by (induction ks arbitrary: m) (auto simp: ipsec_round_def)

text \<open>
  The key schedule of the hourly loop: after \<open>n\<close> rounds the SPI is \<open>n\<close> further (modulo
  \<open>2^32\<close>), the key is the last one generated and the peers are those of the start, so no
  SPI is used twice within \<open>2^32\<close> rounds; with IPsec switched off nothing changes.
\<close>

lemma ipsec_loop_schedule:
  assumes "i < j" and "j \<le> length ks" and "length ks < 2 ^ 32"
  shows "if ipsec_enabled c
    then spi (ipsec_loop c (take i ks) m) \<noteq> spi (ipsec_loop c (take j ks) m) \<and>
         ipsec_loop c ks m = m\<lparr>spi := spi m + word_of_nat (length ks), key := last ks\<rparr>
    else ipsec_loop c ks m = m"
proof -
  have spi: "spi (fold ipsec_round ks' m) = spi m + word_of_nat (length ks')" for ks'
    by (simp add: ipsec_rounds)
  have "(word_of_nat i :: u32) \<noteq> word_of_nat j"
    using assms by (simp add: word_unat_eq_iff unat_of_nat)
  then show ?thesis using assms by (auto simp: ipsec_loop_def spi ipsec_rounds)
qed

end
