(* ===== verification/Agent.thy ===== *)
theory Agent
  imports Vip Concurrent Metrics Route Stun Seed Ipsec
begin

text \<open>
  \<open>agent/src/main.rs\<close> (start-up) and the running agent: the tasks
  that \<open>spawn_all\<close> starts as the steps of one transition system over the state they share.
  Everything the agent gets from outside at start-up is in \<open>agent_env\<close>.
\<close>

section \<open>Commands and start-up\<close>

datatype cli_command = AgentCommand string | SeedCommand string | CniCommand | VersionCommand

datatype main_action = RunAgent string bool | RunCni | PrintText string

definition main_dispatch :: "cli_command option \<Rightarrow> main_action" where
  "main_dispatch c =
     (case (case c of None \<Rightarrow> AgentCommand ''/etc/nomad-p2p/config.json'' | Some cmd \<Rightarrow> cmd) of
        AgentCommand config \<Rightarrow> RunAgent config False
      | SeedCommand config \<Rightarrow> RunAgent config True
      | CniCommand \<Rightarrow> RunCni
      | VersionCommand \<Rightarrow> PrintText ''nomad-p2p v0.4.0'')"

record agent_env =
  read_to_string :: "string \<Rightarrow> string res"
  parse_config :: "string \<Rightarrow> agent_config res"
  object_file :: "string \<Rightarrow> bpf_object res"
  tunnel_insert :: "tunnel_cfg insert_fn"
  ip_output :: "string list \<Rightarrow> string res"
  attach_call :: "string \<Rightarrow> attach_kind \<Rightarrow> u32 \<Rightarrow> unit res"
  stun_sockets :: stun_net
  bind_socket :: "string \<Rightarrow> unit res"
  network :: net_api
  boot_envs :: "nat \<Rightarrow> send_env"
  hex_crate :: hex_api
  first_key :: bytes
  boot_time :: nat

text \<open>\<open>anyhow\<close>'s \<open>context\<close>: the error is shown with the given text.\<close>

definition with_context :: "string \<Rightarrow> 'a res \<Rightarrow> 'a res" where
  "with_context m r = (case r of Inl (Error _) \<Rightarrow> Inl (Error m) | Inl (Panic p) \<Rightarrow> Inl (Panic p) | Inr x \<Rightarrow> Inr x)"

text \<open>A connection of the API server has a task of its own, which first reads the request and then
  runs the parts of its command. \<open>Stopping\<close> is the half second between the interrupt and the
  return of \<open>main\<close>, which drops the runtime with every task that is left.\<close>

datatype connection = Reading | Running "atom list"

datatype phase = Up | Stopping | Exited

text \<open>
  How far a task is in a round of its loop. A round is \<open>Begun\<close> when the task has read the stop
  flag for the last time in it and found it unset. The ring buffer consumer then holds an address
  it has read (\<open>Missed\<close>), and one whose length check has passed (\<open>Pushing\<close>); the discovery task
  has the addresses of its batch that are left (\<open>Batch\<close>). A task that is in no round waits for its
  next tick, connection or reading of the flag.
\<close>

datatype progress = Begun | Missed u32 | Pushing u32 | Batch "u32 list"

text \<open>The running agent: \<open>AppContext\<close>, the state of the VIP task, the content of the channel to
  the Kademlia task, the programs that were attached, the tasks that are running, the rounds they
  are in, the open connections, and the phase (\<open>stop\<close> is true in \<open>Stopping\<close>).\<close>

record system =
  sys_state :: agent_state
  sys_api :: api_state
  sys_proto :: udp_protocol
  sys_seed :: seed_client
  sys_routes :: route_manager
  sys_ipsec :: "ipsec_manager option"
  sys_monitor :: vip_monitor
  sys_kad :: "u32 list"
  sys_attached :: "(string \<times> attach_kind) list"
  sys_tasks :: "task list"
  sys_rounds :: "(task \<times> progress) list"
  sys_conns :: "connection list"
  sys_phase :: phase

definition setup_bpf :: "agent_env \<Rightarrow> agent_config \<Rightarrow> (bpf_manager \<times> (string \<times> attach_kind) list) res" where
  "setup_bpf env c =
     and_then (with_context ''load BPF programs'' (load (object_file env))) (\<lambda>b.
     and_then (set_tunnel_cfg (tunnel_insert env) (tunnel_vni c) b) (\<lambda>b.
     let ifindex = (case find_default_ifindex (ip_output env) of Inl _ \<Rightarrow> 1 | Inr i \<Rightarrow> i) in
     and_then (attach_all (attach_call env) b ifindex) (\<lambda>attached. Inr (b, attached))))"

definition run_agent :: "agent_env \<Rightarrow> string \<Rightarrow> bool \<Rightarrow> system res" where
  "run_agent env config_path mode =
     and_then (with_context ''read config'' (read_to_string env config_path)) (\<lambda>data.
     and_then (with_context ''parse config'' (parse_config env data)) (\<lambda>c.
     and_then (setup_bpf env c) (\<lambda>(b, attached).
     let (st, found) = discover (stun_sockets env) (new_agent_state (boot_time env) c) in
     and_then found (\<lambda>_.
     and_then (bind_udp (bind_socket env) (listen_port c) (cfg_psk c)) (\<lambda>p.
     let client = register_all (network env) p st (boot_envs env) (new_seed_client mode);
         mx = \<lparr>guarded = b, poisoned = False\<rparr> in
     and_then (recover_from_bpf mx Map.empty) (\<lambda>cs.
     let ipsec = (if ipsec_enabled c
                  then Some (new_ipsec (hex_crate env) (first_key env) (ipsec_spi c) (ipsec_key c)) else None)
     in Inr \<lparr>sys_state = st, sys_api = \<lparr>containers = cs, bpf = mx\<rparr>, sys_proto = p, sys_seed = client,
              sys_routes = new_route_manager, sys_ipsec = ipsec,
              sys_monitor = (if vip_enabled c then init_backends c new_monitor else new_monitor),
              sys_kad = [], sys_attached = attached, sys_tasks = spawn_all c (ipsec \<noteq> None),
              sys_rounds = [], sys_conns = [], sys_phase = Up\<rparr>))))))"

section \<open>The running agent\<close>

text \<open>The maps the egress program sees are the ones behind the agent's handles.\<close>

definition maps_agree :: "kernel_maps \<Rightarrow> bpf_manager \<Rightarrow> bool" where
  "maps_agree km b \<longleftrightarrow> node_dynamic (maps b) = Some (NODE_DYNAMIC_MAP km) \<and>
     geneve_ifindex (maps b) = Some (GENEVE_IFINDEX_MAP km)"

abbreviation manager :: "system \<Rightarrow> bpf_manager" where
  "manager s \<equiv> guarded (bpf (sys_api s))"

abbreviation with_manager :: "bpf_manager \<Rightarrow> system \<Rightarrow> system" where
  "with_manager b s \<equiv> s\<lparr>sys_api := (sys_api s)\<lparr>bpf := (bpf (sys_api s))\<lparr>guarded := b\<rparr>\<rparr>\<rparr>"

abbreviation advance :: "task \<Rightarrow> progress \<Rightarrow> progress \<Rightarrow> system \<Rightarrow> system" where
  "advance t p p' s \<equiv> s\<lparr>sys_rounds := (t, p') # remove1 (t, p) (sys_rounds s)\<rparr>"

abbreviation finish :: "task \<Rightarrow> progress \<Rightarrow> system \<Rightarrow> system" where
  "finish t p s \<equiv> s\<lparr>sys_rounds := remove1 (t, p) (sys_rounds s)\<rparr>"

abbreviation in_round :: "task \<Rightarrow> progress \<Rightarrow> system \<Rightarrow> bool" where
  "in_round t p s \<equiv> (t, p) \<in> set (sys_rounds s)"

text \<open>
  One step of one task, with whatever the outside world delivers to it: connections to the API
  server, datagrams, STUN answers, random keys, probe outcomes, the clock. The kernel's map calls
  may fail, but do what they report (\<open>insert_ok\<close>, \<open>remove_ok\<close>). A task that panics is
  gone: the refresh task when discovery panics, the discovery task when it finds the mutex
  poisoned. A round begins only while the stop flag is unset; once begun it runs to its end
  whatever the flag says, as do the connections that were accepted. The receiver of the Kademlia
  channel is dropped with the rest of \<open>AppContext\<close> when \<open>spawn_all\<close> returns (its consumer is
  commented out), so the discovery task sends on a closed channel.
\<close>

inductive task_step :: "'j json_api \<Rightarrow> system \<Rightarrow> system \<Rightarrow> bool" for j where
  begins: "sys_phase s = Up \<Longrightarrow> t \<in> set (sys_tasks s) \<Longrightarrow> t \<notin> fst ` set (sys_rounds s) \<Longrightarrow>
    task_step j s (s\<lparr>sys_rounds := (t, Begun) # sys_rounds s\<rparr>)"
| accept: "in_round (ApiServer port) Begun s \<Longrightarrow>
    task_step j s ((finish (ApiServer port) Begun s)\<lparr>sys_conns := sys_conns s @ [Reading]\<rparr>)"
| accept_error: "in_round (ApiServer port) Begun s \<Longrightarrow> task_step j s (finish (ApiServer port) Begun s)"
| metrics: "in_round (MetricsServe port) Begun s \<Longrightarrow> task_step j s (finish (MetricsServe port) Begun s)"
| request: "i < length (sys_conns s) \<Longrightarrow> sys_conns s ! i = Reading \<Longrightarrow>
    task_step j s (s\<lparr>sys_conns := (sys_conns s)[i := Running (conn_atoms j e stream)]\<rparr>)"
| command: "i < length (sys_conns s) \<Longrightarrow> sys_conns s ! i = Running (a # as) \<Longrightarrow> insert_ok ins \<Longrightarrow> remove_ok rem \<Longrightarrow>
    task_step j s (s\<lparr>sys_api := exec_atom checks ins rem a (sys_api s), sys_conns := (sys_conns s)[i := Running as]\<rparr>)"
| recv: "in_round RecvLoop Begun s \<Longrightarrow>
    recv_loop_step h j False es buf (sys_proto s) = (out, buf', p, rest) \<Longrightarrow>
    task_step j s ((finish RecvLoop Begun s)\<lparr>sys_proto := p\<rparr>)"
| health: "in_round HealthLoop Begun s \<Longrightarrow>
    health_round n (sys_proto s) False False (sys_state s) envs (sys_seed s) = (goes_on, c) \<Longrightarrow>
    task_step j s ((finish HealthLoop Begun s)\<lparr>sys_seed := c\<rparr>)"
| stun: "in_round (StunRefresh i) Begun s \<Longrightarrow>
    refresh_step False net (sys_state s) = (out, st) \<Longrightarrow>
    task_step j s ((finish (StunRefresh i) Begun s)\<lparr>sys_state := st,
      sys_tasks := (if out = RefreshPanicked then remove1 (StunRefresh i) (sys_tasks s) else sys_tasks s)\<rparr>)"
| ring_none: "in_round RingbufConsumer Begun s \<Longrightarrow> ring_next (manager s) = (b, None) \<Longrightarrow>
    task_step j s (with_manager b (finish RingbufConsumer Begun s))"
| ring_some: "in_round RingbufConsumer Begun s \<Longrightarrow> ring_next (manager s) = (b, Some ip) \<Longrightarrow>
    task_step j s (with_manager b (advance RingbufConsumer Begun (Missed ip) s))"
| ring_full: "in_round RingbufConsumer (Missed ip) s \<Longrightarrow> \<not> submit_check (sys_routes s) \<Longrightarrow>
    task_step j s (finish RingbufConsumer (Missed ip) s)"
| ring_check: "in_round RingbufConsumer (Missed ip) s \<Longrightarrow> submit_check (sys_routes s) \<Longrightarrow>
    task_step j s (advance RingbufConsumer (Missed ip) (Pushing ip) s)"
| ring_push: "in_round RingbufConsumer (Pushing ip) s \<Longrightarrow>
    task_step j s ((finish RingbufConsumer (Pushing ip) s)\<lparr>sys_routes := submit_push ip (sys_routes s)\<rparr>)"
| drain: "in_round DiscoveryLoop Begun s \<Longrightarrow> drain_batch now (sys_routes s) = (batch, routes') \<Longrightarrow>
    task_step j s ((advance DiscoveryLoop Begun (Batch batch) s)\<lparr>sys_routes := routes'\<rparr>)"
| discover: "in_round DiscoveryLoop (Batch (ip # batch)) s \<Longrightarrow> \<not> poisoned (bpf (sys_api s)) \<Longrightarrow> insert_ok ins \<Longrightarrow>
    discover_one ins (Some False) ip (manager s, sys_kad s) = (b, kad) \<Longrightarrow>
    task_step j s ((with_manager b (advance DiscoveryLoop (Batch (ip # batch)) (Batch batch) s))\<lparr>sys_kad := kad\<rparr>)"
| discover_panic: "in_round DiscoveryLoop (Batch (ip # batch)) s \<Longrightarrow> poisoned (bpf (sys_api s)) \<Longrightarrow>
    task_step j s ((finish DiscoveryLoop (Batch (ip # batch)) s)\<lparr>sys_tasks := remove1 DiscoveryLoop (sys_tasks s)\<rparr>)"
| discovered: "in_round DiscoveryLoop (Batch []) s \<Longrightarrow> task_step j s (finish DiscoveryLoop (Batch []) s)"
| ipsec: "in_round IpsecLoop Begun s \<Longrightarrow> sys_ipsec s = Some m \<Longrightarrow>
    task_step j s ((finish IpsecLoop Begun s)\<lparr>sys_ipsec := Some (ipsec_round generated m)\<rparr>)"
| vip: "in_round VipProbeLoop Begun s \<Longrightarrow> \<not> poisoned (bpf (sys_api s)) \<Longrightarrow>
    probe_round vins connect vips (sys_monitor s, manager s) = (m, b) \<Longrightarrow>
    task_step j s ((with_manager b (finish VipProbeLoop Begun s))\<lparr>sys_monitor := m\<rparr>)"
| vip_poisoned: "in_round VipProbeLoop Begun s \<Longrightarrow> poisoned (bpf (sys_api s)) \<Longrightarrow>
    task_step j s (finish VipProbeLoop Begun s)"

text \<open>The end of \<open>run_agent\<close>: the interrupt sets the stop flag, a task that is in no round returns
  when it next reads the flag, and \<open>main\<close> returns after its half second.\<close>

inductive stop_step :: "system \<Rightarrow> system \<Rightarrow> bool" where
  interrupt: "sys_phase s = Up \<Longrightarrow> stop_step s (s\<lparr>sys_phase := Stopping\<rparr>)"
| task_ends: "sys_phase s = Stopping \<Longrightarrow> t \<in> set (sys_tasks s) \<Longrightarrow> t \<notin> fst ` set (sys_rounds s) \<Longrightarrow>
    stop_step s (s\<lparr>sys_tasks := remove1 t (sys_tasks s)\<rparr>)"
| exit: "sys_phase s = Stopping \<Longrightarrow>
    stop_step s (s\<lparr>sys_phase := Exited, sys_tasks := [], sys_rounds := [], sys_conns := []\<rparr>)"

definition agent_step :: "'j json_api \<Rightarrow> system \<Rightarrow> system \<Rightarrow> bool" where
  "agent_step j s s' \<longleftrightarrow> task_step j s s' \<or> stop_step s s'"

text \<open>A packet that leaves through the egress program may add a record to the ring buffer.\<close>

inductive egress_step :: "system \<Rightarrow> system \<Rightarrow> bool" where
  packet: "sys_phase s \<noteq> Exited \<Longrightarrow> (''egress_p2p_mesh'', TcEgress) \<in> set (sys_attached s) \<Longrightarrow>
    maps_agree km (manager s) \<Longrightarrow> ringbuf (manager s) = Some ring \<Longrightarrow>
    egress_p2p_mesh tc km ring ctx = (verdict, packet, ring') \<Longrightarrow>
    egress_step s (with_manager ((manager s)\<lparr>ringbuf := Some ring'\<rparr>) s)"

definition sys_step :: "'j json_api \<Rightarrow> system \<Rightarrow> system \<Rightarrow> bool" where
  "sys_step j s s' \<longleftrightarrow> agent_step j s s' \<or> egress_step s s'"

inductive sys_reachable :: "'j json_api \<Rightarrow> agent_env \<Rightarrow> string \<Rightarrow> bool \<Rightarrow> system \<Rightarrow> bool" for j env path mode where
  boot: "run_agent env path mode = Inr s \<Longrightarrow> sys_reachable j env path mode s"
| step: "sys_reachable j env path mode s \<Longrightarrow> sys_step j s s' \<Longrightarrow> sys_reachable j env path mode s'"

section \<open>What the running agent leaves alone\<close>

text \<open>\<open>frame b b'\<close>: of the manager, only the container routes and the ring buffer differ.\<close>

definition frame :: "bpf_manager \<Rightarrow> bpf_manager \<Rightarrow> bool" where
  "frame b b' \<longleftrightarrow> b' = b\<lparr>maps := (maps b)\<lparr>container_route := container_route (maps b')\<rparr>, ringbuf := ringbuf b'\<rparr>"

lemma frame_refl [simp, intro]: "frame b b"
  by (simp add: frame_def)

lemma frame_intro: "frame b (b\<lparr>maps := (maps b)\<lparr>container_route := cr\<rparr>\<rparr>)" "frame b (b\<lparr>ringbuf := rb\<rparr>)"
  by (simp_all add: frame_def)

lemma frame_trans [trans]:
  assumes "frame a b" and "frame b c"
  shows "frame a c"
proof -
  obtain cr rb where b: "b = a\<lparr>maps := (maps a)\<lparr>container_route := cr\<rparr>, ringbuf := rb\<rparr>"
    using assms(1) unfolding frame_def by blast
  obtain cr' rb' where c: "c = b\<lparr>maps := (maps b)\<lparr>container_route := cr'\<rparr>, ringbuf := rb'\<rparr>"
    using assms(2) unfolding frame_def by blast
  show ?thesis by (simp add: frame_def b c)
qed

lemma frame_maps:
  assumes "frame b b'"
  shows "node_dynamic (maps b') = node_dynamic (maps b)" and "vip_map (maps b') = vip_map (maps b)"
    and "geneve_ifindex (maps b') = geneve_ifindex (maps b)" and "acl_map (maps b') = acl_map (maps b)"
    and "default_policy_map (maps b') = default_policy_map (maps b)"
proof -
  obtain cr rb where b': "b' = b\<lparr>maps := (maps b)\<lparr>container_route := cr\<rparr>, ringbuf := rb\<rparr>"
    using assms unfolding frame_def by blast
  show "node_dynamic (maps b') = node_dynamic (maps b)" "vip_map (maps b') = vip_map (maps b)"
    "geneve_ifindex (maps b') = geneve_ifindex (maps b)" "acl_map (maps b') = acl_map (maps b)"
    "default_policy_map (maps b') = default_policy_map (maps b)"
    by (simp_all add: b')
qed

lemma frame_update [intro]: "update_container_route ins ip v b = Inr b' \<Longrightarrow> frame b b'"
  by (auto simp: update_container_route_def and_then_Inr_iff frame_intro split: option.splits)

lemma frame_remove [intro]: "remove_container_route rem ip b = Inr b' \<Longrightarrow> frame b b'"
  by (auto simp: remove_container_route_def and_then_Inr_iff frame_intro split: option.splits)

lemma frame_with_lock:
  assumes "\<And>b b'. f b = Inr b' \<Longrightarrow> frame b b'"
  shows "frame (guarded mx) (guarded (with_lock f mx))"
  using assms by (auto simp: with_lock_def split: sum.split)

lemma frame_alloc_loop: "alloc_loop checks ins hash offsets b = Inr (b', ip) \<Longrightarrow> frame b b'"
proof (induction offsets)
  case (Cons off offsets)
  then show ?case
    by (auto simp: and_then_Inr_iff Let_def split: if_splits sum.splits)
qed simp

lemma frame_allocate: "frame (guarded mx) (guarded (fst (allocate_from_bpf checks ins cid mx)))"
  by (auto simp: allocate_from_bpf_def dest: frame_alloc_loop split: sum.split prod.split)

lemma frame_exec_atom: "frame (guarded (bpf st)) (guarded (bpf (exec_atom checks ins rem a st)))"
  by (cases a) (auto simp: exec_atom_def frame_allocate intro!: frame_with_lock)

lemma frame_discover_one: "frame (fst x) (fst (discover_one ins tx ip x))"
  by (auto simp: discover_one_def Let_def case_prod_beta frame_intro split: option.split sum.split)

lemma frame_discover: "discover_one ins tx ip (b, kad) = (b', kad') \<Longrightarrow> frame b b'"
  using frame_discover_one [of "(b, kad)"] by (metis fst_conv)

lemma frame_ring_next: "ring_next b = (b', r) \<Longrightarrow> frame b b'"
  by (auto simp: ring_next_def frame_intro split: option.splits list.splits)

lemma frame_task_step:
  "task_step j s s' \<Longrightarrow> vip_map (maps (manager s)) = None \<Longrightarrow>
     frame (manager s) (manager s') \<and> sys_attached s' = sys_attached s"
proof (induction rule: task_step.induct)
  case (vip s vins connect vips m b)
  then have "b = manager s" using snd_probe_round_no_map [of "(sys_monitor s, manager s)"] by (metis snd_conv)
  then show ?case by simp
qed (simp_all add: frame_exec_atom frame_ring_next frame_discover)

lemma frame_sys_step:
  assumes "sys_step j s s'" and "vip_map (maps (manager s)) = None"
  shows "frame (manager s) (manager s') \<and> sys_attached s' = sys_attached s"
  using assms frame_task_step
  by (auto simp: sys_step_def agent_step_def frame_intro elim!: egress_step.cases stop_step.cases)

section \<open>The values of the container routes\<close>

text \<open>Every route has the value 1 or is one of the given ones.\<close>

definition routes_from :: "u32 bpf_map \<Rightarrow> bpf_manager \<Rightarrow> bool" where
  "routes_from m0 b \<longleftrightarrow> (\<forall>ip v. route_of b ip = Some v \<longrightarrow> v = 1 \<or> m0 ip = Some v)"

lemma routes_from_update:
  assumes "insert_ok ins" and "routes_from m0 b" and "update_container_route ins ip 1 b = Inr b'"
  shows "routes_from m0 b'"
proof (cases "container_route (maps b)")
  case None
  with assms(2,3) show ?thesis by (simp add: update_container_route_def)
next
  case (Some m)
  with assms(1,3) have "route_of b' = (route_of b)(ip \<mapsto> 1)" using container_routes.ins_look by blast
  with assms(2) show ?thesis by (simp add: routes_from_def)
qed

lemma routes_from_remove:
  assumes "remove_ok rem" and "routes_from m0 b" and "remove_container_route rem ip b = Inr b'"
  shows "routes_from m0 b'"
proof (cases "container_route (maps b)")
  case None
  with assms(2,3) show ?thesis by (simp add: remove_container_route_def)
next
  case (Some m)
  with assms(1,3) have "route_of b' = (route_of b)(ip := None)" using container_routes.del_look by blast
  with assms(2) show ?thesis by (simp add: routes_from_def)
qed

lemma routes_from_with_lock:
  assumes "\<And>b'. f (guarded mx) = Inr b' \<Longrightarrow> routes_from m0 b'" and "routes_from m0 (guarded mx)"
  shows "routes_from m0 (guarded (with_lock f mx))"
  using assms by (simp add: with_lock_def split: sum.split)

lemma routes_from_allocate:
  assumes "insert_ok ins" and "routes_from m0 (guarded mx)"
  shows "routes_from m0 (guarded (fst (allocate_from_bpf checks ins cid mx)))"
proof (cases "poisoned mx")
  case True
  with assms(2) show ?thesis by (simp add: allocate_from_bpf_def)
next
  case False
  with assms routes_from_update [OF assms] show ?thesis
    by (simp add: allocate_from_bpf_eq reserve_def split: sum.split)
qed

lemma routes_from_exec_atom:
  assumes "insert_ok ins" and "remove_ok rem" and "routes_from m0 (guarded (bpf st))"
  shows "routes_from m0 (guarded (bpf (exec_atom checks ins rem a st)))"
  using assms
  by (cases a) (auto simp: exec_atom_def routes_from_allocate
      intro!: routes_from_with_lock intro: routes_from_update routes_from_remove)

lemma routes_from_discover_one:
  assumes "insert_ok ins" and "routes_from m0 (fst x)"
  shows "routes_from m0 (fst (discover_one ins tx ip x))"
  using assms routes_from_update [OF assms(1), of m0 "fst x" ip]
  by (auto simp: discover_one_def update_container_route_def Let_def case_prod_beta split: option.split sum.split)

lemma route_of_ringbuf [simp]: "route_of (b\<lparr>ringbuf := r\<rparr>) = route_of b"
  by (simp add: route_of_def fun_eq_iff)

lemma route_of_ring_next: "ring_next b = (b', r) \<Longrightarrow> route_of b' = route_of b"
  by (auto simp: ring_next_def split: option.splits list.splits)

lemma routes_from_task_step:
  "task_step j s s' \<Longrightarrow> vip_map (maps (manager s)) = None \<Longrightarrow> routes_from m0 (manager s) \<Longrightarrow> routes_from m0 (manager s')"
proof (induction rule: task_step.induct)
  case (vip s vins connect vips m b)
  then have "b = manager s" using snd_probe_round_no_map [of "(sys_monitor s, manager s)"] by (metis snd_conv)
  with vip show ?case by simp
next
  case (discover ip batch s ins b kad)
  then show ?case using routes_from_discover_one [of ins m0 "(manager s, sys_kad s)" "Some False" ip] by simp
next
  case (ring_none s b)
  then show ?case by (simp add: routes_from_def route_of_ring_next)
next
  case (ring_some s b ip)
  then show ?case by (simp add: routes_from_def route_of_ring_next)
qed (simp_all add: routes_from_exec_atom)

lemma routes_from_sys_step:
  assumes "sys_step j s s'" and "vip_map (maps (manager s)) = None" and "routes_from m0 (manager s)"
  shows "routes_from m0 (manager s')"
proof -
  have "routes_from m0 (manager t)" if "stop_step s t" for t
    using that assms(3) by (cases rule: stop_step.cases) simp_all
  moreover have "routes_from m0 (manager t)" if "egress_step s t" for t
    using that assms(3) by (cases rule: egress_step.cases) (simp add: routes_from_def)
  ultimately show ?thesis
    using assms(1) routes_from_task_step [OF _ assms(2,3)] by (auto simp: sys_step_def agent_step_def)
qed

section \<open>From boot to every reachable state\<close>

lemma set_tunnel_cfg_maps:
  assumes "set_tunnel_cfg ins t b = Inr b'"
  shows "container_route (maps b') = container_route (maps b)" and "node_dynamic (maps b') = node_dynamic (maps b)"
    and "vip_map (maps b') = vip_map (maps b)" and "acl_map (maps b') = acl_map (maps b)"
    and "default_policy_map (maps b') = default_policy_map (maps b)" and "geneve_ifindex (maps b') = geneve_ifindex (maps b)"
  using assms by (auto simp: set_tunnel_cfg_def and_then_Inr_iff split: option.splits)

lemma load_maps:
  assumes "load f = Inr b" and "f ''bin/mesh.bpf.o'' = Inr obj"
  shows "container_route (maps b) = obj_container_route obj" and "node_dynamic (maps b) = obj_node_dynamic obj"
    and "geneve_ifindex (maps b) = obj_geneve_ifindex obj"
  using assms by (auto simp: load_def)

lemma attach_all_programs:
  "attach_all attach b i = Inr done \<Longrightarrow> set done \<subseteq> {(''xdp_pass'', XdpDefault), (''egress_p2p_mesh'', TcEgress)}"
  by (auto simp: attach_all_def attach_one_def and_then_Inr_iff split: if_splits)

lemma with_context_Inr [simp]: "with_context m r = Inr x \<longleftrightarrow> r = Inr x"
  by (auto simp: with_context_def split: sum.splits err.splits)

lemma setup_bpf_maps:
  assumes "setup_bpf env c = Inr (b, attached)" and "object_file env ''bin/mesh.bpf.o'' = Inr obj"
  shows "container_route (maps b) = obj_container_route obj" and "node_dynamic (maps b) = obj_node_dynamic obj"
    and "geneve_ifindex (maps b) = obj_geneve_ifindex obj" and "vip_map (maps b) = None" and "acl_map (maps b) = None"
    and "default_policy_map (maps b) = None"
    and "set attached \<subseteq> {(''xdp_pass'', XdpDefault), (''egress_p2p_mesh'', TcEgress)}"
proof -
  obtain b0 i where "load (object_file env) = Inr b0" "set_tunnel_cfg (tunnel_insert env) (tunnel_vni c) b0 = Inr b"
      "attach_all (attach_call env) b i = Inr attached"
    using assms(1) by (auto simp: setup_bpf_def and_then_Inr_iff Let_def)
  note parts = this set_tunnel_cfg_maps [OF this(2)] load_maps [OF this(1) assms(2)] attach_all_programs [OF this(3)]
  show "container_route (maps b) = obj_container_route obj" "node_dynamic (maps b) = obj_node_dynamic obj"
    "geneve_ifindex (maps b) = obj_geneve_ifindex obj" "vip_map (maps b) = None" "acl_map (maps b) = None"
    "default_policy_map (maps b) = None"
    "set attached \<subseteq> {(''xdp_pass'', XdpDefault), (''egress_p2p_mesh'', TcEgress)}"
    using parts by simp_all
qed

lemma run_agent_Inr:
  assumes "run_agent env path mode = Inr s"
  shows "\<exists>c b. setup_bpf env c = Inr (b, sys_attached s) \<and> bpf (sys_api s) = \<lparr>guarded = b, poisoned = False\<rparr> \<and>
    containers (sys_api s) = Map.empty \<and> sys_tasks s = spawn_all c (sys_ipsec s \<noteq> None) \<and>
    (sys_ipsec s \<noteq> None \<longleftrightarrow> ipsec_enabled c)"
  using assms
  by (auto simp: run_agent_def and_then_Inr_iff Let_def case_prod_beta recover_from_bpf_def list_container_ips_def)

text \<open>What no step of the agent changes, and where its routes come from.\<close>

definition loaded_routes :: "bpf_object \<Rightarrow> u32 bpf_map" where
  "loaded_routes obj = (case obj_container_route obj of None \<Rightarrow> Map.empty | Some m \<Rightarrow> m)"

definition static_maps :: "bpf_object \<Rightarrow> system \<Rightarrow> bool" where
  "static_maps obj s \<longleftrightarrow>
     node_dynamic (maps (manager s)) = obj_node_dynamic obj \<and>
     geneve_ifindex (maps (manager s)) = obj_geneve_ifindex obj \<and>
     vip_map (maps (manager s)) = None \<and> acl_map (maps (manager s)) = None \<and>
     default_policy_map (maps (manager s)) = None \<and>
     set (sys_attached s) \<subseteq> {(''xdp_pass'', XdpDefault), (''egress_p2p_mesh'', TcEgress)} \<and>
     routes_from (loaded_routes obj) (manager s)"

lemma static_maps_reachable:
  assumes "sys_reachable j env path mode s" and "object_file env ''bin/mesh.bpf.o'' = Inr obj"
  shows "static_maps obj s"
  using assms
proof (induction rule: sys_reachable.induct)
  case (boot s)
  from run_agent_Inr [OF boot(1)] obtain c b where
    "setup_bpf env c = Inr (b, sys_attached s)" "bpf (sys_api s) = \<lparr>guarded = b, poisoned = False\<rparr>" by blast
  with setup_bpf_maps [OF this(1) boot(2)] show ?case
    by (simp add: static_maps_def routes_from_def route_of_def loaded_routes_def split: option.split)
next
  case (step s s')
  then have s: "static_maps obj s" by simp
  then have "frame (manager s) (manager s') \<and> sys_attached s' = sys_attached s"
    using frame_sys_step [OF step.hyps(2)] by (simp add: static_maps_def)
  moreover have "routes_from (loaded_routes obj) (manager s')"
    using s routes_from_sys_step [OF step.hyps(2)] by (simp add: static_maps_def)
  ultimately show ?case using s frame_maps [of "manager s" "manager s'"] by (simp add: static_maps_def)
qed

text \<open>
  C8. Whatever the tasks of a running agent do, in any order and with any input, the peer
  endpoint map keeps the content it was loaded with, the agent never has a handle on the
  VIP, ACL and default-policy maps, and of all programs only the XDP pass program and the
  mesh egress program are ever attached: no peer is ever learned, and neither the firewall
  nor the VIP balancer runs. The value of every container route is the constant 1, unless it was
  loaded with the map; none is the index of a local interface.
\<close>

theorem agent_keeps_static_maps:
  assumes "sys_reachable j env path mode s" and "object_file env ''bin/mesh.bpf.o'' = Inr obj"
  shows "node_dynamic (maps (guarded (bpf (sys_api s)))) = obj_node_dynamic obj \<and>
    vip_map (maps (guarded (bpf (sys_api s)))) = None \<and> acl_map (maps (guarded (bpf (sys_api s)))) = None \<and>
    default_policy_map (maps (guarded (bpf (sys_api s)))) = None \<and>
    set (sys_attached s) \<subseteq> {(''xdp_pass'', XdpDefault), (''egress_p2p_mesh'', TcEgress)} \<and>
    ran (route_of (guarded (bpf (sys_api s)))) \<subseteq> insert 1 (ran (loaded_routes obj))"
  using static_maps_reachable [OF assms] by (auto simp: static_maps_def routes_from_def ran_def)

lemma egress_without_peers:
  assumes "NODE_DYNAMIC_MAP km = Map.empty"
  shows "\<exists>ring'. egress_p2p_mesh tc km ring ctx = (TC_ACT_PIPE, skb ctx, ring')"
  using assms by (auto simp: egress_p2p_mesh_def try_egress_def Let_def split: sum.split option.split)

text \<open>
  C7. Loaded with an empty peer endpoint map, the mesh never carries a packet: in every
  reachable state of the agent the egress program lets every frame pass unchanged and
  redirects none to the tunnel.
\<close>

theorem mesh_never_redirects:
  assumes "sys_reachable j env path mode s" and "object_file env ''bin/mesh.bpf.o'' = Inr obj"
    and "obj_node_dynamic obj = Some Map.empty" and "maps_agree km (guarded (bpf (sys_api s)))"
  shows "\<exists>ring'. egress_p2p_mesh tc km ring ctx = (TC_ACT_PIPE, skb ctx, ring')"
proof -
  have "NODE_DYNAMIC_MAP km = Map.empty"
    using static_maps_reachable [OF assms(1,2)] assms(3,4) by (simp add: static_maps_def maps_agree_def)
  then show ?thesis by (rule egress_without_peers)
qed

text \<open>
  Recovery after a restart finds nothing: an agent that starts has an empty container
  table, whatever routes the loaded container-route map holds; it keeps those routes. It
  runs the IPsec task exactly when IPsec is enabled.
\<close>

lemma restart_forgets_containers:
  assumes "run_agent env path mode = Inr s" and "object_file env ''bin/mesh.bpf.o'' = Inr obj"
  shows "containers (sys_api s) = Map.empty \<and>
    container_route (maps (guarded (bpf (sys_api s)))) = obj_container_route obj \<and>
    (IpsecLoop \<in> set (sys_tasks s) \<longleftrightarrow> sys_ipsec s \<noteq> None) \<and> ApiServer 9091 \<in> set (sys_tasks s)"
proof -
  from run_agent_Inr [OF assms(1)] obtain c b where
    boot: "setup_bpf env c = Inr (b, sys_attached s)" "bpf (sys_api s) = \<lparr>guarded = b, poisoned = False\<rparr>"
      "containers (sys_api s) = Map.empty" "sys_tasks s = spawn_all c (sys_ipsec s \<noteq> None)" by blast
  with setup_bpf_maps [OF boot(1) assms(2)] show ?thesis by (auto simp: spawn_all_def)
qed

text \<open>No query of the discovery task reaches the Kademlia channel: its content stays empty.\<close>

lemma kad_channel_empty: "sys_reachable j env path mode s \<Longrightarrow> sys_kad s = []"
proof (induction rule: sys_reachable.induct)
  case (boot s)
  then show ?case by (auto simp: run_agent_def and_then_Inr_iff Let_def case_prod_beta)
next
  case (step s s')
  have "sys_kad t = []" if "task_step j s t" for t
    using that step.IH
    by (cases rule: task_step.cases)
      (auto simp: discover_one_def kad_send_def Let_def split: option.splits sum.splits)
  moreover have "sys_kad t = []" if "stop_step s t \<or> egress_step s t" for t
    using that step.IH by (auto elim!: stop_step.cases egress_step.cases)
  ultimately show ?case using step.hyps(2) by (auto simp: sys_step_def agent_step_def)
qed

section \<open>An agent that boots\<close>

definition boot_config :: agent_config where
  "boot_config = default_config\<lparr>node_overlay_ip := show_ipv4 (Ipv4 10 244 0 1), stun_servers := [], ipsec_enabled := True\<rparr>"

definition boot_object :: bpf_object where
  "boot_object = \<lparr>obj_container_route = Some [7 \<mapsto> 1], obj_node_dynamic = Some Map.empty,
     obj_geneve_ifindex = Some [0 \<mapsto> 5], obj_tunnel_cfg = Some Map.empty, obj_ringbuf = Some [],
     obj_programs = [''xdp_pass'', ''egress_p2p_mesh'']\<rparr>"

definition boot_env :: agent_env where
  "boot_env = \<lparr>read_to_string = (\<lambda>_. Inr ''{}''), parse_config = (\<lambda>_. Inr boot_config),
     object_file = (\<lambda>_. Inr boot_object), tunnel_insert = put, ip_output = (\<lambda>_. Inl (Error ''no ip'')),
     attach_call = (\<lambda>_ _ _. Inr ()), stun_sockets = symmetric_net, bind_socket = (\<lambda>_. Inr ()),
     network = sample_net, boot_envs = sample_env, hex_crate = sample_hex, first_key = replicate 32 7, boot_time = 0\<rparr>"

lemma boot_object_file [simp]: "object_file boot_env ''bin/mesh.bpf.o'' = Inr boot_object"
  by (simp add: boot_env_def)

lemma boots: "\<exists>s. run_agent boot_env ''config.json'' False = Inr s \<and> manager s = \<lparr>mesh = boot_object,
    fw = Some boot_object, vip_obj = Some boot_object,
    maps = \<lparr>container_route = Some [7 \<mapsto> 1], node_dynamic = Some Map.empty, geneve_ifindex = Some [0 \<mapsto> 5],
      tunnel_cfg_map = Some [0 \<mapsto> \<lparr>tunnel_id = 100\<rparr>], vip_map = None, acl_map = None, default_policy_map = None\<rparr>,
    pinned = False, ringbuf = Some []\<rparr>"
  by (simp add: run_agent_def with_context_def boot_env_def setup_bpf_def load_def set_tunnel_cfg_def put_def
      boot_object_def attach_all_def attach_one_def discover_def use_overlay_ip_def new_agent_state_def boot_config_def
      default_config_def bind_udp_def recover_from_bpf_def list_container_ips_def Let_def)

lemma agent_keeps_static_maps_witness:
  "\<exists>s. run_agent boot_env ''config.json'' False = Inr s \<and>
     node_dynamic (maps (guarded (bpf (sys_api s)))) = Some Map.empty"
proof -
  obtain s where s: "run_agent boot_env ''config.json'' False = Inr s" using boots by blast
  then have "sys_reachable sample_json boot_env ''config.json'' False s" by (rule sys_reachable.boot)
  from agent_keeps_static_maps [OF this boot_object_file] s show ?thesis by (simp add: boot_object_def)
qed

lemma mesh_never_redirects_witness:
  "\<exists>s ring'. run_agent boot_env ''config.json'' False = Inr s \<and>
     egress_p2p_mesh sample_api \<lparr>NODE_DYNAMIC_MAP = Map.empty, GENEVE_IFINDEX_MAP = [0 \<mapsto> 5], VIP_MAP = Map.empty,
       ACL_MAP = Map.empty, DEFAULT_POLICY = Map.empty\<rparr> [] (sample_ctx 0x00 0x08) =
       (TC_ACT_PIPE, skb (sample_ctx 0x00 0x08), ring')"
proof -
  obtain s where s: "run_agent boot_env ''config.json'' False = Inr s" and m: "node_dynamic (maps (manager s)) = Some Map.empty"
      "geneve_ifindex (maps (manager s)) = Some [0 \<mapsto> 5]"
    using boots by fastforce
  from s have "sys_reachable sample_json boot_env ''config.json'' False s" by (rule sys_reachable.boot)
  from mesh_never_redirects [OF this boot_object_file] s m show ?thesis
    by (simp add: boot_object_def maps_agree_def)
qed

section \<open>A STUN server that stops the agent\<close>

text \<open>
  C23. A STUN server can stop the agent: if the first server is a literal address and its answer
  is a bare header that announces attributes, the parser reads past the datagram and panics; no
  error handling catches that. An agent that is starting does not come up, and of a running one
  the task that refreshes the public endpoint dies.
\<close>

theorem truncated_stun_answer_panics:
  assumes "stun_servers c = server # rest" and "parse_socket_addr server = Some remote"
    and "udp_bind (stun_sockets env) = Inr ()"
    and "exchange (stun_sockets env) remote (binding_request 1) = Inr d" and "header_only d"
    and "read_to_string env path = Inr data" and "parse_config env data = Inr c" and "setup_bpf env c = Inr up"
  shows "run_agent env path mode = Inl (Panic ''index out of bounds'') \<and>
    (cfg st = c \<longrightarrow> refresh_step False (stun_sockets env) st = (RefreshPanicked, st))"
proof -
  have found: "discover (stun_sockets env) st = (st, Inl (Panic ''index out of bounds''))" if "cfg st = c" for st
    using discover_header_only [OF _ assms(2-5)] assms(1) that by simp
  have "cfg (new_agent_state t c) = c" for t by (simp add: new_agent_state_def)
  then have "run_agent env path mode = Inl (Panic ''index out of bounds'')"
    using assms(6-8) by (simp add: run_agent_def with_context_def found case_prod_beta)
  then show ?thesis by (simp add: refresh_step_def found)
qed

text \<open>The agent of the previous section, with one server that answers so.\<close>

definition stun_env :: agent_env where
  "stun_env = boot_env\<lparr>
     parse_config := (\<lambda>_. Inr (boot_config\<lparr>stun_servers := [show_socket_addr (SocketV4 (Ipv4 192 0 2 1) 3478)]\<rparr>)),
     stun_sockets := \<lparr>udp_bind = Inr (), exchange = (\<lambda>_ _. Inr ([1, 1, 0, 8] @ replicate 16 0))\<rparr>\<rparr>"

lemma truncated_stun_answer_panics_witness:
  "run_agent stun_env ''config.json'' False = Inl (Panic ''index out of bounds'')"
proof -
  let ?c = "boot_config\<lparr>stun_servers := [show_socket_addr (SocketV4 (Ipv4 192 0 2 1) 3478)]\<rparr>"
  obtain up where up: "setup_bpf stun_env ?c = Inr up"
    by (simp add: setup_bpf_def stun_env_def boot_env_def load_def set_tunnel_cfg_def put_def with_context_def
        boot_object_def attach_all_def attach_one_def Let_def)
  have "parse_socket_addr (show_socket_addr (SocketV4 (Ipv4 192 0 2 1) 3478)) = Some (SocketV4 (Ipv4 192 0 2 1) 3478)"
    using parse_show_socket_addr [of "Ipv4 192 0 2 1" 3478] by simp
  moreover have "header_only ([1, 1, 0, 8] @ replicate 16 0)" by (simp add: header_only_def)
  ultimately show ?thesis
    using truncated_stun_answer_panics [of ?c _ "[]" _ stun_env "[1, 1, 0, 8] @ replicate 16 0" "''config.json''" "''{}''" up False]
      up by (simp add: stun_env_def boot_env_def)
qed

end
