(* ===== verification/Shutdown.thy ===== *)
theory Shutdown
  imports Agent
begin







definition untouched :: "task set \<Rightarrow> system \<Rightarrow> system \<Rightarrow> bool" where
  "untouched T s s' \<longleftrightarrow>
     (RecvLoop \<notin> T \<longrightarrow> sys_proto s' = sys_proto s) \<and>
     (HealthLoop \<notin> T \<longrightarrow> sys_seed s' = sys_seed s) \<and>
     ((\<forall>i. StunRefresh i \<notin> T) \<longrightarrow> sys_state s' = sys_state s) \<and>
     (RingbufConsumer \<notin> T \<and> DiscoveryLoop \<notin> T \<longrightarrow> sys_routes s' = sys_routes s) \<and>
     (IpsecLoop \<notin> T \<longrightarrow> sys_ipsec s' = sys_ipsec s) \<and>
     (VipProbeLoop \<notin> T \<longrightarrow> sys_monitor s' = sys_monitor s)"

lemma untouched_refl [simp]: "untouched T s s"
  by (simp add: untouched_def)



















end
