(* ===== verification/Vip_Race.thy ===== *)
theory Vip_Race
  imports Vip
begin

text \<open>
  The VIP table with its writers at the same time: \<open>try_vip\<close> of \<open>ebpf/src/main.rs\<close> runs on every
  processor while other processors, and the agent (\<open>vip.rs\<close>), replace entries. The program does not
  copy the entry it looks up: it reads field after field through a reference into the map, and an
  element of the map is reused as soon as its entry is replaced. So every read may see the field of
  another entry that was written, to this key or another, and the copy of line 164 may be torn. The
  source names a race on the next position in a comment; this theory says what all of it can and
  cannot do to the table.
\<close>

section \<open>The computations between the reads\<close>

text \<open>Line 152: the two fields are read one after the other; a remainder by zero is a panic.\<close>

definition vip_index :: "u8 \<Rightarrow> u8 \<Rightarrow> nat res" where
  "vip_index next_idx count =
     (if count = 0 then Inl (Panic ''remainder with a divisor of zero'')
      else Inr (unat next_idx mod unat count))"

text \<open>Lines 153 to 156: the address and the port of a slot.\<close>

definition vip_direct :: "nat \<Rightarrow> vip_backend list \<Rightarrow> vip_backend list \<Rightarrow> sock_ctx res" where
  "vip_direct idx for_ip for_port =
     (if length for_ip \<le> idx \<or> length for_port \<le> idx then Inl (Panic ''index out of bounds'')
      else Inr \<lparr>user_ip = vb_ip (for_ip ! idx), user_port = u16_swap_bytes (vb_port (for_port ! idx))\<rparr>)"

text \<open>Line 162.\<close>

definition vip_next :: "nat \<Rightarrow> u8 \<Rightarrow> u8 res" where
  "vip_next idx count =
     (if count = 0 then Inl (Panic ''remainder with a divisor of zero'')
      else Inr (word_of_nat ((idx + 1) mod unat count)))"

text \<open>When nothing is written in between, every read sees the entry that was found, and the reads
  and computations make up the program.\<close>

lemma try_vip_reads:
  "try_vip ins vips ctx =
     (case vips (user_ip ctx) of
        None \<Rightarrow> Inr (0, ctx, vips)
      | Some e \<Rightarrow>
          if \<not> vi_count e > 0 then Inr (0, ctx, vips)
          else and_then (vip_index (vi_next_idx e) (vi_count e)) (\<lambda>idx.
            and_then (vip_direct idx (vi_backends e) (vi_backends e)) (\<lambda>ctx'.
              and_then (vip_next idx (vi_count e)) (\<lambda>next.
                if next = vi_next_idx e then Inr (0, ctx', vips)
                else case ins vips (user_ip ctx) (e\<lparr>vi_next_idx := next\<rparr>) of
                       Inl _ \<Rightarrow> Inr (0, ctx', vips)
                     | Inr vips' \<Rightarrow> Inr (0, ctx', vips')))))"
  by (auto simp: try_vip_def vip_index_def vip_direct_def vip_next_def Let_def split: option.split sum.split)

section \<open>Connections and the agent as interleaved steps\<close>

text \<open>Where a connection to the key \<open>k\<close> is: the reference was obtained (line 150), the count was
  found positive (151), the index is known (152), the destination is set (156), the next position
  is known (162), it differs from the stored one (163), the changed copy is ready (165).\<close>

datatype vip_conn =
  Found u32 | Counted u32 | Indexed u32 nat | Directed u32 nat | Next u32 u8 | Differs u32 u8
  | Storing u32 vip_info

text \<open>The table, every entry an element of it has held, the connections under way, and what became of
  each: the destination it was given, or a panic.\<close>

record vip_shared =
  vip_table :: "vip_info bpf_map"
  written :: "vip_info list"
  conns :: "vip_conn list"
  outcomes :: "sock_ctx res list"

text \<open>A copy of an entry whose fields may come from different entries.\<close>

definition torn :: "vip_info list \<Rightarrow> vip_info \<Rightarrow> bool" where
  "torn es e \<longleftrightarrow> vi_count e \<in> vi_count ` set es \<and> length (vi_backends e) = 16 \<and>
     (\<forall>i < 16. \<exists>f \<in> set es. vb_ip (vi_backends e ! i) = vb_ip (vi_backends f ! i)) \<and>
     (\<forall>i < 16. \<exists>f \<in> set es. vb_port (vi_backends e ! i) = vb_port (vi_backends f ! i))"

abbreviation goes :: "vip_conn \<Rightarrow> vip_conn list \<Rightarrow> vip_shared \<Rightarrow> vip_shared" where
  "goes a a' s \<equiv> s\<lparr>conns := a' @ remove1 a (conns s)\<rparr>"

abbreviation panics :: "vip_conn \<Rightarrow> err \<Rightarrow> vip_shared \<Rightarrow> vip_shared" where
  "panics a p s \<equiv> (goes a [] s)\<lparr>outcomes := outcomes s @ [Inl p]\<rparr>"

text \<open>
  One step. The agent writes the entry of a VIP with the list its configuration gives (which the
  probes do not change) when that is not empty; \<open>e\<close> and \<open>f\<close> are the entries whose fields a read
  of a connection happens to see.
\<close>

inductive vip_race :: "agent_config \<Rightarrow> vip_info insert_fn \<Rightarrow> vip_shared \<Rightarrow> vip_shared \<Rightarrow> bool" for c ins where
  agent: "parse_ipv4 vip = Some vip_ip \<Longrightarrow> configured c vip \<noteq> [] \<Longrightarrow>
    ins (vip_table s) (u32_of_ipv4 vip_ip) (vip_entry (configured c vip)) = Inr m \<Longrightarrow>
    vip_race c ins s (s\<lparr>vip_table := m, written := vip_entry (configured c vip) # written s\<rparr>)"
| found: "vip_table s k \<noteq> None \<Longrightarrow> vip_race c ins s (s\<lparr>conns := Found k # conns s\<rparr>)"
| counted: "Found k \<in> set (conns s) \<Longrightarrow> e \<in> set (written s) \<Longrightarrow>
    vip_race c ins s (goes (Found k) (if vi_count e > 0 then [Counted k] else []) s)"
| indexed: "Counted k \<in> set (conns s) \<Longrightarrow> e \<in> set (written s) \<Longrightarrow> f \<in> set (written s) \<Longrightarrow>
    vip_index (vi_next_idx e) (vi_count f) = Inr idx \<Longrightarrow> vip_race c ins s (goes (Counted k) [Indexed k idx] s)"
| index_panic: "Counted k \<in> set (conns s) \<Longrightarrow> e \<in> set (written s) \<Longrightarrow> f \<in> set (written s) \<Longrightarrow>
    vip_index (vi_next_idx e) (vi_count f) = Inl p \<Longrightarrow> vip_race c ins s (panics (Counted k) p s)"
| directed: "Indexed k idx \<in> set (conns s) \<Longrightarrow> e \<in> set (written s) \<Longrightarrow> f \<in> set (written s) \<Longrightarrow>
    vip_direct idx (vi_backends e) (vi_backends f) = Inr ctx \<Longrightarrow>
    vip_race c ins s ((goes (Indexed k idx) [Directed k idx] s)\<lparr>outcomes := outcomes s @ [Inr ctx]\<rparr>)"
| direct_panic: "Indexed k idx \<in> set (conns s) \<Longrightarrow> e \<in> set (written s) \<Longrightarrow> f \<in> set (written s) \<Longrightarrow>
    vip_direct idx (vi_backends e) (vi_backends f) = Inl p \<Longrightarrow> vip_race c ins s (panics (Indexed k idx) p s)"
| advanced: "Directed k idx \<in> set (conns s) \<Longrightarrow> e \<in> set (written s) \<Longrightarrow>
    vip_next idx (vi_count e) = Inr next \<Longrightarrow> vip_race c ins s (goes (Directed k idx) [Next k next] s)"
| advance_panic: "Directed k idx \<in> set (conns s) \<Longrightarrow> e \<in> set (written s) \<Longrightarrow>
    vip_next idx (vi_count e) = Inl p \<Longrightarrow> vip_race c ins s (panics (Directed k idx) p s)"
| compared: "Next k next \<in> set (conns s) \<Longrightarrow> e \<in> set (written s) \<Longrightarrow>
    vip_race c ins s (goes (Next k next) (if next \<noteq> vi_next_idx e then [Differs k next] else []) s)"
| copied: "Differs k next \<in> set (conns s) \<Longrightarrow> torn (written s) e \<Longrightarrow>
    vip_race c ins s (goes (Differs k next) [Storing k (e\<lparr>vi_next_idx := next\<rparr>)] s)"
| stored: "Storing k info \<in> set (conns s) \<Longrightarrow> ins (vip_table s) k info = Inr m \<Longrightarrow>
    vip_race c ins s ((goes (Storing k info) [] s)\<lparr>vip_table := m, written := info # written s\<rparr>)"
| refused: "Storing k info \<in> set (conns s) \<Longrightarrow> ins (vip_table s) k info = Inl e \<Longrightarrow>
    vip_race c ins s (goes (Storing k info) [] s)"

text \<open>The step of the agent is what a probe of the VIP does, with the monitor as the configuration
  set it up: the table is left alone or gets the configured entry.\<close>

lemma probe_vip_writes:
  assumes "vip_map (maps b) = Some m"
  shows "vip_map (maps (snd (probe_vip ins connect vip (init_backends c new_monitor, b)))) \<in>
    insert (Some m) {Some m' | m' vip_ip. parse_ipv4 vip = Some vip_ip \<and> configured c vip \<noteq> [] \<and>
      ins m (u32_of_ipv4 vip_ip) (vip_entry (configured c vip)) = Inr m'}"
  using assms get_alive_init [of vip c]
  by (auto simp: probe_vip_def update_bpf_vip_def and_then_def split: option.splits sum.splits)

section \<open>What the race cannot do\<close>

text \<open>The part of well-formedness that survives: sixteen slots and a count between 1 and 16. A torn
  copy may have a next position beyond its count.\<close>

definition usable :: "vip_info \<Rightarrow> bool" where
  "usable e \<longleftrightarrow> length (vi_backends e) = 16 \<and> 0 < unat (vi_count e) \<and> unat (vi_count e) \<le> 16"

definition slot_ips :: "vip_info \<Rightarrow> u32 set" where
  "slot_ips e = vb_ip ` set (vi_backends e)"

text \<open>The addresses in the entries of a table and in the entries the agent may write.\<close>

definition known_ips :: "agent_config \<Rightarrow> vip_info bpf_map \<Rightarrow> u32 set" where
  "known_ips c vips = \<Union> (slot_ips ` ran vips) \<union> (\<Union>vip. slot_ips (vip_entry (configured c vip)))"

definition sound :: "u32 set \<Rightarrow> vip_info \<Rightarrow> bool" where
  "sound A e \<longleftrightarrow> usable e \<and> slot_ips e \<subseteq> A"

fun sound_conn :: "u32 set \<Rightarrow> vip_conn \<Rightarrow> bool" where
  "sound_conn A (Indexed k idx) \<longleftrightarrow> idx < 16"
| "sound_conn A (Storing k info) \<longleftrightarrow> sound A info"
| "sound_conn A _ \<longleftrightarrow> True"

definition sound_shared :: "u32 set \<Rightarrow> vip_shared \<Rightarrow> bool" where
  "sound_shared A s \<longleftrightarrow> (\<forall>k e. vip_table s k = Some e \<longrightarrow> sound A e) \<and> (\<forall>e \<in> set (written s). sound A e) \<and>
     list_all (sound_conn A) (conns s) \<and> (\<forall>r \<in> set (outcomes s). \<exists>ctx. r = Inr ctx \<and> user_ip ctx \<in> A)"

lemma usable_entry: "ips \<noteq> [] \<Longrightarrow> usable (vip_entry ips)"
  by (simp add: usable_def)

lemma usable_index:
  assumes "usable f"
  shows "\<exists>idx. vip_index n (vi_count f) = Inr idx \<and> idx < 16"
proof -
  have "unat n mod unat (vi_count f) < unat (vi_count f)" "unat (vi_count f) \<le> 16"
    using assms by (simp_all add: usable_def)
  then have "unat n mod unat (vi_count f) < 16" by linarith
  then show ?thesis using assms by (auto simp: vip_index_def usable_def)
qed

lemma sound_slot: "sound A f \<Longrightarrow> i < 16 \<Longrightarrow> vb_ip (vi_backends f ! i) \<in> A"
  by (metis sound_def usable_def slot_ips_def imageI nth_mem subsetD)

lemma sound_direct:
  assumes "sound A e" and "sound A f" and "idx < 16"
  shows "\<exists>ctx. vip_direct idx (vi_backends e) (vi_backends f) = Inr ctx \<and> user_ip ctx \<in> A"
  using assms sound_slot [OF assms(1,3)] by (auto simp: sound_def usable_def vip_direct_def)

lemma usable_next: "usable e \<Longrightarrow> \<exists>next. vip_next idx (vi_count e) = Inr next"
  by (auto simp: vip_next_def usable_def)

lemma sound_torn:
  assumes "torn es e" and "\<forall>f \<in> set es. sound A f"
  shows "sound A (e\<lparr>vi_next_idx := n\<rparr>)"
proof -
  have "vb_ip (vi_backends e ! i) \<in> A" if i: "i < 16" for i
  proof -
    obtain f where "f \<in> set es" "vb_ip (vi_backends e ! i) = vb_ip (vi_backends f ! i)"
      using assms(1) i by (auto simp: torn_def)
    with assms(2) i show ?thesis by (simp add: sound_slot)
  qed
  then have "slot_ips e \<subseteq> A" using assms(1) by (auto simp: slot_ips_def torn_def in_set_conv_nth)
  moreover have "usable e" using assms by (auto simp: torn_def sound_def usable_def)
  ultimately show ?thesis by (simp add: sound_def usable_def slot_ips_def)
qed

lemma sound_insert:
  assumes "\<forall>k e. m k = Some e \<longrightarrow> sound A e" and "sound A e" and "insert_ok ins" and "ins m k e = Inr m'"
  shows "\<forall>k e. m' k = Some e \<longrightarrow> sound A e"
  using assms by (metis insert_ok_def fun_upd_apply option.inject)

lemma list_all_remove1 [simp]: "list_all P xs \<Longrightarrow> list_all P (remove1 x xs)"
  by (induction xs) simp_all

lemma sound_conns: "list_all (sound_conn A) cs \<Longrightarrow> a \<in> set cs \<Longrightarrow> sound_conn A a"
  by (simp add: list_all_iff)

lemma vip_race_keeps_sound:
  assumes "vip_race c ins s s'" and "insert_ok ins" and "sound_shared A s"
    and "\<And>vip. slot_ips (vip_entry (configured c vip)) \<subseteq> A"
  shows "sound_shared A s'"
  using assms(1-3)
proof (induction rule: vip_race.induct)
  case (agent vip vip_ip s m)
  have "sound A (vip_entry (configured c vip))"
    using agent(2) assms(4) usable_entry by (simp add: sound_def)
  then show ?case
    using agent sound_insert [of "vip_table s" A "vip_entry (configured c vip)" ins _ m] by (simp add: sound_shared_def)
next
  case (stored k info s m)
  then have "sound A info" using sound_conns by (fastforce simp: sound_shared_def)
  then show ?case
    using stored sound_insert [of "vip_table s" A info ins k m]
    by (simp add: sound_shared_def)
next
  case (indexed k s e f idx)
  then have "usable f" by (auto simp: sound_shared_def sound_def)
  from usable_index [OF this, of "vi_next_idx e"] indexed show ?case
    by (simp add: sound_shared_def)
next
  case (index_panic k s e f p)
  then have "usable f" by (auto simp: sound_shared_def sound_def)
  from usable_index [OF this, of "vi_next_idx e"] index_panic show ?case by simp
next
  case (directed k idx s e f ctx)
  then have "sound A e" "sound A f" "idx < 16" using sound_conns by (fastforce simp: sound_shared_def)+
  from sound_direct [OF this] directed show ?case by (simp add: sound_shared_def)
next
  case (direct_panic k idx s e f p)
  then have "sound A e" "sound A f" "idx < 16" using sound_conns by (fastforce simp: sound_shared_def)+
  from sound_direct [OF this] direct_panic show ?case by simp
next
  case (advance_panic k idx s e p)
  then have "usable e" by (auto simp: sound_shared_def sound_def)
  from usable_next [OF this, of idx] advance_panic show ?case by simp
next
  case (copied k "next" s e)
  then show ?case using sound_torn by (simp add: sound_shared_def)
qed (simp_all add: sound_shared_def)

text \<open>
  C13. What the race cannot break: with the agent writing the configured entries and any number of
  connections under way, each of their reads through the map reference seeing the fields of any
  entry written so far, every entry of the table keeps its sixteen slots and a count from 1 to 16;
  no connection panics, neither on the index nor on a division by zero; and every destination
  address comes from an entry of the initial table or of the configuration. The initial entries
  must have a positive count, as those the agent writes have.
\<close>

theorem vip_table_stays_usable:
  assumes "insert_ok ins" and "\<forall>e \<in> ran vips. usable e"
    and "(vip_race c ins)\<^sup>*\<^sup>* \<lparr>vip_table = vips, written = es, conns = [], outcomes = []\<rparr> s" and "set es = ran vips"
  shows "(\<forall>e \<in> ran (vip_table s). usable e) \<and>
    (\<forall>r \<in> set (outcomes s). \<exists>ctx. r = Inr ctx \<and> user_ip ctx \<in> known_ips c vips)"
proof -
  let ?A = "known_ips c vips"
  from assms(3) have "sound_shared ?A s"
  proof (induction rule: rtranclp_induct)
    case base
    have "sound ?A e" if "e \<in> ran vips" for e
      using that assms(2) by (auto simp: sound_def known_ips_def)
    then show ?case by (auto simp: sound_shared_def assms(4) intro: ranI)
  next
    case (step s s')
    moreover have "slot_ips (vip_entry (configured c vip)) \<subseteq> ?A" for vip by (auto simp: known_ips_def)
    ultimately show ?case using vip_race_keeps_sound [OF _ assms(1)] by blast
  qed
  then show ?thesis by (auto simp: sound_shared_def sound_def ran_def)
qed

text \<open>One connection to a VIP with two backends, up to the point where its destination is set.\<close>

definition race_entry :: vip_info where
  "race_entry = vip_entry [Ipv4 10 244 0 10, Ipv4 10 244 1 10]"

definition race_at :: "vip_conn list \<Rightarrow> sock_ctx res list \<Rightarrow> vip_shared" where
  "race_at as rs = \<lparr>vip_table = [u32_of_ipv4 (Ipv4 10 100 0 50) \<mapsto> race_entry], written = [race_entry],
     conns = as, outcomes = rs\<rparr>"

lemma race_run:
  "(vip_race default_config put)\<^sup>*\<^sup>* (race_at [] [])
     (race_at [Directed (u32_of_ipv4 (Ipv4 10 100 0 50)) 0] [Inr \<lparr>user_ip = u32_of_ipv4 (Ipv4 10 244 0 10), user_port = 0\<rparr>])"
proof -
  let ?k = "u32_of_ipv4 (Ipv4 10 100 0 50)" and ?r = "vip_race default_config put"
  let ?ctx = "\<lparr>user_ip = u32_of_ipv4 (Ipv4 10 244 0 10), user_port = 0\<rparr>"
  have count: "0 < vi_count race_entry" "vip_index (vi_next_idx race_entry) (vi_count race_entry) = Inr 0"
    "vip_direct 0 (vi_backends race_entry) (vi_backends race_entry) = Inr ?ctx"
    by (simp_all add: race_entry_def vip_index_def vip_direct_def vip_entry_def Let_def)
  have "?r (race_at [] []) (race_at [Found ?k] [])"
    using vip_race.found [of "race_at [] []" ?k default_config put] by (simp add: race_at_def)
  moreover have "?r (race_at [Found ?k] []) (race_at [Counted ?k] [])"
    using vip_race.counted [of ?k "race_at [Found ?k] []" race_entry default_config put] count(1) by (simp add: race_at_def)
  moreover have "?r (race_at [Counted ?k] []) (race_at [Indexed ?k 0] [])"
    using vip_race.indexed [of ?k "race_at [Counted ?k] []" race_entry race_entry 0 default_config put] count(2)
    by (simp add: race_at_def)
  moreover have "?r (race_at [Indexed ?k 0] []) (race_at [Directed ?k 0] [Inr ?ctx])"
    using vip_race.directed [of ?k 0 "race_at [Indexed ?k 0] []" race_entry race_entry ?ctx default_config put] count(3)
    by (simp add: race_at_def)
  ultimately show ?thesis by (meson rtranclp.rtrancl_into_rtrancl rtranclp.rtrancl_refl)
qed

lemma vip_table_stays_usable_witness:
  "(vip_race default_config put)\<^sup>*\<^sup>* (race_at [] [])
     (race_at [Directed (u32_of_ipv4 (Ipv4 10 100 0 50)) 0] [Inr \<lparr>user_ip = u32_of_ipv4 (Ipv4 10 244 0 10), user_port = 0\<rparr>]) \<and>
   u32_of_ipv4 (Ipv4 10 244 0 10) \<in> known_ips default_config [u32_of_ipv4 (Ipv4 10 100 0 50) \<mapsto> race_entry]"
proof -
  have "\<forall>e \<in> ran [u32_of_ipv4 (Ipv4 10 100 0 50) \<mapsto> race_entry]. usable e"
    by (simp add: race_entry_def usable_entry)
  from vip_table_stays_usable [OF put_ok(1) this race_run [unfolded race_at_def]] race_run show ?thesis by simp
qed

end
