(* ===== verification/Kademlia.thy ===== *)
theory Kademlia
  imports Config
begin

text \<open>
  \<open>agent/src/kademlia.rs\<close>: the peer-to-peer network. The module is commented out of
  \<open>agent/src/lib.rs\<close>; the discovery task of \<open>Route\<close> still sends the addresses it cannot route to
  the channel this task would read. \<open>libp2p\<close> is a parameter: what its constructors, the address
  parser and \<open>listen_on\<close> return. The swarm itself is seen through the calls the code makes on it,
  in order, and the events it delivers; \<open>serde_json\<close>'s \<open>to_string\<close> is a parameter.
\<close>

section \<open>The network\<close>

definition GOSSIP_TOPIC :: string where
  "GOSSIP_TOPIC = ''nomad-p2p/config''"

text \<open>The settings \<open>build_p2p\<close> chooses, durations in seconds.\<close>

record p2p_behaviour =
  kad_query_timeout :: nat
  gossip_mesh :: "nat \<times> nat \<times> nat"
  gossip_history :: "nat \<times> nat"
  gossip_topics :: "string list"
  identify_protocol :: string
  identify_push :: bool
  identify_interval :: nat
  ping_interval :: nat

datatype json_val = JStr string | JNum nat

record kad_record =
  rec_key :: bytes
  rec_value :: bytes
  rec_publisher :: "bytes option"
  rec_expires :: "nat option"

datatype 'a swarm_call = ListenOn 'a | Dial 'a | Bootstrap | PutRecord kad_record | GetRecord bytes

record 'a p2p_network =
  tcp_nodelay :: bool
  transport_timeout :: nat
  behaviour :: p2p_behaviour
  swarm_calls :: "'a swarm_call list"

record 'a libp2p_api =
  noise_new :: "unit res"
  gossip_build :: "nat \<times> nat \<times> nat \<Rightarrow> nat \<times> nat \<Rightarrow> unit res"
  gossip_new :: "unit res"
  gossip_subscribe :: "string \<Rightarrow> unit res"
  parse_multiaddr :: "string \<Rightarrow> 'a res"
  listen_on :: "'a \<Rightarrow> unit res"

text \<open>\<open>map_err(|e| anyhow!("p: {}", e))\<close>.\<close>

definition map_err :: "string \<Rightarrow> 'a res \<Rightarrow> 'a res" where
  "map_err p r =
     (case r of Inl (Error m) \<Rightarrow> Inl (Error (p @ '': '' @ m)) | Inl (Panic m) \<Rightarrow> Inl (Panic m) | Inr x \<Rightarrow> Inr x)"

definition listen :: "'a libp2p_api \<Rightarrow> u16 \<Rightarrow> 'a swarm_call list res" where
  "listen api port =
     (if port > 0
      then and_then (parse_multiaddr api (''/ip4/0.0.0.0/tcp/'' @ dec (unat port))) (\<lambda>addr.
           and_then (listen_on api addr) (\<lambda>_. Inr [ListenOn addr]))
      else Inr [])"

definition dial_seeds :: "'a libp2p_api \<Rightarrow> string list \<Rightarrow> 'a swarm_call list" where
  "dial_seeds api seed_addrs =
     concat (map (\<lambda>seed. case parse_multiaddr api seed of Inr addr \<Rightarrow> [Dial addr] | Inl _ \<Rightarrow> []) seed_addrs)"

definition build_p2p :: "'a libp2p_api \<Rightarrow> agent_state \<Rightarrow> string list \<Rightarrow> 'a p2p_network res" where
  "build_p2p api st seed_addrs =
     and_then (map_err ''noise'' (noise_new api)) (\<lambda>_.
     and_then (map_err ''gossipsub'' (gossip_build api (6, 4, 12) (5, 3))) (\<lambda>_.
     and_then (map_err ''gossipsub'' (gossip_new api)) (\<lambda>_.
     and_then (map_err ''subscribe'' (gossip_subscribe api GOSSIP_TOPIC)) (\<lambda>_.
     and_then (listen api (p2p_port (cfg st))) (\<lambda>listening.
     Inr \<lparr>tcp_nodelay = True, transport_timeout = 20,
          behaviour = \<lparr>kad_query_timeout = 10, gossip_mesh = (6, 4, 12), gossip_history = (5, 3),
                       gossip_topics = [GOSSIP_TOPIC], identify_protocol = ''/nomad-p2p/identify/1.0.0'',
                       identify_push = True, identify_interval = 60, ping_interval = 30\<rparr>,
          swarm_calls = listening @ dial_seeds api seed_addrs\<rparr>)))))"

section \<open>The loop\<close>

datatype swarm_event =
  KadGetOk "bytes list" | KadPutOk | KadOther
  | IdentifyReceived string | GossipMessage bytes
  | NewListenAddr string | ConnectionEstablished string | ConnectionClosed string
  | OtherEvent | SwarmEnded

text \<open>What the round was woken by: the interval (with the stop flag as it is read then), the
  channel, or the swarm.\<close>

datatype kad_event = Tick bool | Channel "u32 option" | Swarm swarm_event

text \<open>The record of a node; the reads of the shared state are taken at one instant.\<close>

definition node_record :: "((string \<times> json_val) list \<Rightarrow> string) \<Rightarrow> agent_state \<Rightarrow> kad_record" where
  "node_record to_string st =
     \<lparr>rec_key = as_bytes (node_overlay_ip (cfg st)),
      rec_value = as_bytes (to_string
        [(''public_ip'', JStr (show_ipv4 (st_public_ip st))), (''public_port'', JNum (unat (st_public_port st))),
         (''overlay_ip'', JStr (node_overlay_ip (cfg st))), (''subnet'', JStr (node_subnet (cfg st)))]),
      rec_publisher = None, rec_expires = None\<rparr>"

text \<open>The log lines of a swarm event; nothing else is done with it.\<close>

definition bytes_text :: "bytes \<Rightarrow> string" where
  "bytes_text bs = map (\<lambda>b. char_of (unat b)) bs"

definition swarm_log :: "swarm_event \<Rightarrow> string list" where
  "swarm_log ev =
     (case ev of
        KadGetOk values \<Rightarrow> map (\<lambda>v. ''Kad GET: '' @ bytes_text v) (filter (\<lambda>v. valid_utf8 (map unat v)) values)
      | KadPutOk \<Rightarrow> [''Kad PUT succeeded'']
      | KadOther \<Rightarrow> []
      | IdentifyReceived public_key \<Rightarrow> [''identified peer: '' @ public_key]
      | GossipMessage data \<Rightarrow> (if valid_utf8 (map unat data) then [''gossip: '' @ bytes_text data] else [])
      | NewListenAddr address \<Rightarrow> [''listening on '' @ address]
      | ConnectionEstablished peer_id \<Rightarrow> [''connected to '' @ peer_id]
      | ConnectionClosed peer_id \<Rightarrow> [''disconnected from '' @ peer_id]
      | OtherEvent \<Rightarrow> []
      | SwarmEnded \<Rightarrow> [])"

record 'a kad_out =
  kad_calls :: "'a swarm_call list"
  kad_log :: "string list"

text \<open>One round of \<open>kademlia_loop\<close>: whether it goes on, the calls and the log lines. \<open>stop\<close> is the
  flag as it is read at the end of the round.\<close>

definition kad_step ::
    "((string \<times> json_val) list \<Rightarrow> string) \<Rightarrow> agent_state \<Rightarrow> kad_event \<Rightarrow> bool \<Rightarrow> bool \<times> 'a kad_out" where
  "kad_step to_string st ev stop =
     (case ev of
        Tick stop_now \<Rightarrow>
          if stop_now then (False, \<lparr>kad_calls = [], kad_log = []\<rparr>)
          else (\<not> stop, \<lparr>kad_calls = [Bootstrap, PutRecord (node_record to_string st)], kad_log = []\<rparr>)
      | Channel overlay_ip \<Rightarrow>
          (\<not> stop, \<lparr>kad_calls = (case overlay_ip of Some ip \<Rightarrow> [GetRecord (u32_to_be_bytes ip)] | None \<Rightarrow> []), kad_log = []\<rparr>)
      | Swarm e \<Rightarrow> (\<not> stop, \<lparr>kad_calls = [], kad_log = swarm_log e\<rparr>))"

text \<open>The rounds of the loop, each with the state and the event it meets.\<close>

primrec kademlia_loop ::
    "((string \<times> json_val) list \<Rightarrow> string) \<Rightarrow> (agent_state \<times> kad_event \<times> bool) list \<Rightarrow> 'a kad_out" where
  "kademlia_loop to_string [] = \<lparr>kad_calls = [], kad_log = []\<rparr>"
| "kademlia_loop to_string (r # rounds) =
     (let (goes_on, out) = kad_step to_string (fst r) (fst (snd r)) (snd (snd r));
          rest = (if goes_on then kademlia_loop to_string rounds else \<lparr>kad_calls = [], kad_log = []\<rparr>)
      in \<lparr>kad_calls = kad_calls out @ kad_calls rest, kad_log = kad_log out @ kad_log rest\<rparr>)"

section \<open>Keys\<close>

lemma kad_step_put:
  "PutRecord r \<in> set (kad_calls (snd (kad_step to_string st ev stop))) \<Longrightarrow> r = node_record to_string st"
  by (auto simp: kad_step_def split: kad_event.splits option.splits if_splits)

lemma kad_step_get:
  "GetRecord k \<in> set (kad_calls (snd (kad_step to_string st ev stop))) \<Longrightarrow> \<exists>ip. k = u32_to_be_bytes ip"
  by (auto simp: kad_step_def split: kad_event.splits option.splits if_splits)

lemma kad_calls_Cons:
  "c \<in> set (kad_calls (kademlia_loop to_string (r # rounds))) \<Longrightarrow>
     c \<in> set (kad_calls (snd (kad_step to_string (fst r) (fst (snd r)) (snd (snd r))))) \<or>
     c \<in> set (kad_calls (kademlia_loop to_string rounds))"
  by (auto simp: Let_def case_prod_beta split: if_splits)

lemma loop_puts:
  assumes "PutRecord r \<in> set (kad_calls (kademlia_loop to_string rounds))"
  shows "\<exists>x \<in> set rounds. r = node_record to_string (fst x)"
  using assms
proof (induction rounds)
  case (Cons x rounds)
  from kad_calls_Cons [OF Cons.prems] Cons.IH show ?case by (auto dest: kad_step_put)
qed simp

lemma loop_gets:
  assumes "GetRecord k \<in> set (kad_calls (kademlia_loop to_string rounds))"
  shows "\<exists>ip. k = u32_to_be_bytes ip"
  using assms
proof (induction rounds)
  case (Cons x rounds)
  from kad_calls_Cons [OF Cons.prems] Cons.IH show ?case by (auto dest: kad_step_get)
qed simp

text \<open>
  C28. A lookup in the distributed table never finds a published record: the nodes publish under
  the text of their overlay address and look addresses up under their four bytes, so no key that
  any node ever asks for is the key of a record that any node ever publishes, not even the
  address of the publisher itself.
\<close>

theorem dht_lookup_never_finds:
  assumes "\<forall>x \<in> set publisher. parse_ipv4 (node_overlay_ip (cfg (fst x))) \<noteq> None"
    and "PutRecord r \<in> set (kad_calls (kademlia_loop to_string publisher))"
    and "GetRecord k \<in> set (kad_calls (kademlia_loop to_string' seeker))"
  shows "rec_key r \<noteq> k"
proof -
  from loop_puts [OF assms(2)] assms(1) obtain st ip where
    "r = node_record to_string st" "parse_ipv4 (node_overlay_ip (cfg st)) = Some ip" by fastforce
  then have "7 \<le> length (rec_key r)"
    by (simp add: node_record_def as_bytes_def parse_ipv4_length)
  moreover have "length k = 4"
    using loop_gets [OF assms(3)] by (auto simp: u32_to_be_bytes_def)
  ultimately show ?thesis by auto
qed

lemma dht_lookup_never_finds_witness:
  "rec_key (node_record (\<lambda>_. ''{}'') (new_agent_state 0 (default_config\<lparr>node_overlay_ip := show_ipv4 (Ipv4 10 244 0 1)\<rparr>)))
     \<noteq> u32_to_be_bytes (u32_of_ipv4 (Ipv4 10 244 0 1))"
  by (rule dht_lookup_never_finds [where publisher = "[(new_agent_state 0
          (default_config\<lparr>node_overlay_ip := show_ipv4 (Ipv4 10 244 0 1)\<rparr>), Tick False, False)]"
        and seeker = "[(new_agent_state 0 default_config, Channel (Some (u32_of_ipv4 (Ipv4 10 244 0 1))), False)]"
        and to_string = "\<lambda>_. ''{}''" and to_string' = "\<lambda>_. ''{}''"])
     (simp_all add: kad_step_def new_agent_state_def)

section \<open>Stopping\<close>

text \<open>Once the flag is set, the round that is waiting is the last: it publishes nothing, and makes
  at most the one lookup it was woken for.\<close>

lemma kad_stops:
  assumes "snd (snd r)" and "\<And>b. fst (snd r) = Tick b \<Longrightarrow> b"
  shows "kademlia_loop to_string (r # rounds) = kademlia_loop to_string [r]"
    and "kad_calls (kademlia_loop to_string (r # rounds)) = [] \<or>
      (\<exists>ip. kad_calls (kademlia_loop to_string (r # rounds)) = [GetRecord (u32_to_be_bytes ip)])"
  using assms by (auto simp: kad_step_def split: kad_event.splits option.splits)

end
