(* ===== verification/Build.thy ===== *)
theory Build
  imports Bpf
begin

text \<open>
  \<open>xtask/src/main.rs\<close>: the build tool. What it works on is a tree of files and directories;
  \<open>cargo\<close> is a parameter that transforms the tree and reports its exit status, or the failure to
  start it. \<open>std::fs\<close> is modelled on the tree, with the faults of the device as a parameter. The
  last section puts the tool together with the loader of \<open>Bpf\<close>, which reads what the tool wrote.
\<close>

section \<open>Files and commands\<close>

record tree =
  files :: "string \<rightharpoonup> string"
  dirs :: "string set"

text \<open>\<open>denied p\<close>: \<open>p\<close> cannot be created or opened for writing. \<open>full_after p = Some n\<close>: writing
  to \<open>p\<close> fails after \<open>n\<close> bytes.\<close>

record fs_faults =
  denied :: "string \<Rightarrow> bool"
  full_after :: "string \<Rightarrow> nat option"

type_synonym cargo = "string list \<Rightarrow> tree \<Rightarrow> tree \<times> bool res"

text \<open>The directory part of a path, for \<open>create_dir_all\<close> of a one-component path and for the
  parent that \<open>copy\<close> needs.\<close>

definition parent :: "string \<Rightarrow> string" where
  "parent p = rev (drop 1 (dropWhile (\<lambda>c. c \<noteq> CHR ''/'') (rev p)))"

definition create_dir_all :: "fs_faults \<Rightarrow> string \<Rightarrow> tree \<Rightarrow> tree \<times> unit res" where
  "create_dir_all io p t =
     (if p \<in> dirs t then (t, Inr ())
      else if files t p \<noteq> None then (t, Inl (Error ''File exists''))
      else if denied io p then (t, Inl (Error ''Permission denied''))
      else (t\<lparr>dirs := insert p (dirs t)\<rparr>, Inr ()))"

text \<open>\<open>std::fs::copy\<close>: the source is opened first; the target is truncated and then written, so a
  device that fills up leaves a part of it.\<close>

definition copy_file :: "fs_faults \<Rightarrow> string \<Rightarrow> string \<Rightarrow> tree \<Rightarrow> tree \<times> unit res" where
  "copy_file io src dst t =
     (case files t src of
        None \<Rightarrow> (t, Inl (Error ''No such file or directory''))
      | Some content \<Rightarrow>
          if parent dst \<notin> dirs t then (t, Inl (Error ''No such file or directory''))
          else if dst \<in> dirs t then (t, Inl (Error ''Is a directory''))
          else if denied io dst then (t, Inl (Error ''Permission denied''))
          else (case full_after io dst of
                  Some n \<Rightarrow> (t\<lparr>files := (files t)(dst \<mapsto> take n content)\<rparr>, Inl (Error ''No space left on device''))
                | None \<Rightarrow> (t\<lparr>files := (files t)(dst \<mapsto> content)\<rparr>, Inr ())))"

text \<open>What the tool has done so far: the tree, the arguments of every \<open>cargo\<close> it started, and
  the lines it printed.\<close>

record build_state =
  tree_of :: tree
  ran :: "string list list"
  printed :: "string list"

definition println :: "string \<Rightarrow> build_state \<Rightarrow> build_state" where
  "println l w = w\<lparr>printed := printed w @ [l]\<rparr>"

text \<open>\<open>Command::new("cargo").args(args).status().context(m)?\<close> and the test of the status.\<close>

definition run_cargo ::
    "cargo \<Rightarrow> string list \<Rightarrow> string \<Rightarrow> string \<Rightarrow> build_state \<Rightarrow> build_state \<times> unit res" where
  "run_cargo cargo args context bail w =
     (let (t, status) = cargo args (tree_of w); w = w\<lparr>tree_of := t, ran := ran w @ [args]\<rparr>
      in case status of
           Inl _ \<Rightarrow> (w, Inl (Error context))
         | Inr success \<Rightarrow> if \<not> success then (w, Inl (Error bail)) else (w, Inr ()))"

section \<open>The three builds\<close>

definition ebpf_args :: "string list" where
  "ebpf_args = [''+nightly'', ''build'', ''--package'', ''nomad-p2p-ebpf'', ''--target'',
     ''bpfel-unknown-none'', ''--release'', ''-Z'', ''build-std=core'']"

definition agent_args :: "string list" where
  "agent_args = [''build'', ''--package'', ''nomad-p2p-agent'', ''--release'']"

definition cni_args :: "string list" where
  "cni_args = [''build'', ''--package'', ''nomad-p2p-cni'', ''--release'']"

definition ebpf_src :: string where
  "ebpf_src = ''target/bpfel-unknown-none/release/nomad-p2p-ebpf''"

definition ebpf_dst :: string where
  "ebpf_dst = ''bin/mesh.bpf.o''"

definition copy_ebpf :: "fs_faults \<Rightarrow> build_state \<Rightarrow> build_state" where
  "copy_ebpf io w =
     (let t = fst (create_dir_all io ''bin'' (tree_of w));
          (t, copied) = copy_file io ebpf_src ebpf_dst t;
          w = w\<lparr>tree_of := t\<rparr>
      in case copied of
           Inr _ \<Rightarrow> println (''copied '' @ ebpf_src @ '' -> '' @ ebpf_dst) w
         | Inl e \<Rightarrow> println (''copy failed: '' @ err_text e) w)"

definition build_ebpf :: "cargo \<Rightarrow> fs_faults \<Rightarrow> build_state \<Rightarrow> build_state \<times> unit res" where
  "build_ebpf cargo io w =
     seq (run_cargo cargo ebpf_args ''build eBPF'' ''eBPF build failed'' (println ''building eBPF programs...'' w))
       (\<lambda>_ w. (copy_ebpf io w, Inr ()))"

definition build_agent :: "cargo \<Rightarrow> build_state \<Rightarrow> build_state \<times> unit res" where
  "build_agent cargo w =
     run_cargo cargo agent_args ''build agent'' ''agent build failed'' (println ''building agent...'' w)"

definition build_cni :: "cargo \<Rightarrow> build_state \<Rightarrow> build_state \<times> unit res" where
  "build_cni cargo w =
     run_cargo cargo cni_args ''build cni'' ''CNI build failed'' (println ''building CNI plugin...'' w)"

datatype build_command = BuildEbpf | BuildAgent | BuildCni | All

definition xtask_main :: "cargo \<Rightarrow> fs_faults \<Rightarrow> build_command option \<Rightarrow> build_state \<Rightarrow> build_state \<times> unit res" where
  "xtask_main cargo io c w =
     (case (case c of None \<Rightarrow> All | Some c \<Rightarrow> c) of
        BuildEbpf \<Rightarrow> build_ebpf cargo io w
      | BuildAgent \<Rightarrow> build_agent cargo w
      | BuildCni \<Rightarrow> build_cni cargo w
      | All \<Rightarrow> seq (build_ebpf cargo io w) (\<lambda>_ w. seq (build_agent cargo w) (\<lambda>_ w. build_cni cargo w)))"

section \<open>Order of the builds\<close>

lemma run_cargo_ran:
  assumes "run_cargo cargo args context bail w = (w', r)"
  shows "ran w' = ran w @ [args] \<and> (r = Inr () \<or> r = Inl (Error context) \<or> r = Inl (Error bail))"
  using assms by (auto simp: run_cargo_def Let_def case_prod_beta split: sum.splits if_splits)

lemma ran_println [simp]: "ran (println l w) = ran w"
  by (simp add: println_def)

lemma tree_println [simp]: "tree_of (println l w) = tree_of w"
  by (simp add: println_def)

lemma ran_copy_ebpf [simp]: "ran (copy_ebpf io w) = ran w"
  by (simp add: copy_ebpf_def Let_def case_prod_beta split: sum.split)

lemma build_ebpf_ran:
  assumes "build_ebpf cargo io w = (w', r)"
  shows "ran w' = ran w @ [ebpf_args] \<and>
    (r = Inr () \<or> r = Inl (Error ''build eBPF'') \<or> r = Inl (Error ''eBPF build failed''))"
proof -
  obtain w1 r1 where cargo: "run_cargo cargo ebpf_args ''build eBPF'' ''eBPF build failed''
      (println ''building eBPF programs...'' w) = (w1, r1)" by fastforce
  from run_cargo_ran [OF cargo] assms show ?thesis by (auto simp: build_ebpf_def cargo)
qed

text \<open>
  A build of everything runs the eBPF, the agent and the plugin build in this order and
  stops at the first one that fails: it reports success only after all three commands have
  succeeded, and its error names the build that failed and that was the last to run. An absent
  subcommand means everything.
\<close>

lemma build_stops_at_first_failure:
  "case xtask_main cargo io None w of
     (w', Inr _) \<Rightarrow> ran w' = ran w @ [ebpf_args, agent_args, cni_args]
   | (w', Inl e) \<Rightarrow>
       (e, ran w') \<in> {Error ''build eBPF'', Error ''eBPF build failed''} \<times> {ran w @ [ebpf_args]} \<union>
         {Error ''build agent'', Error ''agent build failed''} \<times> {ran w @ [ebpf_args, agent_args]} \<union>
         {Error ''build cni'', Error ''CNI build failed''} \<times> {ran w @ [ebpf_args, agent_args, cni_args]}"
proof -
  obtain w1 r1 where 1: "build_ebpf cargo io w = (w1, r1)" by fastforce
  obtain w2 r2 where 2: "build_agent cargo w1 = (w2, r2)" by fastforce
  obtain w3 r3 where 3: "build_cni cargo w2 = (w3, r3)" by fastforce
  have "ran w2 = ran w1 @ [agent_args] \<and>
      (r2 = Inr () \<or> r2 = Inl (Error ''build agent'') \<or> r2 = Inl (Error ''agent build failed''))"
    using run_cargo_ran [OF 2 [unfolded build_agent_def]] by simp
  moreover have "ran w3 = ran w2 @ [cni_args] \<and>
      (r3 = Inr () \<or> r3 = Inl (Error ''build cni'') \<or> r3 = Inl (Error ''CNI build failed''))"
    using run_cargo_ran [OF 3 [unfolded build_cni_def]] by simp
  ultimately show ?thesis using build_ebpf_ran [OF 1] by (auto simp: xtask_main_def 1 2 3)
qed

section \<open>What the loader finds after a build\<close>

text \<open>\<open>cargo\<close> writes below \<open>target\<close>, never below \<open>bin\<close>.\<close>

definition keeps_bin :: "cargo \<Rightarrow> bool" where
  "keeps_bin cargo \<longleftrightarrow> (\<forall>args t p. prefix ''bin/'' p \<longrightarrow> files (fst (cargo args t)) p = files t p)"

text \<open>The object files as the loader sees them: the bytes in the tree, read by \<open>aya\<close>.\<close>

definition object_in :: "(string \<Rightarrow> bpf_object res) \<Rightarrow> tree \<Rightarrow> string \<Rightarrow> bpf_object res" where
  "object_in aya t p = (case files t p of None \<Rightarrow> Inl (Error ''file not found'') | Some c \<Rightarrow> aya c)"

lemma run_cargo_bin:
  "keeps_bin cargo \<Longrightarrow> prefix ''bin/'' p \<Longrightarrow>
     files (tree_of (fst (run_cargo cargo args context bail w))) p = files (tree_of w) p"
  by (auto simp: run_cargo_def keeps_bin_def Let_def case_prod_beta split: sum.split)

lemma files_copy_file: "p \<noteq> dst \<Longrightarrow> files (fst (copy_file io src dst t)) p = files t p"
  by (simp add: copy_file_def split: option.split)

lemma files_create_dir_all [simp]: "files (fst (create_dir_all io d t)) = files t"
  by (simp add: create_dir_all_def)

lemma tree_copy_ebpf:
  "tree_of (copy_ebpf io w) = fst (copy_file io ebpf_src ebpf_dst (fst (create_dir_all io ''bin'' (tree_of w))))"
  by (simp add: copy_ebpf_def Let_def case_prod_beta split: sum.split)

lemma fst_seq_keeps:
  assumes "P (fst r)" and "\<And>x s. P s \<Longrightarrow> P (fst (f x s))"
  shows "P (fst (seq r f))"
  using assms by (simp add: seq_def split: sum.split)

lemma build_ebpf_bin:
  assumes "keeps_bin cargo" and "prefix ''bin/'' p" and "p \<noteq> ebpf_dst"
  shows "files (tree_of (fst (build_ebpf cargo io w))) p = files (tree_of w) p"
  using assms run_cargo_bin [OF assms(1,2), of ebpf_args _ _ "println ''building eBPF programs...'' w"]
  by (simp add: build_ebpf_def seq_def tree_copy_ebpf files_copy_file split: sum.split)

lemma xtask_bin:
  assumes "keeps_bin cargo" and "prefix ''bin/'' p" and "p \<noteq> ebpf_dst"
  shows "files (tree_of (fst (xtask_main cargo io c w))) p = files (tree_of w) p"
proof -
  let ?kept = "\<lambda>v. files (tree_of v) p = files (tree_of w) p"
  have agent: "?kept (fst (build_agent cargo v))" if "?kept v" for v
    using that assms by (simp add: build_agent_def run_cargo_bin)
  have cni: "?kept (fst (build_cni cargo v))" if "?kept v" for v
    using that assms by (simp add: build_cni_def run_cargo_bin)
  have "?kept (fst (seq (build_agent cargo v) (\<lambda>_ w. build_cni cargo w)))" if "?kept v" for v
    by (rule fst_seq_keeps [where P = ?kept]) (rule agent [OF that], rule cni)
  then have "?kept (fst (seq (build_ebpf cargo io w) (\<lambda>_ w. seq (build_agent cargo w) (\<lambda>_ w. build_cni cargo w))))"
    by (rule fst_seq_keeps [where P = ?kept, OF build_ebpf_bin [OF assms]])
  then show ?thesis
    using build_ebpf_bin [OF assms] agent [of w] cni [of w]
    by (simp add: xtask_main_def split: option.split build_command.split)
qed

text \<open>
  No build makes the firewall or the VIP object: on a tree without them, an agent that loads
  its programs after any run of the build tool has neither, whatever the run was asked for and
  however it ended.
\<close>

lemma built_agent_has_mesh_only:
  assumes "keeps_bin cargo"
    and "files (tree_of w) ''bin/firewall.bpf.o'' = None" and "files (tree_of w) ''bin/vip_balancer.bpf.o'' = None"
    and "load (object_in aya (tree_of (fst (xtask_main cargo io c w)))) = Inr b"
  shows "fw b = None \<and> vip_obj b = None"
proof -
  let ?t = "tree_of (fst (xtask_main cargo io c w))"
  have "files ?t ''bin/firewall.bpf.o'' = None" and "files ?t ''bin/vip_balancer.bpf.o'' = None"
    using xtask_bin [OF assms(1), of "''bin/firewall.bpf.o''"] xtask_bin [OF assms(1), of "''bin/vip_balancer.bpf.o''"]
      assms(2,3) by (simp_all add: ebpf_dst_def)
  then have "object_in aya ?t ''bin/firewall.bpf.o'' = Inl (Error ''file not found'')"
    and "object_in aya ?t ''bin/vip_balancer.bpf.o'' = Inl (Error ''file not found'')"
    by (simp_all add: object_in_def)
  then show ?thesis using assms(4) by (auto simp: load_def split: sum.splits)
qed

definition no_faults :: fs_faults where
  "no_faults = \<lparr>denied = \<lambda>_. False, full_after = \<lambda>_. None\<rparr>"

lemma parent_ebpf_dst [simp]: "parent ebpf_dst = ''bin''"
  by (simp add: parent_def ebpf_dst_def)

lemma ebpf_paths [simp]: "ebpf_src \<noteq> ebpf_dst" "ebpf_src \<noteq> ''bin''" "ebpf_dst \<noteq> ''bin''" "prefix ''bin/'' ebpf_dst"
  by (simp_all add: ebpf_src_def ebpf_dst_def)

lemma copied_object:
  assumes "files (tree_of w) ''bin'' = None" and "ebpf_dst \<notin> dirs (tree_of w)"
  shows "files (tree_of (copy_ebpf no_faults w)) ebpf_dst =
    (case files (tree_of w) ebpf_src of None \<Rightarrow> files (tree_of w) ebpf_dst | Some content \<Rightarrow> Some content)"
  using assms
  by (auto simp: tree_copy_ebpf copy_file_def create_dir_all_def no_faults_def split: option.split)

lemma run_cargo_Inr:
  assumes "run_cargo cargo args context bail w = (w', Inr ())"
  shows "tree_of w' = fst (cargo args (tree_of w))"
  using assms by (auto simp: run_cargo_def Let_def case_prod_beta split: sum.splits if_splits)

lemma build_all_Inr:
  assumes "keeps_bin cargo" and "xtask_main cargo no_faults None w = (w', Inr ())"
    and "files (fst (cargo ebpf_args (tree_of w))) ''bin'' = None"
    and "ebpf_dst \<notin> dirs (fst (cargo ebpf_args (tree_of w)))"
  shows "files (tree_of w') ebpf_dst =
    (case files (fst (cargo ebpf_args (tree_of w))) ebpf_src of
       None \<Rightarrow> files (tree_of w) ebpf_dst | Some content \<Rightarrow> Some content)"
proof -
  from assms(2) obtain w1 w2 where
      ebpf: "build_ebpf cargo no_faults w = (w1, Inr ())" and agent: "build_agent cargo w1 = (w2, Inr ())"
      and cni: "build_cni cargo w2 = (w', Inr ())"
    by (auto simp: xtask_main_def seq_Inr_iff)
  from ebpf obtain w0 where w0: "tree_of w0 = fst (cargo ebpf_args (tree_of w))" "w1 = copy_ebpf no_faults w0"
    by (auto simp: build_ebpf_def seq_Inr_iff dest: run_cargo_Inr)
  have "files (tree_of w0) ebpf_dst = files (tree_of w) ebpf_dst"
    using assms(1) by (simp add: w0(1) keeps_bin_def)
  moreover have "files (tree_of w1) ebpf_dst =
      (case files (tree_of w0) ebpf_src of None \<Rightarrow> files (tree_of w0) ebpf_dst | Some content \<Rightarrow> Some content)"
    unfolding w0(2) using assms(3,4) by (intro copied_object) (simp_all add: w0(1))
  moreover have "files (tree_of w2) ebpf_dst = files (tree_of w1) ebpf_dst"
    using run_cargo_bin [OF assms(1), of ebpf_dst] agent unfolding build_agent_def
    by (metis ebpf_paths(4) fst_conv tree_println)
  moreover have "files (tree_of w') ebpf_dst = files (tree_of w2) ebpf_dst"
    using run_cargo_bin [OF assms(1), of ebpf_dst] cni unfolding build_cni_def
    by (metis ebpf_paths(4) fst_conv tree_println)
  ultimately show ?thesis by (simp add: w0(1) cong: option.case_cong)
qed

text \<open>
  C27. A build that reports success need not have built what the agent loads. After a successful
  build of everything (on a device without faults, where \<open>bin\<close> is no file, \<open>bin/mesh.bpf.o\<close> no
  directory, and \<open>cargo\<close> writes nothing below \<open>bin\<close>) the agent loads the program that the eBPF
  build left in \<open>target\<close>; but if that build left no file of the name the tool copies, the agent loads
  the object that was in \<open>bin\<close> before the build, and with none there it fails with \<open>load mesh BPF\<close>.
  (The eBPF package is a library with \<open>crate-type = ["cdylib"]\<close>, for which \<open>cargo\<close> makes no file
  named after the package.)
\<close>

theorem successful_build_may_not_load:
  assumes "keeps_bin cargo" and "xtask_main cargo no_faults None w = (w', Inr ())"
    and "files (fst (cargo ebpf_args (tree_of w))) ''bin'' = None"
    and "ebpf_dst \<notin> dirs (fst (cargo ebpf_args (tree_of w)))"
  shows "case files (fst (cargo ebpf_args (tree_of w))) ebpf_src of
      None \<Rightarrow>
        (case files (tree_of w) ebpf_dst of
           None \<Rightarrow> load (object_in aya (tree_of w')) = Inl (Error ''load mesh BPF'')
         | Some stale \<Rightarrow> (\<forall>obj. aya stale = Inr obj \<longrightarrow> (\<exists>b. load (object_in aya (tree_of w')) = Inr b \<and> mesh b = obj)))
    | Some content \<Rightarrow> (\<forall>obj. aya content = Inr obj \<longrightarrow> (\<exists>b. load (object_in aya (tree_of w')) = Inr b \<and> mesh b = obj))"
  using build_all_Inr [OF assms]
  by (simp add: load_def object_in_def ebpf_dst_def split: option.split)

text \<open>A tree that holds sources only, and a \<open>cargo\<close> that builds the library under its own name.\<close>

definition sample_sources :: build_state where
  "sample_sources = \<lparr>tree_of = \<lparr>files = [''Cargo.toml'' \<mapsto> ''''], dirs = {}\<rparr>, ran = [], printed = []\<rparr>"

definition lib_cargo :: cargo where
  "lib_cargo args t =
     (t\<lparr>files := (files t)(''target/bpfel-unknown-none/release/libnomad_p2p_ebpf.so'' \<mapsto> ''ELF'')\<rparr>, Inr True)"

lemma keeps_bin_lib_cargo [simp]: "keeps_bin lib_cargo"
  by (auto simp: keeps_bin_def lib_cargo_def prefix_def)

lemma successful_build_may_not_load_witness:
  "\<exists>w'. xtask_main lib_cargo no_faults None sample_sources = (w', Inr ()) \<and>
     load (object_in (\<lambda>_. Inl (Error '''')) (tree_of w')) = Inl (Error ''load mesh BPF'')"
proof -
  obtain w' where w': "xtask_main lib_cargo no_faults None sample_sources = (w', Inr ())"
    by (simp add: xtask_main_def build_ebpf_def build_agent_def build_cni_def run_cargo_def lib_cargo_def)
  have "files (fst (lib_cargo ebpf_args (tree_of sample_sources))) ebpf_src = None"
    by (simp add: lib_cargo_def sample_sources_def ebpf_src_def)
  with successful_build_may_not_load [OF keeps_bin_lib_cargo w', of "\<lambda>_. Inl (Error '''')"] w' show ?thesis
    by (simp add: sample_sources_def lib_cargo_def ebpf_dst_def)
qed

end
