(* ===== verification/Cni.thy ===== *)
theory Cni
  imports Api
begin

text \<open>
  \<open>cni/src/lib.rs\<close>: the CNI plugin. A run executes commands of \<open>ip\<close> and \<open>nsenter\<close> and posts
  requests to the agent. The commands already run are the trace; the outcome of a command
  is the parameter \<open>exec\<close>, given the trace and the command. The HTTP client (\<open>ureq\<close>) is the
  parameter \<open>post\<close>, which takes the URL and the payload to the state of the agent and the
  response; its inner result is \<open>into_string\<close>. \<open>serde_json\<close> is \<open>to_string\<close> on an object of
  strings, and the parser of \<open>Protocol\<close>.
\<close>

section \<open>Input, output and world\<close>

record cni_cmd =
  cni_version :: string
  command :: "string option"
  container_id :: "string option"
  netns :: "string option"
  if_name :: "string option"
  cc_args :: "string option"
  cc_name :: "string option"
  cc_type :: "string option"

record cni_ip =
  version :: string
  address :: string
  gateway :: "string option"

record cni_dns =
  nameservers :: "string list"

record cni_result =
  res_version :: string
  ips :: "cni_ip list"
  dns :: "cni_dns option"

definition GATEWAY :: string where
  "GATEWAY = ''10.244.0.1''"

definition AGENT_API :: string where
  "AGENT_API = ''http://127.0.0.1:9091''"

record cmd_output =
  success :: bool
  stderr :: string

record 'w cni =
  trace :: "string list list"
  agent :: 'w

type_synonym exec_fn = "string list list \<Rightarrow> string list \<Rightarrow> cmd_output res"
type_synonym 'w post_fn = "string \<Rightarrow> string \<Rightarrow> 'w \<Rightarrow> 'w \<times> string res res"
type_synonym to_string_fn = "(string \<times> string) list \<Rightarrow> string res"

definition exec_cmd :: "exec_fn \<Rightarrow> string list \<Rightarrow> 'w cni \<Rightarrow> 'w cni \<times> cmd_output res" where
  "exec_cmd exec c s = (s\<lparr>trace := trace s @ [c]\<rparr>, exec (trace s) c)"

definition or_default :: "string option \<Rightarrow> string \<Rightarrow> string" where
  "or_default x d = (case x of None \<Rightarrow> d | Some v \<Rightarrow> v)"

section \<open>Talking to the agent\<close>

definition container_url :: string where
  "container_url = AGENT_API @ ''/api/v1/container''"

definition fallback_ip :: "string \<Rightarrow> ipv4" where
  "fallback_ip cid = Ipv4 10 244 0 (2 + ucast (hash_id cid mod 253))"

definition reply_ip :: "'j json_api \<Rightarrow> string res res \<Rightarrow> ipv4 option" where
  "reply_ip j r =
     (case r of
        Inr (Inr body) \<Rightarrow>
          (case from_slice j (as_bytes body) of
             Inl _ \<Rightarrow> None
           | Inr v \<Rightarrow> Option.bind (get_str j v ''ip'') parse_ipv4)
      | _ \<Rightarrow> None)"

definition allocate_ip ::
    "'w post_fn \<Rightarrow> 'j json_api \<Rightarrow> to_string_fn \<Rightarrow> string \<Rightarrow> 'w cni \<Rightarrow> 'w cni \<times> ipv4" where
  "allocate_ip post j to_string cid s =
     (let payload = (case to_string [(''action'', ''allocate''), (''container_id'', cid)] of
                       Inl _ \<Rightarrow> '''' | Inr p \<Rightarrow> p);
          (w, r) = post container_url payload (agent s)
      in (s\<lparr>agent := w\<rparr>, case reply_ip j r of None \<Rightarrow> fallback_ip cid | Some ip \<Rightarrow> ip))"

definition notify_agent ::
    "'w post_fn \<Rightarrow> to_string_fn \<Rightarrow> string \<Rightarrow> string \<Rightarrow> string \<Rightarrow> string \<Rightarrow> 'w cni \<Rightarrow> 'w cni \<times> unit res" where
  "notify_agent post to_string action cid ip iface s =
     (case to_string [(''action'', action), (''container_id'', cid), (''ip'', ip), (''iface'', iface)] of
        Inl e \<Rightarrow> (s, Inl (Error (''json: '' @ err_text e)))
      | Inr payload \<Rightarrow>
          (let (w, r) = post container_url payload (agent s)
           in (s\<lparr>agent := w\<rparr>, case r of Inl e \<Rightarrow> Inl (Error (''agent API error: '' @ err_text e)) | Inr _ \<Rightarrow> Inr ())))"

section \<open>ADD, DEL and the entry point\<close>

definition host_iface_of :: "string \<Rightarrow> string res" where
  "host_iface_of cid = and_then (slice_to cid (min 8 (length cid))) (\<lambda>short. Inr (''veth-'' @ short))"

definition add_result :: "string \<Rightarrow> ipv4 \<Rightarrow> cni_result" where
  "add_result v ip = \<lparr>res_version = v,
     ips = [\<lparr>version = ''4'', address = show_ipv4 ip @ ''/16'', gateway = Some GATEWAY\<rparr>], dns = None\<rparr>"

text \<open>The value of a successful run is what it prints, as the parameter \<open>print\<close> renders it.\<close>

definition cmd_add ::
    "exec_fn \<Rightarrow> 'w post_fn \<Rightarrow> 'j json_api \<Rightarrow> to_string_fn \<Rightarrow> (cni_result \<Rightarrow> string res) \<Rightarrow>
     cni_cmd \<Rightarrow> 'w cni \<Rightarrow> 'w cni \<times> string res" where
  "cmd_add exec post j to_string print cmd s =
     (let cid = or_default (container_id cmd) ''unknown'';
          ns = or_default (netns cmd) ''/proc/1/ns/net'';
          ifn = or_default (if_name cmd) ''eth0''
      in seq (s, host_iface_of cid) (\<lambda>host s.
         seq (exec_cmd exec [''ip'', ''link'', ''add'', host, ''type'', ''veth'', ''peer'', ''name'', ifn] s) (\<lambda>out s.
         if \<not> success out \<and> \<not> str_contains (stderr out) ''File exists''
         then (s, Inl (Error (''veth create failed: '' @ stderr out)))
         else
         seq (exec_cmd exec [''ip'', ''link'', ''set'', ifn, ''netns'', ns] s) (\<lambda>_ s.
         let (s, ip) = allocate_ip post j to_string cid s in
         seq (exec_cmd exec [''ip'', ''addr'', ''add'', show_ipv4 ip @ ''/32'', ''dev'', host] s) (\<lambda>_ s.
         seq (exec_cmd exec [''ip'', ''link'', ''set'', host, ''up''] s) (\<lambda>_ s.
         let target = trim_end_matches ''/ns/net'' (trim_start_matches ''/proc/'' ns) in
         seq (exec_cmd exec [''nsenter'', ''--target'', target, ''--net'', ''--'',
                ''ip'', ''addr'', ''add'', show_ipv4 ip @ ''/16'', ''dev'', ifn] s) (\<lambda>_ s.
         seq (exec_cmd exec [''nsenter'', ''--target'', target, ''--net'', ''--'',
                ''ip'', ''link'', ''set'', ifn, ''up''] s) (\<lambda>_ s.
         seq (exec_cmd exec [''nsenter'', ''--target'', target, ''--net'', ''--'',
                ''ip'', ''route'', ''add'', ''default'', ''via'', GATEWAY, ''dev'', ifn] s) (\<lambda>_ s.
         let s = fst (notify_agent post to_string ''add'' cid (show_ipv4 ip) host s)
         in (s, print (add_result (cni_version cmd) ip)))))))))))"

definition cmd_del ::
    "exec_fn \<Rightarrow> 'w post_fn \<Rightarrow> to_string_fn \<Rightarrow> cni_cmd \<Rightarrow> 'w cni \<Rightarrow> 'w cni \<times> string res" where
  "cmd_del exec post to_string cmd s =
     (let cid = or_default (container_id cmd) ''unknown''
      in seq (s, host_iface_of cid) (\<lambda>host s.
         seq (exec_cmd exec [''ip'', ''link'', ''delete'', host] s) (\<lambda>_ s.
         let s = fst (notify_agent post to_string ''del'' cid '''' host s)
         in (s, to_string [(''cniVersion'', cni_version cmd)]))))"

text \<open>\<open>input\<close> is the text of standard input or the error of reading it.\<close>

definition run ::
    "exec_fn \<Rightarrow> 'w post_fn \<Rightarrow> 'j json_api \<Rightarrow> to_string_fn \<Rightarrow> (cni_result \<Rightarrow> string res) \<Rightarrow>
     (string \<Rightarrow> cni_cmd res) \<Rightarrow> string res \<Rightarrow> 'w cni \<Rightarrow> 'w cni \<times> string res" where
  "run exec post j to_string print from_str input s =
     seq (s, and_then input from_str) (\<lambda>cmd s.
       case command cmd of
         None \<Rightarrow> cmd_add exec post j to_string print cmd s
       | Some c \<Rightarrow>
           if c = ''ADD'' then cmd_add exec post j to_string print cmd s
           else if c = ''DEL'' then cmd_del exec post to_string cmd s
           else (s, Inl (Error (''unknown CNI command: '' @ c))))"

text \<open>\<open>cni/src/main.rs\<close>: the executable. A panic ends the process with status 101; its message on
  standard error is the panic handler's.\<close>

record process_end =
  out_text :: string
  err_out :: string
  exit_code :: nat

definition cni_main ::
    "exec_fn \<Rightarrow> 'w post_fn \<Rightarrow> 'j json_api \<Rightarrow> to_string_fn \<Rightarrow> (cni_result \<Rightarrow> string res) \<Rightarrow>
     (string \<Rightarrow> cni_cmd res) \<Rightarrow> string res \<Rightarrow> 'w cni \<Rightarrow> 'w cni \<times> process_end" where
  "cni_main exec post j to_string print from_str input s =
     (let (s', r) = run exec post j to_string print from_str input s
      in (s', case r of
                Inr text \<Rightarrow> \<lparr>out_text = text, err_out = '''', exit_code = 0\<rparr>
              | Inl (Error e) \<Rightarrow> \<lparr>out_text = '''', err_out = ''CNI error: '' @ e @ [CHR 0x0A], exit_code = 1\<rparr>
              | Inl (Panic m) \<Rightarrow> \<lparr>out_text = '''', err_out = m, exit_code = 101\<rparr>))"

section \<open>What a successful ADD has done\<close>

lemma exec_cmd_Inr:
  "exec_cmd exec c s = (s', Inr out) \<longleftrightarrow> s' = s\<lparr>trace := trace s @ [c]\<rparr> \<and> exec (trace s) c = Inr out"
  by (auto simp: exec_cmd_def)

lemma trace_allocate_ip [simp]: "trace (fst (allocate_ip post j to_string cid s)) = trace s"
  by (simp add: allocate_ip_def Let_def case_prod_beta)

lemma allocate_ip_trace:
  "allocate_ip post j to_string cid (s\<lparr>trace := t\<rparr>) =
     ((fst (allocate_ip post j to_string cid s))\<lparr>trace := t\<rparr>, snd (allocate_ip post j to_string cid s))"
  by (simp add: allocate_ip_def Let_def case_prod_beta)

lemma trace_notify_agent [simp]: "trace (fst (notify_agent post to_string action cid ip iface s)) = trace s"
  by (simp add: notify_agent_def Let_def case_prod_beta split: sum.split)

lemma agent_notify_agent:
  "agent (fst (notify_agent post to_string action cid ip iface (s\<lparr>trace := t\<rparr>))) =
     agent (fst (notify_agent post to_string action cid ip iface s))"
  by (simp add: notify_agent_def Let_def case_prod_beta split: sum.split)

text \<open>The commands of an ADD, for a host interface, an interface name, a network namespace and
  an address.\<close>

definition add_commands :: "string \<Rightarrow> string \<Rightarrow> string \<Rightarrow> ipv4 \<Rightarrow> string list list" where
  "add_commands host ifn ns ip =
     (let target = trim_end_matches ''/ns/net'' (trim_start_matches ''/proc/'' ns);
          inside = [''nsenter'', ''--target'', target, ''--net'', ''--'']
      in [[''ip'', ''link'', ''add'', host, ''type'', ''veth'', ''peer'', ''name'', ifn],
          [''ip'', ''link'', ''set'', ifn, ''netns'', ns],
          [''ip'', ''addr'', ''add'', show_ipv4 ip @ ''/32'', ''dev'', host],
          [''ip'', ''link'', ''set'', host, ''up''],
          inside @ [''ip'', ''addr'', ''add'', show_ipv4 ip @ ''/16'', ''dev'', ifn],
          inside @ [''ip'', ''link'', ''set'', ifn, ''up''],
          inside @ [''ip'', ''route'', ''add'', ''default'', ''via'', GATEWAY, ''dev'', ifn]])"

lemma host_iface_length: "host_iface_of cid = Inr host \<Longrightarrow> length host \<le> 13"
  by (auto simp: host_iface_of_def and_then_Inr_iff slice_to_def split: if_splits)

lemma cmd_add_Inr:
  assumes "cmd_add exec post j to_string print cmd s = (s', Inr text)"
    and "cid = or_default (container_id cmd) ''unknown''" and "ip = snd (allocate_ip post j to_string cid s)"
  obtains host where "host_iface_of cid = Inr host"
    and "trace s' = trace s @ add_commands host (or_default (if_name cmd) ''eth0'')
      (or_default (netns cmd) ''/proc/1/ns/net'') ip"
    and "print (add_result (cni_version cmd) ip) = Inr text"
    and "agent s' = agent (fst (notify_agent post to_string ''add'' cid (show_ipv4 ip) host
      (fst (allocate_ip post j to_string cid s))))"
proof -
  obtain host where host: "host_iface_of cid = Inr host"
    using assms(1,2) by (auto simp: cmd_add_def Let_def seq_Inr_iff)
  have "trace s' = trace s @ add_commands host (or_default (if_name cmd) ''eth0'')
      (or_default (netns cmd) ''/proc/1/ns/net'') ip \<and> print (add_result (cni_version cmd) ip) = Inr text \<and>
      agent s' = agent (fst (notify_agent post to_string ''add'' cid (show_ipv4 ip) host
        (fst (allocate_ip post j to_string cid s))))"
    using assms(1) unfolding cmd_add_def assms(2) [symmetric] Let_def host
    by (clarsimp simp: seq_Inr_iff exec_cmd_Inr allocate_ip_trace case_prod_beta assms(3) add_commands_def Let_def
        split: if_splits) (auto simp: agent_notify_agent)
  with host that show ?thesis by blast
qed

text \<open>
  C32. A successful ADD has run exactly the seven commands of the plugin, in order, with one
  address throughout: the address printed in the result is the one configured on the host
  side and inside the container, and the host interface name fits the kernel's limit of
  fifteen bytes. The address is the agent's answer, or the hash of the container name.
\<close>

theorem cmd_add_trace:
  assumes "cmd_add exec post j to_string print cmd s = (s', Inr text)"
    and "cid = or_default (container_id cmd) ''unknown''" and "ip = snd (allocate_ip post j to_string cid s)"
  shows "\<exists>host. host_iface_of cid = Inr host \<and> length host \<le> 15 \<and>
    trace s' = trace s @ add_commands host (or_default (if_name cmd) ''eth0'')
      (or_default (netns cmd) ''/proc/1/ns/net'') ip \<and>
    print (add_result (cni_version cmd) ip) = Inr text"
proof -
  obtain host where "host_iface_of cid = Inr host"
    "trace s' = trace s @ add_commands host (or_default (if_name cmd) ''eth0'')
      (or_default (netns cmd) ''/proc/1/ns/net'') ip"
    "print (add_result (cni_version cmd) ip) = Inr text"
    by (rule cmd_add_Inr [OF assms])
  with host_iface_length [of cid host] show ?thesis by auto
qed

text \<open>Commands that all succeed, an agent that cannot be reached, and a printer, for the
  witnesses.\<close>

definition exec_ok :: exec_fn where
  "exec_ok tr c = Inr \<lparr>success = True, stderr = ''''\<rparr>"

definition post_down :: "unit post_fn" where
  "post_down url payload w = (w, Inl (Error ''connection refused''))"

definition to_string_ok :: to_string_fn where
  "to_string_ok kvs = Inr (concat (map (\<lambda>(k, v). k @ ''='' @ v @ '';'') kvs))"

definition print_ok :: "cni_result \<Rightarrow> string res" where
  "print_ok r = Inr (concat (map address (ips r)))"

definition sample_cmd :: cni_cmd where
  "sample_cmd = \<lparr>cni_version = ''1.0.0'', command = Some ''ADD'', container_id = Some ''a'', netns = None,
     if_name = None, cc_args = None, cc_name = None, cc_type = None\<rparr>"

definition fresh :: "'w \<Rightarrow> 'w cni" where
  "fresh w = \<lparr>trace = [], agent = w\<rparr>"

lemma host_iface_sample: "host_iface_of ''a'' = Inr ''veth-a''"
  by (simp add: host_iface_of_def slice_to_def is_char_boundary_def)

lemma allocate_ip_down [simp]: "snd (allocate_ip post_down j to_string cid s) = fallback_ip cid"
  by (simp add: allocate_ip_def post_down_def reply_ip_def)

lemma cmd_add_sample:
  "\<exists>s'. cmd_add exec_ok post_down j to_string_ok print_ok sample_cmd (fresh ()) =
     (s', Inr (show_ipv4 (fallback_ip ''a'') @ ''/16''))"
  by (simp add: cmd_add_def sample_cmd_def or_default_def host_iface_sample exec_cmd_def exec_ok_def
      case_prod_beta print_ok_def add_result_def Let_def)

lemma cmd_add_trace_witness:
  "trace (fst (cmd_add exec_ok post_down sample_json to_string_ok print_ok sample_cmd (fresh ()))) =
     add_commands ''veth-a'' ''eth0'' ''/proc/1/ns/net'' (fallback_ip ''a'')"
proof -
  obtain s' where run: "cmd_add exec_ok post_down sample_json to_string_ok print_ok sample_cmd (fresh ()) =
      (s', Inr (show_ipv4 (fallback_ip ''a'') @ ''/16''))"
    using cmd_add_sample by blast
  from cmd_add_trace [OF run refl refl]
  have "trace s' = add_commands ''veth-a'' ''eth0'' ''/proc/1/ns/net'' (fallback_ip ''a'')"
    by (simp add: sample_cmd_def or_default_def host_iface_sample fresh_def)
  with run show ?thesis by simp
qed

text \<open>A failed creation of the interface pair stops an ADD at once: the error is returned, one
  command has run, and the agent has not been contacted. The message \<open>File exists\<close> is the
  only one that lets the plugin go on.\<close>

lemma cmd_add_veth_failure:
  assumes "host_iface_of (or_default (container_id cmd) ''unknown'') = Inr host"
    and "create = [''ip'', ''link'', ''add'', host, ''type'', ''veth'', ''peer'', ''name'', or_default (if_name cmd) ''eth0'']"
    and "exec (trace s) create = Inr out" and "\<not> success out" and "\<not> str_contains (stderr out) ''File exists''"
  shows "cmd_add exec post j to_string print cmd s =
    (s\<lparr>trace := trace s @ [create]\<rparr>, Inl (Error (''veth create failed: '' @ stderr out)))"
  using assms by (simp add: cmd_add_def exec_cmd_def)

section \<open>Calls by a container runtime\<close>

text \<open>
  The CNI specification passes the command, the container and the namespace in environment
  variables, and the network configuration on standard input; the plugin looks only at the input.
\<close>

lemma host_iface_unknown [simp]: "host_iface_of ''unknown'' = Inr ''veth-unknown''"
  by (simp add: host_iface_of_def slice_to_def is_char_boundary_def)

text \<open>
  C29. Called as the CNI specification says, the plugin adds, whatever the runtime asks for: a
  network configuration names no command, container, namespace or interface, so every call (a
  \<open>DEL\<close> and a \<open>CHECK\<close> too) runs the seven commands of an ADD for the container \<open>unknown\<close>, with the
  peer interface moved to the namespace of process 1. A command that the input does name and
  that is neither \<open>ADD\<close> nor \<open>DEL\<close> runs nothing and ends with status 1.
\<close>

theorem runtime_calls_always_add:
  assumes "from_str config = Inr cmd" and "container_id cmd = None" and "netns cmd = None" and "if_name cmd = None"
    and "cni_main exec post j to_string print from_str (Inr config) s = (s', e)"
  shows "case command cmd of
      None \<Rightarrow> exit_code e = 0 \<longrightarrow>
        trace s' = trace s @ add_commands ''veth-unknown'' ''eth0'' ''/proc/1/ns/net''
          (snd (allocate_ip post j to_string ''unknown'' s))
    | Some c \<Rightarrow> c \<noteq> ''ADD'' \<longrightarrow> c \<noteq> ''DEL'' \<longrightarrow>
        s' = s \<and> e = \<lparr>out_text = '''', err_out = ''CNI error: unknown CNI command: '' @ c @ [CHR 0x0A], exit_code = 1\<rparr>"
proof (cases "command cmd")
  case None
  obtain r where run: "cmd_add exec post j to_string print cmd s = (s', r)"
    using assms(1,5) None by (auto simp: cni_main_def run_def Let_def split: prod.splits)
  have "trace s' = trace s @ add_commands ''veth-unknown'' ''eth0'' ''/proc/1/ns/net''
      (snd (allocate_ip post j to_string ''unknown'' s))" if "exit_code e = 0"
  proof -
    from that obtain out where out: "r = Inr out"
      using assms(1,5) None run by (cases r) (auto simp: cni_main_def run_def split: err.splits)
    show ?thesis
      by (rule cmd_add_Inr [OF run [unfolded out] refl refl]) (use assms(2-4) in \<open>simp add: or_default_def\<close>)
  qed
  then show ?thesis using None by simp
next
  case (Some c)
  then show ?thesis using assms(1,5) by (auto simp: cni_main_def run_def)
qed

definition config_only :: cni_cmd where
  "config_only = \<lparr>cni_version = ''1.0.0'', command = None, container_id = None, netns = None,
     if_name = None, cc_args = None, cc_name = Some ''nomad-p2p'', cc_type = Some ''nomad-p2p-cni''\<rparr>"

lemma runtime_calls_always_add_witness:
  "trace (fst (cni_main exec_ok post_down sample_json to_string_ok print_ok (\<lambda>_. Inr config_only) (Inr ''{}'') (fresh ()))) =
     add_commands ''veth-unknown'' ''eth0'' ''/proc/1/ns/net'' (fallback_ip ''unknown'')"
proof -
  obtain s' e where run: "cni_main exec_ok post_down sample_json to_string_ok print_ok (\<lambda>_. Inr config_only) (Inr ''{}'')
      (fresh ()) = (s', e)" by fastforce
  have "exit_code (snd (cni_main exec_ok post_down sample_json to_string_ok print_ok (\<lambda>_. Inr config_only) (Inr ''{}'')
      (fresh ()))) = 0"
    by (simp add: cni_main_def run_def cmd_add_def config_only_def or_default_def exec_cmd_def exec_ok_def
        case_prod_beta print_ok_def add_result_def Let_def)
  then have "exit_code e = 0" by (simp only: run snd_conv)
  with runtime_calls_always_add [OF _ _ _ _ run, of config_only] run show ?thesis
    by (simp add: config_only_def fresh_def)
qed

section \<open>The fallback address\<close>

text \<open>
  The fallback address is in \<open>10.244.0.2\<close> to \<open>10.244.0.254\<close>: the addition of the host
  number never overflows its byte, and neither the network address, the gateway
  \<open>10.244.0.1\<close> nor the broadcast address can come out.
\<close>

lemma fallback_ip_range: "Ipv4 10 244 0 2 \<le> fallback_ip cid" "fallback_ip cid \<le> Ipv4 10 244 0 254"
proof -
  let ?m = "hash_id cid mod 253"
  have less: "unat ?m < 253" by (simp add: unat_mod)
  then have "unat (ucast ?m :: u8) = unat ?m" by (simp add: unsigned_ucast_eq take_bit_nat_eq_self)
  then have "unat (2 + ucast ?m :: u8) = 2 + unat ?m" using less by (simp add: unat_word_ariths)
  with less show "Ipv4 10 244 0 2 \<le> fallback_ip cid" "fallback_ip cid \<le> Ipv4 10 244 0 254"
    by (simp_all add: fallback_ip_def word_le_nat_alt)
qed

section \<open>An agent that does not react\<close>

lemma agent_seq:
  "agent (fst r) = a \<Longrightarrow> (\<And>x s. agent s = a \<Longrightarrow> agent (fst (f x s)) = a) \<Longrightarrow> agent (fst (seq r f)) = a"
  by (simp add: seq_def split: sum.split)

lemma agent_if: "agent (fst x) = a \<Longrightarrow> agent (fst y) = a \<Longrightarrow> agent (fst (if b then x else y)) = a"
  by simp

lemma agent_exec [simp]: "agent (fst (exec_cmd exec c s)) = agent s"
  by (simp add: exec_cmd_def)

lemma agent_unchanged:
  assumes "\<And>url payload w. fst (post url payload w) = w"
  shows "agent (fst (cmd_add exec post j to_string print cmd s)) = agent s"
    and "agent (fst (cmd_del exec post to_string cmd s)) = agent s"
proof -
  have calls: "agent (fst (allocate_ip post j to_string cid s)) = agent s"
      "agent (fst (notify_agent post to_string action cid ip iface s)) = agent s" for cid action ip iface s
    by (simp_all add: allocate_ip_def notify_agent_def Let_def case_prod_beta assms split: sum.split)
  show "agent (fst (cmd_add exec post j to_string print cmd s)) = agent s"
    unfolding cmd_add_def Let_def case_prod_beta by (intro agent_seq agent_if; simp add: calls)
  show "agent (fst (cmd_del exec post to_string cmd s)) = agent s"
    unfolding cmd_del_def Let_def by (intro agent_seq; simp add: calls)
qed

end
