(* ===== verification/Spec2Isabelle.thy ===== *)
theory Spec2Isabelle
  imports Shutdown Vip_Race Kademlia Build Cni
begin

text \<open>
  Verification library for \<open>nomad-p2p-cni\<close>: an eBPF based peer-to-peer CNI plugin for Nomad,
  written in Rust.

  \<^bold>\<open>The program.\<close> An agent runs on every node. It loads BPF programs and maps, learns its
  public address from a STUN server, registers with seed nodes over an authenticated UDP
  protocol, and then runs a set of tasks: the UDP receive loop, the seed health loop, the
  STUN refresh loop, the consumer of the route-miss ring buffer, the discovery loop, the
  IPsec key loop, the VIP probe loop, the metrics server and the container API. The BPF
  programs redirect mesh traffic (egress), enforce access rules (ingress firewall) and
  balance connections to virtual addresses (connect). The CNI plugin is a separate program:
  on ADD and DEL it runs \<open>ip\<close> and \<open>nsenter\<close> and posts requests to the agent's API. The
  parts meet in the BPF maps (agent and programs), in the ring buffer (egress program and
  agent), and in the HTTP requests (plugin and agent).

  \<^bold>\<open>The theories.\<close>
  \<^item> \<open>P2P_Prelude\<close>: machine integers, results with errors and panics, sequencing of fallible
    code with state, and the locale \<open>window_gate\<close> (a key passes at most once per window).
  \<^item> \<open>Rust_Std\<close>: the parts of the standard library in use (byte orders, formatting, strings,
    UTF-8, number and address parsers and printers, the order of addresses), with their round
    trips.
  \<^item> \<open>Common\<close>: \<open>common/src/lib.rs\<close>, the shared constants and structures.
  \<^item> \<open>Protocol\<close>: \<open>agent/src/protocol.rs\<close>. State \<open>udp_protocol\<close>; \<open>marshal\<close>, \<open>send_to\<close>,
    \<open>check_nonce\<close>, \<open>recv\<close>, \<open>recv_loop_step\<close>. Received messages are authentic and fresh, forged
    ones change nothing, a sent message is received, and replays are a window apart once the clock
    has passed the epoch (\<open>check_nonce\<close> interprets \<open>window_gate\<close>).
  \<^item> \<open>Bpf\<close>: \<open>agent/src/bpf.rs\<close>. Map handles, loading, map updates, attaching, the default
    interface. The locale \<open>route_table\<close> is what the container API relies on of the route
    operations, which interpret it.
  \<^item> \<open>Route\<close>: \<open>agent/src/route.rs\<close>. Pending queue and cooldowns; \<open>drain_batch\<close> against its
    specification, the bound of the queue (\<open>submit_check\<close> and \<open>submit_push\<close>, the two critical
    sections of \<open>submit_miss\<close>) and the rate of queries in every interleaving of the tasks
    (\<open>pipe_step\<close>; the cooldown table interprets \<open>window_gate\<close>).
  \<^item> \<open>Dataplane\<close>: \<open>ebpf/src/main.rs\<close>. The four programs; which frames are inspected, the
    firewall policy, what a redirected frame looks like, round robin. The locale
    \<open>vip_source\<close> is what the connect program relies on of the table's writer.
  \<^item> \<open>Config\<close>: \<open>agent/src/lib.rs\<close> and \<open>agent/src/reload.rs\<close>. Configuration, shared state, the
    spawned tasks, and the watch loop of the hot reload: what any run of it leaves.
  \<^item> \<open>Stun\<close>: \<open>agent/src/stun.rs\<close>. The response parser, with its panics, on responses encoded as
    RFC 5389 says (\<open>rfc_attr\<close>, \<open>rfc_response\<close>): which attribute it finds and how it misreads it
    (\<open>misread\<close>), and what that makes of the NAT detection; discovery, refresh; truncated answers.
  \<^item> \<open>Vip\<close>: \<open>agent/src/vip.rs\<close>. Backend table, probe loop and the entry written to the VIP map,
    which interprets \<open>vip_source\<close>; the byte order of its key and of its addresses (\<open>net_u32\<close>).
  \<^item> \<open>Vip_Race\<close>: the VIP table while the connect program runs on several processors and the
    agent writes (\<open>vip_race\<close>: every read of a connection through the map reference is a step of
    its own and may see the fields of any entry written so far, and the copy it stores may be
    torn). Entries keep a usable shape, no connection panics, and no address is made up.
  \<^item> \<open>Accept\<close>: the accept loops of the two TCP servers. The locale \<open>accept_server\<close> states what a
    round promises; the loop then serves what was accepted before the stop.
  \<^item> \<open>Api\<close>: \<open>agent/src/api.rs\<close>. Container table, address allocation (overflow and mutex
    poisoning included), container commands against an abstract specification
    (\<open>spec_step\<close>), HTTP framing and replies, the server (an \<open>accept_server\<close>).
  \<^item> \<open>Concurrent\<close>: container commands at the same time. A command is the sequence of its two
    critical sections (\<open>atoms_of\<close>), tasks interleave between them (\<open>merges\<close>). Table and maps are
    each as some sequential order leaves them, both together only for commands on
    different containers, for which every interleaving refines \<open>spec_step\<close>.
  \<^item> \<open>Metrics\<close>: \<open>agent/src/metrics.rs\<close>. The server (an \<open>accept_server\<close>) and the text a scrape
    reads, with its round trip.
  \<^item> \<open>Cni\<close>: \<open>cni/src/lib.rs\<close> and \<open>cni/src/main.rs\<close>. ADD, DEL, \<open>run\<close> and the executable, with the
    trace of their commands; calls as a container runtime makes them.
  \<^item> \<open>Ipsec\<close>: \<open>agent/src/ipsec.rs\<close>. Peers, security associations, policies, rotation.
  \<^item> \<open>Seed\<close>: \<open>agent/src/seed.rs\<close> and \<open>agent/src/relay.rs\<close>. Registration and relay search.
  \<^item> \<open>Agent\<close>: \<open>agent/src/main.rs\<close> and the running agent as a transition system (\<open>sys_step\<close>) over
    the state its tasks share: the steps of the tasks and of open connections (\<open>task_step\<close>), of
    the shutdown (\<open>stop_step\<close>) and of the egress program (\<open>egress_step\<close>), with an invariant of
    every reachable state. \<open>sys_rounds\<close> holds the rounds that have read the stop flag for the last
    time: they go on after the interrupt.
  \<^item> \<open>Shutdown\<close>: the end of \<open>run_agent\<close>. From the interrupt on, the measure \<open>work\<close> falls with
    every step of the agent, and what a task owns changes only while its last round runs.
  \<^item> \<open>Kademlia\<close>: \<open>agent/src/kademlia.rs\<close>, which the crate leaves out. The network it builds, the
    calls its loop makes on the swarm, and the keys it uses.
  \<^item> \<open>Build\<close>: \<open>xtask/src/main.rs\<close>. The three builds on a tree of files, their order, and what the
    loader of \<open>Bpf\<close> finds afterwards.
  \<^item> This theory: what the plugin, the agent and the BPF programs do together.

  \<^bold>\<open>Conventions.\<close> A fallible function returns \<open>err + 'a\<close>; a Rust panic is an error value of
  its own, which \<open>match\<close> and \<open>?\<close> of the callers do not see, and which ends the task. Machine
  integers are words, with the wrap-around or the overflow panic of the source written out;
  the flag \<open>checks\<close> of \<open>Api\<close> tells a build with overflow checks. Native byte order is
  little-endian. Loops are structural recursion or have a termination proof; no definition
  uses fuel, except that \<open>MAX_RECV_ATTEMPTS\<close> bounds \<open>recv\<close> in the source itself. A loop of a
  task that runs until the stop flag is given by the definition of one round.

  \<^bold>\<open>Parameters.\<close> Crates, other programs and the kernel are arguments of the definitions: HMAC,
  \<open>serde_json\<close>, \<open>aya\<close> map and program calls, packet loads, sockets, processes, \<open>cargo\<close>, \<open>libp2p\<close>,
  the file watcher, the HTTP client, the hex codec, clocks and random numbers. The laws a
  theorem needs of them are named predicates (\<open>hmac_ok\<close>, \<open>insert_ok\<close>, \<open>kernel_ok\<close>, \<open>skb_load_ok\<close>,
  \<open>json_roundtrip\<close>, \<open>chunked_client\<close>, \<open>keeps_bin\<close> and others), and each has a concrete instance in
  the witness of the theorem.

  \<^bold>\<open>Concurrency.\<close> Tasks interleave at the points where the source lets them: \<open>pipe_step\<close> of
  \<open>Route\<close> (queue and cooldowns), \<open>merges\<close> of \<open>Concurrent\<close> (the critical sections of container
  commands), \<open>vip_race\<close> (the reads and the store of a connection), and \<open>sys_step\<close> of \<open>Agent\<close> (all
  tasks, with container commands split into their sections). There a round begins when its task has
  read the stop flag and takes effect later, in one step, except that the ring buffer consumer
  reads, checks and pushes in three and the discovery task drains and then acts on one address
  at a time.

  \<^bold>\<open>Not modelled.\<close> Logging (except the lines the build tool and the Kademlia loop print); the
  contents of the libp2p behaviours beyond their settings; text outside ASCII as anything but
  bytes; the capacity of the BPF maps, whose update call may fail for any reason; the tests and
  the container images.
\<close>

section \<open>What a DEL of the CNI plugin asks of the agent\<close>

text \<open>\<open>serde_json\<close> on objects of strings: what was serialized parses to a value with the same
  members.\<close>

definition json_roundtrip :: "'j json_api \<Rightarrow> to_string_fn \<Rightarrow> bool" where
  "json_roundtrip j to_string \<longleftrightarrow>
     (\<forall>kvs. \<exists>t v. to_string kvs = Inr t \<and> from_slice j (as_bytes t) = Inr v \<and> (\<forall>k. get_str j v k = map_of kvs k))"

text \<open>A transport that records the requests it is handed, and answers as it likes.\<close>

definition recording :: "((string \<times> string) list \<Rightarrow> string res res) \<Rightarrow> (string \<times> string) list post_fn" where
  "recording reply url payload log = (log @ [(url, payload)], reply (log @ [(url, payload)]))"

lemma parse_ipv4_Nil [simp]: "parse_ipv4 '''' = None"
  by (simp add: parse_ipv4_def read_ipv4_addr_def read_octets_four read_separator_def read_number_def)

lemma recording_notify_agent:
  assumes "to_string [(''action'', action), (''container_id'', cid), (''ip'', ip), (''iface'', iface)] = Inr payload"
  shows "agent (fst (notify_agent (recording reply) to_string action cid ip iface s)) =
    agent s @ [(container_url, payload)]"
  using assms by (simp add: notify_agent_def recording_def)

text \<open>A request to delete a container at no address.\<close>

lemma handle_del_without_ip:
  assumes "from_slice j body = Inr v" and "get_str j v ''action'' = Some ''del''"
    and "get_str j v ''container_id'' = Some cid" and "get_str j v ''ip'' = Some ''''"
  shows "handle_container_cmd checks ins rem j body st =
    (st\<lparr>containers := (containers st)(cid := None)\<rparr>, Inr (''200 OK'' @ CRLF @ CRLF @ ''{\"status\":\"removed\"}''))"
  using assms by (simp add: handle_container_cmd_def str_or_def remove_def)

text \<open>
  C20. DEL never takes a route away: a successful DEL hands the HTTP client exactly one request,
  and that request names no address. An agent that acts on it, whatever its state, takes the
  container out of its table, leaves every route of the container-route map in place, and
  answers that the container was removed.
\<close>

theorem cni_del_leaves_route:
  assumes "json_roundtrip j to_string" and "cid = or_default (container_id cmd) ''unknown''"
    and "cmd_del exec (recording reply) to_string cmd s = (s', Inr out)"
  shows "\<exists>payload. agent s' = agent s @ [(container_url, payload)] \<and>
    (\<forall>checks ins rem st. handle_container_cmd checks ins rem j (as_bytes payload) st =
       (st\<lparr>containers := (containers st)(cid := None)\<rparr>, Inr (''200 OK'' @ CRLF @ CRLF @ ''{\"status\":\"removed\"}'')))"
proof -
  obtain host where s': "agent s' = agent (fst (notify_agent (recording reply) to_string ''del'' cid '''' host s))"
    using assms(2,3) by (auto simp: cmd_del_def seq_Inr_iff exec_cmd_Inr Let_def agent_notify_agent)
  let ?kvs = "[(''action'', ''del''), (''container_id'', cid), (''ip'', ''''), (''iface'', host)]"
  obtain t v where t: "to_string ?kvs = Inr t" "from_slice j (as_bytes t) = Inr v" "\<And>k. get_str j v k = map_of ?kvs k"
    using assms(1) unfolding json_roundtrip_def by blast
  have "agent s' = agent s @ [(container_url, t)]"
    using recording_notify_agent [of to_string "''del''" cid "''''" host t reply s] t(1) s' by simp
  moreover have "handle_container_cmd checks ins rem j (as_bytes t) st =
      (st\<lparr>containers := (containers st)(cid := None)\<rparr>, Inr (''200 OK'' @ CRLF @ CRLF @ ''{\"status\":\"removed\"}''))"
    for checks ins rem st
    by (rule handle_del_without_ip [OF t(2)]) (simp_all add: t(3))
  ultimately show ?thesis by blast
qed

text \<open>A codec for objects of strings.\<close>

definition enc_str :: "string \<Rightarrow> string" where
  "enc_str s = concat (map (\<lambda>c. [CHR ''c'', c]) s) @ ''e''"

fun dec_str :: "string \<Rightarrow> string \<times> string" where
  "dec_str (m # c # r) = (if m = CHR ''c'' then let (s, r') = dec_str r in (c # s, r') else ([], c # r))"
| "dec_str _ = ([], [])"

definition enc_kvs :: "(string \<times> string) list \<Rightarrow> string" where
  "enc_kvs kvs = concat (map (\<lambda>(k, v). enc_str k @ enc_str v) kvs)"

primrec dec_kvs :: "nat \<Rightarrow> string \<Rightarrow> (string \<times> string) list" where
  "dec_kvs 0 s = []"
| "dec_kvs (Suc n) s =
     (if s = [] then [] else let (k, r) = dec_str s; (v, r') = dec_str r in (k, v) # dec_kvs n r')"

definition codec :: "(string \<times> string) list json_api" where
  "codec = \<lparr>from_slice = (\<lambda>bs. if bs = [] then Inl (Error ''EOF while parsing a value'')
      else Inr (dec_kvs (length bs) (map (\<lambda>b. char_of (unat b)) (butlast bs)))), get_str = map_of\<rparr>"

definition codec_to_string :: to_string_fn where
  "codec_to_string kvs = Inr (enc_kvs kvs @ ''.'')"

lemma dec_enc_str [simp]: "dec_str (enc_str s @ r) = (s, r)"
proof (induction s)
  case Nil
  then show ?case by (cases r) (simp_all add: enc_str_def)
qed (simp add: enc_str_def)

lemma dec_enc_kvs: "length kvs \<le> n \<Longrightarrow> dec_kvs n (enc_kvs kvs) = kvs"
proof (induction kvs arbitrary: n)
  case Nil
  then show ?case by (cases n) (simp_all add: enc_kvs_def)
next
  case (Cons kv kvs)
  obtain k v where kv: "kv = (k, v)" by force
  obtain m where n: "n = Suc m" using Cons.prems by (cases n) simp_all
  have "enc_kvs (kv # kvs) = enc_str k @ enc_str v @ enc_kvs kvs" by (simp add: enc_kvs_def kv)
  moreover have "enc_str k \<noteq> []" by (simp add: enc_str_def)
  ultimately show ?case using Cons.IH [of m] Cons.prems by (simp add: n kv)
qed

lemma length_enc_kvs: "length kvs \<le> length (enc_kvs kvs)"
  by (induction kvs) (auto simp: enc_kvs_def enc_str_def)

lemma chars_as_bytes: "map (\<lambda>b. char_of (unat b)) (as_bytes s) = s"
proof -
  have "char_of (unat (word_of_nat (of_char c) :: u8)) = c" for c
    by (simp add: unat_of_nat)
  then show ?thesis by (simp add: as_bytes_def map_idI)
qed

lemma codec_roundtrip: "json_roundtrip codec codec_to_string"
proof -
  have "from_slice codec (as_bytes (enc_kvs kvs @ ''.'')) = Inr kvs" for kvs
  proof -
    have "as_bytes (enc_kvs kvs @ ''.'') \<noteq> []" "butlast (as_bytes (enc_kvs kvs @ ''.'')) = as_bytes (enc_kvs kvs)"
      by (simp_all add: as_bytes_def)
    moreover have "length kvs \<le> length (as_bytes (enc_kvs kvs @ ''.''))"
      using length_enc_kvs [of kvs] by (simp add: as_bytes_def)
    ultimately show ?thesis by (simp add: codec_def chars_as_bytes dec_enc_kvs)
  qed
  then show ?thesis by (simp add: json_roundtrip_def codec_to_string_def codec_def)
qed

lemma cni_del_leaves_route_witness:
  "\<exists>payload s' out.
     cmd_del exec_ok (recording (\<lambda>_. Inl (Error ''connection refused''))) codec_to_string sample_cmd (fresh []) = (s', Inr out) \<and>
     agent s' = [(container_url, payload)] \<and>
     bpf (fst (handle_container_cmd False set_key del_key codec (as_bytes payload) sample_api_state)) = bpf sample_api_state"
proof -
  obtain s' out where del: "cmd_del exec_ok (recording (\<lambda>_. Inl (Error ''connection refused''))) codec_to_string
      sample_cmd (fresh []) = (s', Inr out)"
    by (simp add: cmd_del_def sample_cmd_def or_default_def host_iface_sample exec_cmd_def exec_ok_def
        codec_to_string_def Let_def)
  from cni_del_leaves_route [OF codec_roundtrip refl del] obtain payload where
    "agent s' = [(container_url, payload)]"
    "handle_container_cmd False set_key del_key codec (as_bytes payload) sample_api_state =
       (sample_api_state\<lparr>containers := (containers sample_api_state)(''a'' := None)\<rparr>,
        Inr (''200 OK'' @ CRLF @ CRLF @ ''{\"status\":\"removed\"}''))"
    by (auto simp: fresh_def sample_cmd_def or_default_def)
  with del show ?thesis by auto
qed

section \<open>The CNI plugin and the agent over the HTTP client in use\<close>

text \<open>
  The client of the plugin: how it writes a request and how it reads the reply. What \<open>ureq\<close>
  documents for \<open>send\<close> on a reader: the body is sent in chunks, without a \<open>Content-Length\<close>
  header; and a reply that does not begin with an HTTP version is an error.
\<close>

record http_client =
  render :: "string \<Rightarrow> string \<Rightarrow> string"
  parse_reply :: "string \<Rightarrow> string res res"

definition chunked_client :: "http_client \<Rightarrow> bool" where
  "chunked_client u \<longleftrightarrow>
     (\<forall>url payload. \<exists>hs body. render u url payload = http_request post_line hs body \<and>
        list_all plain_line hs \<and> list_all (\<lambda>h. \<not> prefix ''Content-Length:'' h) hs) \<and>
     (\<forall>reply. \<not> prefix ''HTTP/'' reply \<longrightarrow> (\<exists>e. parse_reply u reply = Inl e))"

definition http_post ::
    "bool \<Rightarrow> u32 insert_fn \<Rightarrow> u32 remove_fn \<Rightarrow> 'j json_api \<Rightarrow> http_client \<Rightarrow> api_state post_fn" where
  "http_post checks ins rem j u url payload st =
     (case handle_api_connection checks ins rem j Eof (render u url payload) st of
        (st', Inr (Some reply)) \<Rightarrow> (st', parse_reply u reply)
      | (st', _) \<Rightarrow> (st', Inl (Error ''connection closed'')))"

lemma http_post_ignored:
  assumes "chunked_client u" and "from_slice j [] = Inl err"
  shows "\<exists>e. http_post checks ins rem j u url payload st = (st, Inl e)"
proof -
  obtain hs body where "render u url payload = http_request post_line hs body" "list_all plain_line hs"
      "list_all (\<lambda>h. \<not> prefix ''Content-Length:'' h) hs"
    using assms(1) unfolding chunked_client_def by blast
  with without_content_length [of hs j err checks ins rem Eof body st] assms(2)
  have "http_post checks ins rem j u url payload st = (st, parse_reply u
      (''400 Bad Request'' @ CRLF @ CRLF @ ''{\"error\":\"json: '' @ err_text err @ ''\"}''))"
    by (simp add: http_post_def)
  moreover have "\<exists>e. parse_reply u (''400 Bad Request'' @ CRLF @ CRLF @ ''{\"error\":\"json: '' @ err_text err @ ''\"}'') = Inl e"
    using assms(1) unfolding chunked_client_def by simp
  ultimately show ?thesis by auto
qed

text \<open>
  C19. Over the client in use the plugin and the agent never meet: the agent reads an empty
  body, answers with an error the client cannot read, and changes nothing. Every ADD takes
  its address from the hash of the container name, and neither ADD nor DEL changes the
  agent's container table or its routes.
\<close>

theorem cni_never_reaches_agent:
  assumes "chunked_client u" and "from_slice j [] = Inl err"
    and "post = http_post checks ins rem j u"
  shows "snd (allocate_ip post j' to_string cid s) = fallback_ip cid \<and>
    agent (fst (cmd_add exec post j' to_string print cmd s)) = agent s \<and>
    agent (fst (cmd_del exec post to_string cmd s)) = agent s"
proof -
  have post: "\<exists>e. post url payload w = (w, Inl e)" for url payload w
    using http_post_ignored [OF assms(1,2)] by (simp add: assms(3))
  then have unchanged: "fst (post url payload w) = w" for url payload w by (metis fst_conv)
  have "reply_ip j' (snd (post url payload w)) = None" for url payload w
    using post [of url payload w] by (auto simp: reply_ip_def)
  then have "snd (allocate_ip post j' to_string cid s) = fallback_ip cid"
    by (simp add: allocate_ip_def Let_def case_prod_beta)
  with agent_unchanged [of post, OF unchanged] show ?thesis by blast
qed

definition sample_client :: http_client where
  "sample_client = \<lparr>render = (\<lambda>url payload. http_request post_line
       [''Host: 127.0.0.1:9091'', ''Transfer-Encoding: chunked''] payload),
     parse_reply = (\<lambda>reply. if prefix ''HTTP/'' reply then Inr (Inr reply) else Inl (Error ''bad status line''))\<rparr>"

lemma sample_client_chunked: "chunked_client sample_client"
  unfolding chunked_client_def sample_client_def http_client.simps using http_witness_headers by auto

lemma cni_never_reaches_agent_witness:
  "snd (allocate_ip (http_post False set_key del_key codec sample_client) codec codec_to_string ''a''
      \<lparr>trace = [], agent = sample_api_state\<rparr>) = fallback_ip ''a'' \<and>
   agent (fst (cmd_add exec_ok (http_post False set_key del_key codec sample_client) codec codec_to_string print_ok sample_cmd
      \<lparr>trace = [], agent = sample_api_state\<rparr>)) = sample_api_state"
proof -
  have "from_slice codec [] = Inl (Error ''EOF while parsing a value'')" by (simp add: codec_def)
  from cni_never_reaches_agent [OF sample_client_chunked this refl, where j' = codec and to_string = codec_to_string
      and cid = "''a''" and s = "\<lparr>trace = [], agent = sample_api_state\<rparr>" and checks = False and ins = set_key
      and rem = del_key and exec = exec_ok and print = print_ok and cmd = sample_cmd]
  show ?thesis by simp
qed

section \<open>A route miss from the packet to the route table\<close>

lemma u32_le_roundtrip: "u32_from_le_bytes (u32_to_le_bytes w) = w"
  using u32_be_roundtrip [of w] by (simp add: u32_from_le_bytes_def u32_to_le_bytes_def
      u32_from_be_bytes_def u32_to_be_bytes_def)

text \<open>
  C6. A route miss travels from the packet to the route table: when the egress program looks
  at a frame to a node it does not know and the ring buffer has room, the consumer task
  reads the same address word, and the next discovery round enters it in the container-route
  map, provided the queue was empty and the address is not cooling down. The query it sends to
  the Kademlia task is lost: the receiver of the channel has been dropped since \<open>spawn_all\<close>
  returned, so the content \<open>kad\<close> of the channel does not change.
\<close>

theorem route_miss_end_to_end:
  assumes "skb_load_ok (skb_load tc)" and "42 \<le> length (skb ctx)" and "skb_len ctx = Inr n" and "42 \<le> n"
    and "skb ctx ! 12 = 0x00" and "skb ctx ! 13 = 0x08"
    and "GENEVE_IFINDEX_MAP km 0 = Some ifindex" and "ifindex \<noteq> 0"
    and "dest = u32_from_le_bytes (take 4 (drop 16 (skb ctx)))" and "NODE_DYNAMIC_MAP km dest = None"
    and "ringbuf b = Some []" and "ringbuf_reserve tc []" and "container_route (maps b) = Some routes"
    and "insert_ok ins" and "ins routes dest 1 = Inr routes'"
    and "egress_p2p_mesh tc km [] ctx = (verdict, packet, ring)"
    and "ringbuf_consumer_step (b\<lparr>ringbuf := Some ring\<rparr>) \<lparr>pending = [], cooldowns = cd\<rparr> = (b', rm')"
    and "retain_cooldowns now cd dest = None"
  shows "verdict = TC_ACT_PIPE \<and> packet = skb ctx \<and>
    (\<exists>rm'' b''. discovery_step ins (Some False) now rm' (b', kad) = (rm'', b'', kad) \<and> route_of b'' dest = Some 1)"
proof -
  have "load_u16 tc ctx 12 = Inr 0x0800"
    using load_u16_in_range [OF assms(1), where ctx = ctx and off = 12] assms(2,5,6) ethertype_0800 [of 0 8] by simp
  moreover have "load_u32 tc ctx 16 = Inr dest"
    using load_u32_in_range [OF assms(1), where ctx = ctx and off = 16] assms(2,9) by simp
  moreover have "\<not> n < 42" using assms(4) by simp
  ultimately have egress: "verdict = TC_ACT_PIPE" "packet = skb ctx" "ring = [u32_to_le_bytes dest]"
    using assms(3,7,8,10,12,16) by (simp_all add: egress_p2p_mesh_def try_egress_def Let_def)
  have "decode_miss (u32_to_le_bytes dest) = Some dest"
    by (simp add: decode_miss_def u32_to_le_bytes_def u32_le_roundtrip [unfolded u32_to_le_bytes_def])
  then have miss: "b' = b\<lparr>ringbuf := Some []\<rparr>" "rm' = \<lparr>pending = [dest], cooldowns = cd\<rparr>"
    using assms(17) egress(3) by (simp_all add: ringbuf_consumer_step_def ring_next_def submit_miss_def
        submit_check_def submit_push_def MAX_PENDING_def)
  have batch: "fst (drain_batch now rm') = [dest]"
    using assms(18) by (simp add: miss drain_batch_def Let_def)
  have "routes' = routes(dest \<mapsto> 1)" using assms(14,15) by (simp add: insert_ok_def)
  with batch assms(13,15) show ?thesis
    by (simp add: egress discovery_step_def case_prod_beta Let_def discover_one_def kad_send_def miss(1))
qed

lemma route_miss_end_to_end_witness:
  "\<exists>ring b' rm' rm'' b''.
     egress_p2p_mesh sample_api deny_all [] (sample_ctx 0x00 0x08) = (TC_ACT_PIPE, skb (sample_ctx 0x00 0x08), ring) \<and>
     ringbuf_consumer_step ((route_manager_of Map.empty)\<lparr>ringbuf := Some ring\<rparr>) new_route_manager = (b', rm') \<and>
     discovery_step set_key (Some False) 5 rm' (b', []) = (rm'', b'', []) \<and> route_of b'' 0 = Some 1"
proof -
  let ?b = "(route_manager_of Map.empty)\<lparr>ringbuf := Some []\<rparr>"
  obtain verdict packet ring where eg: "egress_p2p_mesh sample_api deny_all [] (sample_ctx 0x00 0x08) = (verdict, packet, ring)"
    using prod_cases3 by blast
  obtain b' rm' where cons: "ringbuf_consumer_step (?b\<lparr>ringbuf := Some ring\<rparr>) \<lparr>pending = [], cooldowns = Map.empty\<rparr> = (b', rm')"
    by force
  have dest: "0 = u32_from_le_bytes (take 4 (drop 16 (skb (sample_ctx 0x00 0x08))))"
    by (simp add: sample_ctx_def u32_from_le_bytes_def be_val_def numeral_eq_Suc)
  note end_to_end = route_miss_end_to_end [OF sample_api_ok _ _ _ nth_sample_ctx _ _ dest _ _ _ _ set_key_ok _ eg cons,
      of 60 5 Map.empty "[0 \<mapsto> 1]" 5 "[]"]
  have "verdict = TC_ACT_PIPE \<and> packet = skb (sample_ctx 0x00 0x08) \<and>
    (\<exists>rm'' b''. discovery_step set_key (Some False) 5 rm' (b', []) = (rm'', b'', []) \<and> route_of b'' 0 = Some 1)"
    using end_to_end
    by (simp add: sample_ctx_def deny_all_def sample_api_def route_manager_of_def set_key_def retain_cooldowns_def)
  then show ?thesis using eg cons by (simp add: new_route_manager_def)
qed

end
